(* ===== verification/Prelude.thy ===== *)
theory Prelude
  imports Main "HOL-Library.Word"
begin

text \<open>
  Shared vocabulary of the development.

  \<^item> \<open>res\<close> is the outcome of a Go function that may fail: it returns a value
    (\<open>Ret\<close>), returns a non-nil \<^verbatim>\<open>error\<close> (\<open>Err\<close>, with the error's text), panics (\<open>Panic\<close>),
    ends the process through \<^verbatim>\<open>log.Fatal\<close> (\<open>Exit\<close>), or blocks for ever, waiting on a channel
    or a connection that nobody will serve (\<open>Hang\<close>).
  \<^item> \<open>proc\<close> is a computation over a mutable state: the state it leaves behind is kept on
    every outcome, because a Go function that returns an error does not undo its writes.
  \<^item> A Go map is a partial function. Iterating over it (\<^verbatim>\<open>for k, v := range m\<close>) visits
    its keys in an unspecified order, so every definition that iterates takes that order
    as an argument; \<open>range_order\<close> says what the language promises about it.
\<close>

named_theorems go_simps \<open>equations that evaluate the model's sequencing and look-ups\<close>
named_theorems wire_simps \<open>equations of the text protocols' splitting and trimming\<close>

section \<open>Outcomes and sequencing\<close>

datatype 'a res = Ret 'a | Err string | Panic string | Exit string | Hang

fun res_bind :: "'a res \<Rightarrow> ('a \<Rightarrow> 'b res) \<Rightarrow> 'b res" where
  "res_bind (Ret a) f = f a"
| "res_bind (Err e) f = Err e"
| "res_bind (Panic p) f = Panic p"
| "res_bind (Exit p) f = Exit p"
| "res_bind Hang f = Hang"

fun is_ret :: "'a res \<Rightarrow> bool" where
  "is_ret (Ret a) = True"
| "is_ret _ = False"

fun res_of_option :: "'b res \<Rightarrow> 'b option \<Rightarrow> 'b res" where
  "res_of_option e None = e"
| "res_of_option e (Some a) = Ret a"

type_synonym ('s, 'a) proc = "'s \<Rightarrow> 'a res \<times> 's"

definition retP :: "'a \<Rightarrow> ('s, 'a) proc" where
  "retP a s = (Ret a, s)"

definition errP :: "string \<Rightarrow> ('s, 'a) proc" where
  "errP e s = (Err e, s)"

text \<open>A step that touches no state, and the panic of a nil pointer.\<close>

definition liftR :: "'a res \<Rightarrow> ('s, 'a) proc" where
  "liftR r s = (r, s)"

definition nil_deref :: string where
  "nil_deref = ''invalid memory address or nil pointer dereference''"

definition bindP :: "('s, 'a) proc \<Rightarrow> ('a \<Rightarrow> ('s, 'b) proc) \<Rightarrow> ('s, 'b) proc" where
  "bindP m f s =
     (case m s of
        (Ret a, s') \<Rightarrow> f a s'
      | (Err e, s') \<Rightarrow> (Err e, s')
      | (Panic e, s') \<Rightarrow> (Panic e, s')
      | (Exit e, s') \<Rightarrow> (Exit e, s')
      | (Hang, s') \<Rightarrow> (Hang, s'))"

text \<open>Handling an error value; panics and exits pass through.\<close>

definition catchP :: "('s, 'a) proc \<Rightarrow> (string \<Rightarrow> ('s, 'a) proc) \<Rightarrow> ('s, 'a) proc" where
  "catchP m f s =
     (case m s of
        (Ret a, s') \<Rightarrow> (Ret a, s')
      | (Err e, s') \<Rightarrow> f e s'
      | (Panic e, s') \<Rightarrow> (Panic e, s')
      | (Exit e, s') \<Rightarrow> (Exit e, s')
      | (Hang, s') \<Rightarrow> (Hang, s'))"

definition seqP :: "('s, 'a) proc \<Rightarrow> ('s, 'b) proc \<Rightarrow> ('s, 'b) proc" where
  "seqP m n = bindP m (\<lambda>_. n)"

text \<open>A \<^verbatim>\<open>for _, x := range xs\<close> loop whose body may leave the function early.\<close>

primrec for_each :: "('a \<Rightarrow> ('s, unit) proc) \<Rightarrow> 'a list \<Rightarrow> ('s, unit) proc" where
  "for_each f [] = retP ()"
| "for_each f (x # xs) = bindP (f x) (\<lambda>_. for_each f xs)"

lemma res_bind_Ret_iff:
  "res_bind m f = Ret b \<longleftrightarrow> (\<exists>a. m = Ret a \<and> f a = Ret b)"
  by (cases m) auto

lemma map_res_Ret_iff: "map_res f m = Ret b \<longleftrightarrow> (\<exists>a. m = Ret a \<and> b = f a)"
  by (cases m) auto

lemma res_bind_assoc [simp]: "res_bind (res_bind m f) g = res_bind m (\<lambda>x. res_bind (f x) g)"
  by (cases m) auto

lemma retP_apply [simp, go_simps]: "retP a s = (Ret a, s)"
  by (simp add: retP_def)

lemma errP_apply [simp, go_simps]: "errP e s = (Err e, s)"
  by (simp add: errP_def)

lemma bindP_Ret [go_simps]: "m s = (Ret a, s') \<Longrightarrow> bindP m f s = f a s'"
  by (simp add: bindP_def)

lemma bindP_retP [simp]: "bindP (retP a) f = f a"
  by (rule ext) (simp add: bindP_def)

lemma bindP_errP [simp]: "bindP (errP e) f = errP e"
  by (rule ext) (simp add: bindP_def)

lemma bindP_unit: "bindP m retP = m"
  by (auto simp: bindP_def fun_eq_iff split: res.splits prod.splits)

lemma bindP_assoc: "bindP (bindP m f) g = bindP m (\<lambda>x. bindP (f x) g)"
  by (rule ext) (auto simp: bindP_def split: prod.splits res.splits)

text \<open>
  Invariants of a computation: \<open>keeps I m\<close> says that \<open>m\<close> leaves \<open>I\<close> intact on every
  outcome, the failing ones included.
\<close>

definition keeps :: "('s \<Rightarrow> bool) \<Rightarrow> ('s, 'a) proc \<Rightarrow> bool" where
  "keeps I m \<longleftrightarrow> (\<forall>s. I s \<longrightarrow> I (snd (m s)))"

lemma keepsI: "(\<And>s. I s \<Longrightarrow> I (snd (m s))) \<Longrightarrow> keeps I m"
  by (simp add: keeps_def)

lemma keepsD: "keeps I m \<Longrightarrow> I s \<Longrightarrow> I (snd (m s))"
  by (simp add: keeps_def)

lemma keeps_retP [simp, intro]: "keeps I (retP a)"
  by (simp add: keeps_def)

lemma keeps_errP [simp, intro]: "keeps I (errP e)"
  by (simp add: keeps_def)

lemma keeps_liftR [intro]: "keeps I (liftR r)"
  by (intro keepsI) (simp add: liftR_def)

lemma keeps_bindP [intro]:
  assumes "keeps I m" and "\<And>a. keeps I (f a)"
  shows "keeps I (bindP m f)"
proof (rule keepsI)
  fix s assume "I s"
  then have "I (snd (m s))" using assms(1) by (simp add: keeps_def)
  then show "I (snd (bindP m f s))"
    using assms(2) by (auto simp: bindP_def keeps_def split: prod.splits res.splits)
qed

lemma keeps_catchP [intro]:
  assumes "keeps I m" and "\<And>e. keeps I (f e)"
  shows "keeps I (catchP m f)"
proof (rule keepsI)
  fix s assume "I s"
  then have "I (snd (m s))" using assms(1) by (simp add: keeps_def)
  then show "I (snd (catchP m f s))"
    using assms(2) by (auto simp: catchP_def keeps_def split: prod.splits res.splits)
qed

lemma keeps_seqP [intro]: "keeps I m \<Longrightarrow> keeps I n \<Longrightarrow> keeps I (seqP m n)"
  by (auto simp: seqP_def)

lemma keeps_for_each [intro]: "(\<And>x. keeps I (f x)) \<Longrightarrow> keeps I (for_each f xs)"
  by (induction xs) auto

lemma keeps_if [intro]: "(b \<Longrightarrow> keeps I m) \<Longrightarrow> (\<not> b \<Longrightarrow> keeps I n) \<Longrightarrow> keeps I (if b then m else n)"
  by simp

section \<open>Lists\<close>

lemma take_self_length: "take (length r) s = r \<Longrightarrow> length r \<le> length s"
proof -
  assume "take (length r) s = r"
  then have "length (take (length r) s) = length r" by (rule arg_cong)
  then show ?thesis by simp
qed

section \<open>Go maps and their iteration order\<close>

definition range_order :: "'k list \<Rightarrow> ('k \<rightharpoonup> 'v) \<Rightarrow> bool" where
  "range_order ks m \<longleftrightarrow> distinct ks \<and> set ks = dom m"

lemma range_orderD:
  assumes "range_order ks m"
  shows "distinct ks" "set ks = dom m"
  using assms by (simp_all add: range_order_def)

lemma range_order_empty [simp]: "range_order [] m \<longleftrightarrow> m = Map.empty"
  by (auto simp: range_order_def)

text \<open>
  A loop that stores every entry it visits, \<^verbatim>\<open>for k, v := range m { o[k] = v }\<close>: it copies
  the map.
\<close>

primrec copy_keys :: "('k \<rightharpoonup> 'v) \<Rightarrow> 'k list \<Rightarrow> ('k \<rightharpoonup> 'v) \<Rightarrow> ('k \<rightharpoonup> 'v)" where
  "copy_keys m [] o' = o'"
| "copy_keys m (k # ks) o' = copy_keys m ks (o'(k \<mapsto> the (m k)))"

lemma copy_keys_apply:
  "copy_keys m ks o' x = (if x \<in> set ks then Some (the (m x)) else o' x)"
  by (induction ks arbitrary: o') auto

lemma copy_keys_range_order [go_simps]: "range_order ks m \<Longrightarrow> copy_keys m ks Map.empty = m"
  by (rule ext) (auto simp: copy_keys_apply range_order_def)

end
