(* ===== verification/Go_Strings.thy ===== *)
theory Go_Strings
  imports Prelude
begin

text \<open>
  The parts of Go's \<^verbatim>\<open>strings\<close> and \<^verbatim>\<open>strconv\<close> packages that the program calls. A Go
  string is a sequence of bytes, as is HOL's \<^typ>\<open>string\<close>, so \<^verbatim>\<open>[]byte\<close> and \<^verbatim>\<open>string\<close>
  are the same type here and the conversions between them are the identity.
  White space is Unicode white space in its UTF-8 encoding, as \<^verbatim>\<open>unicode.IsSpace\<close>
  defines it. Integers are Go's 64-bit \<^verbatim>\<open>int\<close>: \<open>Atoi\<close> reports a value outside the
  64-bit range as the library does, by clamping and an error.
\<close>

abbreviation CR :: char where "CR \<equiv> CHR 0x0D"
abbreviation LF :: char where "LF \<equiv> CHR 0x0A"
abbreviation SP :: char where "SP \<equiv> CHR 0x20"

definition crlf :: string where
  "crlf = [CR, LF]"

section \<open>Splitting, joining, searching\<close>

text \<open>\<^verbatim>\<open>strings.Split(s, sep)\<close> for a separator of one byte.\<close>

fun split_on :: "char \<Rightarrow> string \<Rightarrow> string list" where
  "split_on c [] = [[]]"
| "split_on c (x # xs) =
     (if x = c then [] # split_on c xs
      else (case split_on c xs of [] \<Rightarrow> [[x]] | w # ws \<Rightarrow> (x # w) # ws))"

text \<open>\<^verbatim>\<open>strings.SplitN(s, sep, 2)\<close> for a separator of one byte.\<close>

fun splitn2 :: "char \<Rightarrow> string \<Rightarrow> string list" where
  "splitn2 c [] = [[]]"
| "splitn2 c (x # xs) =
     (if x = c then [[], xs]
      else (case splitn2 c xs of [] \<Rightarrow> [[x]] | w # ws \<Rightarrow> (x # w) # ws))"

text \<open>\<^verbatim>\<open>strings.Index(s, sub)\<close>, with \<^verbatim>\<open>-1\<close> as \<open>None\<close>, and \<^verbatim>\<open>strings.Contains\<close>.\<close>

fun index_of :: "string \<Rightarrow> string \<Rightarrow> nat option" where
  "index_of sub [] = (if sub = [] then Some 0 else None)"
| "index_of sub (x # xs) =
     (if take (length sub) (x # xs) = sub then Some 0
      else map_option Suc (index_of sub xs))"

definition contains :: "string \<Rightarrow> string \<Rightarrow> bool" where
  "contains sub s \<longleftrightarrow> index_of sub s \<noteq> None"

text \<open>
  \<^verbatim>\<open>strings.Split(s, sep)\<close> for a longer separator. (The empty separator, which Go splits
  at every code point, is never passed by the program.)
\<close>

function split_str :: "string \<Rightarrow> string \<Rightarrow> string list" where
  "split_str sep s =
     (case index_of sep s of
        None \<Rightarrow> [s]
      | Some i \<Rightarrow>
          if sep = [] then [s]
          else take i s # split_str sep (drop (i + length sep) s))"
  by pat_completeness auto

lemma index_of_Some:
  "index_of sub s = Some i \<Longrightarrow>
     i + length sub \<le> length s \<and> take (length sub) (drop i s) = sub"
proof (induction s arbitrary: i)
  case Nil
  then show ?case by (auto split: if_splits)
next
  case (Cons x xs)
  show ?case
  proof (cases "take (length sub) (x # xs) = sub")
    case True
    then have "length sub \<le> length (x # xs)" by (rule take_self_length)
    with True Cons.prems show ?thesis by simp
  next
    case False
    with Cons.prems obtain j where "index_of sub xs = Some j" "i = Suc j" by auto
    with Cons.IH show ?thesis by auto
  qed
qed

termination split_str
proof (relation "measure (\<lambda>(sep, s). length s)")
  fix sep s i
  assume "index_of sep s = Some i" and "sep \<noteq> []"
  then have "i + length sep \<le> length s" and "0 < length sep"
    by (simp_all add: index_of_Some)
  then have "length s - (i + length sep) < length s" by linarith
  then show "((sep, drop (i + length sep) s), (sep, s)) \<in> measure (\<lambda>(sep, s). length s)"
    by simp
qed simp

declare split_str.simps [simp del]

text \<open>\<^verbatim>\<open>strings.Join(ws, sep)\<close>.\<close>

fun join :: "string \<Rightarrow> string list \<Rightarrow> string" where
  "join sep [] = []"
| "join sep [w] = w"
| "join sep (w # v # ws) = w @ sep @ join sep (v # ws)"

lemma split_on_nonempty [simp]: "split_on c s \<noteq> []"
  by (induction s) (auto split: list.splits)

lemma splitn2_nonempty [simp]: "splitn2 c s \<noteq> []"
  by (induction s) (auto split: list.splits)

lemma split_on_no_sep [wire_simps]: "c \<notin> set s \<Longrightarrow> split_on c s = [s]"
  by (induction s) auto

lemma split_on_append [wire_simps]:
  "c \<notin> set a \<Longrightarrow> split_on c (a @ c # b) = a # split_on c b"
  by (induction a) auto

lemma splitn2_no_sep [wire_simps]: "c \<notin> set s \<Longrightarrow> splitn2 c s = [s]"
  by (induction s) auto

lemma splitn2_append [wire_simps]: "c \<notin> set a \<Longrightarrow> splitn2 c (a @ c # b) = [a, b]"
  by (induction a) auto

section \<open>Trimming and fields\<close>

text \<open>\<^verbatim>\<open>strings.Trim(s, cutset)\<close>.\<close>

definition trim_set :: "char set \<Rightarrow> string \<Rightarrow> string" where
  "trim_set cs s = rev (dropWhile (\<lambda>c. c \<in> cs) (rev (dropWhile (\<lambda>c. c \<in> cs) s)))"

text \<open>The UTF-8 encodings of the code points that \<^verbatim>\<open>unicode.IsSpace\<close> accepts.\<close>

definition space_runes :: "string list" where
  "space_runes =
     [[CHR 0x09], [CHR 0x0A], [CHR 0x0B], [CHR 0x0C], [CHR 0x0D], [CHR 0x20],
      [CHR 0xC2, CHR 0x85], [CHR 0xC2, CHR 0xA0], [CHR 0xE1, CHR 0x9A, CHR 0x80]]
     @ map (\<lambda>b. [CHR 0xE2, CHR 0x80, b])
         [CHR 0x80, CHR 0x81, CHR 0x82, CHR 0x83, CHR 0x84, CHR 0x85, CHR 0x86, CHR 0x87,
          CHR 0x88, CHR 0x89, CHR 0x8A, CHR 0xA8, CHR 0xA9, CHR 0xAF]
     @ [[CHR 0xE2, CHR 0x81, CHR 0x9F], [CHR 0xE3, CHR 0x80, CHR 0x80]]"

text \<open>The length of the sequence of \<open>rs\<close> that \<open>s\<close> starts with, or 0.\<close>

definition rune_prefix :: "string list \<Rightarrow> string \<Rightarrow> nat" where
  "rune_prefix rs s =
     (case find (\<lambda>r. r \<noteq> [] \<and> take (length r) s = r) rs of None \<Rightarrow> 0 | Some r \<Rightarrow> length r)"

lemma rune_prefix_le: "rune_prefix rs s \<le> length s"
proof (cases "find (\<lambda>r. r \<noteq> [] \<and> take (length r) s = r) rs")
  case None
  then show ?thesis by (simp add: rune_prefix_def)
next
  case (Some r)
  then have "take (length r) s = r" by (auto simp: find_Some_iff)
  then have "length r \<le> length s" by (rule take_self_length)
  with Some show ?thesis by (simp add: rune_prefix_def)
qed

function strip_runes :: "string list \<Rightarrow> string \<Rightarrow> string" where
  "strip_runes rs s =
     (if rune_prefix rs s = 0 then s else strip_runes rs (drop (rune_prefix rs s) s))"
  by pat_completeness auto
termination strip_runes
proof (relation "measure (\<lambda>(rs, s). length s)")
  fix rs s
  assume "rune_prefix rs s \<noteq> 0"
  then show "((rs, drop (rune_prefix rs s) s), (rs, s)) \<in> measure (\<lambda>(rs, s). length s)"
    using rune_prefix_le [of rs s] by (simp add: less_le_trans)
qed simp

declare strip_runes.simps [simp del]

text \<open>\<^verbatim>\<open>strings.TrimSpace\<close>.\<close>

definition TrimSpace :: "string \<Rightarrow> string" where
  "TrimSpace s =
     rev (strip_runes (map rev space_runes) (rev (strip_runes space_runes s)))"

text \<open>The bytes of \<open>s\<close> before its first white-space code point.\<close>

fun take_word :: "string \<Rightarrow> string" where
  "take_word [] = []"
| "take_word (x # xs) = (if rune_prefix space_runes (x # xs) > 0 then [] else x # take_word xs)"

text \<open>\<^verbatim>\<open>strings.Fields\<close>.\<close>

function Fields :: "string \<Rightarrow> string list" where
  "Fields s =
     (let t = strip_runes space_runes s in
      if t = [] then [] else take_word t # Fields (drop (length (take_word t)) t))"
  by pat_completeness auto

lemma take_word_strip:
  "strip_runes space_runes s = t \<Longrightarrow> t \<noteq> [] \<Longrightarrow> take_word t \<noteq> []"
proof (induction space_runes s rule: strip_runes.induct)
  case (1 s)
  then show ?case
    by (cases t) (auto simp: strip_runes.simps [of space_runes s] split: if_splits)
qed

lemma strip_runes_le: "length (strip_runes rs s) \<le> length s"
proof (induction rs s rule: strip_runes.induct)
  case (1 rs s)
  then show ?case by (subst strip_runes.simps) auto
qed

termination Fields
proof (relation "measure length")
  fix s t
  assume t: "t = strip_runes space_runes s" and "t \<noteq> []"
  then have "0 < length (take_word t)" using take_word_strip by auto
  moreover have "length t \<le> length s" using t strip_runes_le by simp
  moreover have "0 < length t" using \<open>t \<noteq> []\<close> by simp
  ultimately have "length t - length (take_word t) < length s" by linarith
  then show "(drop (length (take_word t)) t, s) \<in> measure length" by simp
qed simp

declare Fields.simps [simp del]

section \<open>Letter case\<close>

definition upper_letters :: string where
  "upper_letters = ''ABCDEFGHIJKLMNOPQRSTUVWXYZ''"

definition lower_letters :: string where
  "lower_letters = ''abcdefghijklmnopqrstuvwxyz''"

definition lower_of :: "char \<Rightarrow> char" where
  "lower_of c = (case map_of (zip upper_letters lower_letters) c of None \<Rightarrow> c | Some d \<Rightarrow> d)"

definition upper_of :: "char \<Rightarrow> char" where
  "upper_of c = (case map_of (zip lower_letters upper_letters) c of None \<Rightarrow> c | Some d \<Rightarrow> d)"

text \<open>
  \<^verbatim>\<open>strings.ToLower\<close>. Besides A to Z, two code points outside ASCII have an ASCII lower
  case: U+0130 (to i) and U+212A (to k). Other bytes from 0x80 on are left alone; the
  program only compares the result with ASCII keys, and no other code point lowers to one.
\<close>

fun ToLower :: "string \<Rightarrow> string" where
  "ToLower [] = []"
| "ToLower (c # cs) =
     (if c = CHR 0xC4 \<and> take 1 cs = [CHR 0xB0] then CHR ''i'' # ToLower (drop 1 cs)
      else if c = CHR 0xE2 \<and> take 2 cs = [CHR 0x84, CHR 0xAA] then CHR ''k'' # ToLower (drop 2 cs)
      else lower_of c # ToLower cs)"

text \<open>\<^verbatim>\<open>strings.ToUpper\<close> on ASCII text, the only text the program passes to it.\<close>

definition ToUpper :: "string \<Rightarrow> string" where
  "ToUpper s = map upper_of s"

section \<open>Decimal numbers\<close>

definition decimal_digits :: string where
  "decimal_digits = ''0123456789''"

definition digit :: "nat \<Rightarrow> char" where
  "digit d = decimal_digits ! d"

text \<open>The decimal digits of a number that is not negative.\<close>

function show_dec :: "int \<Rightarrow> string" where
  "show_dec n =
     (if n < 10 then [digit (nat n)] else show_dec (n div 10) @ [digit (nat (n mod 10))])"
  by pat_completeness auto
termination show_dec
  by (relation "measure nat") auto

declare show_dec.simps [simp del]

text \<open>\<^verbatim>\<open>strconv.Itoa\<close>, \<^verbatim>\<open>strconv.FormatInt(n, 10)\<close> and the verb \<^verbatim>\<open>%d\<close>.\<close>

definition Itoa :: "int \<Rightarrow> string" where
  "Itoa n = (if n < 0 then CHR ''-'' # show_dec (- n) else show_dec n)"

datatype num_error = ErrSyntax | ErrRange

definition is_digit :: "char \<Rightarrow> bool" where
  "is_digit c \<longleftrightarrow> c \<in> set decimal_digits"

definition digit_value :: "char \<Rightarrow> int" where
  "digit_value c = of_char c - 48"

text \<open>
  The digit loop of \<^verbatim>\<open>strconv.ParseUint\<close>: it stops at the first byte that is no digit, and
  at the first digit that takes the value past 64 bits, whichever comes first.
\<close>

fun parse_uint :: "int \<Rightarrow> string \<Rightarrow> int \<times> num_error option" where
  "parse_uint n [] = (n, None)"
| "parse_uint n (c # cs) =
     (if \<not> is_digit c then (0, Some ErrSyntax)
      else if 18446744073709551616 \<le> 10 * n + digit_value c
           then (18446744073709551615, Some ErrRange)
           else parse_uint (10 * n + digit_value c) cs)"

text \<open>\<^verbatim>\<open>strconv.Atoi\<close>: the value it returns, and its error.\<close>

definition Atoi :: "string \<Rightarrow> int \<times> num_error option" where
  "Atoi s =
     (let neg = (take 1 s = ''-'');
          ds = (if take 1 s = ''-'' \<or> take 1 s = ''+'' then drop 1 s else s) in
      if ds = [] then (0, Some ErrSyntax)
      else case parse_uint 0 ds of
             (n, Some ErrSyntax) \<Rightarrow> (0, Some ErrSyntax)
           | (n, _) \<Rightarrow>
               if \<not> neg \<and> 9223372036854775808 \<le> n then (9223372036854775807, Some ErrRange)
               else if neg \<and> 9223372036854775808 < n then (- 9223372036854775808, Some ErrRange)
               else (if neg then - n else n, None))"

lemma less_10_cases: "d < 10 \<Longrightarrow> d \<in> {0, 1, 2, 3, 4, 5, 6, 7, 8, 9 :: nat}"
  by auto

lemma digit_value_digit [simp]: "d < 10 \<Longrightarrow> digit_value (digit d) = int d"
  using less_10_cases [of d] by (auto simp: digit_def decimal_digits_def digit_value_def)

lemma is_digit_digit [simp]: "d < 10 \<Longrightarrow> is_digit (digit d)"
proof -
  assume "d < 10"
  then have "d < length decimal_digits" by (simp add: decimal_digits_def)
  then show ?thesis unfolding is_digit_def digit_def by (rule nth_mem)
qed

lemma show_dec_nonempty [simp]: "show_dec n \<noteq> []"
  by (subst show_dec.simps) simp

lemma show_dec_digits: "c \<in> set (show_dec n) \<Longrightarrow> 0 \<le> n \<Longrightarrow> is_digit c"
proof (induction n rule: show_dec.induct)
  case (1 n)
  have "nat (n mod 10) < 10" by simp
  with 1 show ?case
    by (cases "n < 10") (auto simp: show_dec.simps [of n])
qed

lemma parse_uint_snoc:
  "parse_uint m s = (k, None) \<Longrightarrow> d < 10 \<Longrightarrow> 10 * k + int d < 18446744073709551616 \<Longrightarrow>
     parse_uint m (s @ [digit d]) = (10 * k + int d, None)"
  by (induction m s rule: parse_uint.induct) (auto split: if_splits)

lemma parse_uint_show_dec:
  "0 \<le> n \<Longrightarrow> n < 18446744073709551616 \<Longrightarrow> parse_uint 0 (show_dec n) = (n, None)"
proof (induction n rule: show_dec.induct)
  case (1 n)
  show ?case
  proof (cases "n < 10")
    case True
    with 1 show ?thesis by (simp add: show_dec.simps [of n])
  next
    case False
    with 1 have IH: "parse_uint 0 (show_dec (n div 10)) = (n div 10, None)" by simp
    have n: "10 * (n div 10) + n mod 10 = n" by simp
    have "int (nat (n mod 10)) = n mod 10" "nat (n mod 10) < 10" by simp_all
    with n parse_uint_snoc [OF IH, of "nat (n mod 10)"] "1.prems" False show ?thesis
      by (simp add: show_dec.simps [of n])
  qed
qed

lemma show_dec_hd:
  assumes "0 \<le> n"
  shows "take (Suc 0) (show_dec n) \<noteq> ''-''" "take (Suc 0) (show_dec n) \<noteq> ''+''"
proof -
  obtain c cs where s: "show_dec n = c # cs" using show_dec_nonempty by (meson neq_Nil_conv)
  then have "is_digit c" using show_dec_digits assms by (metis list.set_intros(1))
  with s show "take (Suc 0) (show_dec n) \<noteq> ''-''" "take (Suc 0) (show_dec n) \<noteq> ''+''"
    by (auto simp: is_digit_def decimal_digits_def)
qed

definition int64_range :: "int \<Rightarrow> bool" where
  "int64_range n \<longleftrightarrow> - 9223372036854775808 \<le> n \<and> n < 9223372036854775808"

lemma Atoi_Itoa:
  assumes "int64_range n"
  shows "Atoi (Itoa n) = (n, None)"
  using assms show_dec_hd [of n]
  by (simp add: Atoi_def Itoa_def Let_def parse_uint_show_dec int64_range_def)

section \<open>How the text protocols' lines come apart\<close>

lemma strip_runes_stop: "rune_prefix rs s = 0 \<Longrightarrow> strip_runes rs s = s"
  by (simp add: strip_runes.simps)

lemma strip_runes_prefix_0: "rune_prefix rs (strip_runes rs s) = 0"
proof (induction rs s rule: strip_runes.induct)
  case (1 rs s)
  then show ?case by (cases "rune_prefix rs s = 0") (simp_all add: strip_runes.simps [of rs s])
qed

lemma strip_runes_suffix: "\<exists>p. s = p @ strip_runes rs s"
proof (induction rs s rule: strip_runes.induct)
  case (1 rs s)
  show ?case
  proof (cases "rune_prefix rs s = 0")
    case True
    then show ?thesis by (simp add: strip_runes_stop)
  next
    case False
    with 1 obtain p where "drop (rune_prefix rs s) s = p @ strip_runes rs (drop (rune_prefix rs s) s)"
      by blast
    then have "s = (take (rune_prefix rs s) s @ p) @ strip_runes rs s"
      using False by (metis append.assoc append_take_drop_id strip_runes.simps)
    then show ?thesis by blast
  qed
qed

lemma rune_prefix_0_iff:
  "rune_prefix rs s = 0 \<longleftrightarrow> (\<forall>r \<in> set rs. r \<noteq> [] \<longrightarrow> take (length r) s \<noteq> r)"
proof (cases "find (\<lambda>r. r \<noteq> [] \<and> take (length r) s = r) rs")
  case None
  then have "rune_prefix rs s = 0" by (simp add: rune_prefix_def)
  with None show ?thesis by (auto simp: find_None_iff)
next
  case (Some r)
  then have "r \<in> set rs" "r \<noteq> []" "take (length r) s = r"
    by (auto simp: find_Some_iff)
  with Some show ?thesis by (auto simp: rune_prefix_def)
qed

lemma rune_prefix_hd:
  "rune_prefix rs s = 0 \<Longrightarrow> [c] \<in> set rs \<Longrightarrow> s \<noteq> [] \<Longrightarrow> hd s \<noteq> c"
  by (cases s) (auto simp: rune_prefix_0_iff)

lemma ascii_space_runes: "[SP] \<in> set space_runes" "[CR] \<in> set space_runes" "[LF] \<in> set space_runes"
  by (simp_all add: space_runes_def)

lemma space_runes_SP: "r \<in> set space_runes \<Longrightarrow> SP \<in> set r \<Longrightarrow> length r = 1"
  by (auto simp: space_runes_def)

lemma rune_prefix_SP [simp]: "rune_prefix space_runes (SP # s) = 1"
  by (simp add: rune_prefix_def space_runes_def)

lemma rune_prefix_Nil [simp]: "rune_prefix rs [] = 0"
  using rune_prefix_le [of rs "[]"] by simp

lemma strip_SP [wire_simps]: "strip_runes space_runes (SP # s) = strip_runes space_runes s"
  by (simp add: strip_runes.simps [of space_runes "SP # s"])

lemma TrimSpace_SP [wire_simps]: "TrimSpace (SP # s) = TrimSpace s"
  by (simp add: TrimSpace_def strip_SP)

lemma TrimSpace_Nil [simp]: "TrimSpace [] = []"
  by (simp add: TrimSpace_def strip_runes_stop)

lemma TrimSpace_ends:
  assumes "TrimSpace s \<noteq> []" and "c \<in> {SP, CR, LF}"
  shows "hd (TrimSpace s) \<noteq> c" and "last (TrimSpace s) \<noteq> c"
proof -
  let ?t = "strip_runes space_runes s"
  let ?u = "strip_runes (map rev space_runes) (rev ?t)"
  have c: "[c] \<in> set space_runes" using assms(2) ascii_space_runes by auto
  obtain p where "rev ?t = p @ ?u" using strip_runes_suffix by blast
  then have t: "?t = TrimSpace s @ rev p"
    by (metis TrimSpace_def rev_append rev_rev_ident)
  have "?t \<noteq> []" "hd ?t = hd (TrimSpace s)" using assms(1) t by auto
  then show "hd (TrimSpace s) \<noteq> c"
    using rune_prefix_hd [OF strip_runes_prefix_0 c] by metis
  have "[c] \<in> set (map rev space_runes)" using c by force
  moreover have "?u \<noteq> []" using assms(1) by (simp add: TrimSpace_def)
  ultimately have "hd ?u \<noteq> c" using rune_prefix_hd [OF strip_runes_prefix_0] by metis
  then show "last (TrimSpace s) \<noteq> c" using \<open>?u \<noteq> []\<close> by (simp add: TrimSpace_def last_rev)
qed

lemma rune_prefix_before_SP:
  assumes "rune_prefix space_runes w = 0" and "w \<noteq> []"
  shows "rune_prefix space_runes (w @ SP # r) = 0"
proof (rule ccontr)
  assume "rune_prefix space_runes (w @ SP # r) \<noteq> 0"
  then obtain q where q: "q \<in> set space_runes" "q \<noteq> []" "take (length q) (w @ SP # r) = q"
    by (auto simp: rune_prefix_0_iff)
  show False
  proof (cases "length q \<le> length w")
    case True
    with q(3) have "take (length q) w = q" by simp
    with q assms(1) show False by (auto simp: rune_prefix_0_iff)
  next
    case False
    then obtain k where k: "length q - length w = Suc k" by (metis Suc_diff_Suc not_le)
    with q(3) have "q = w @ SP # take k r"
      using False by (metis less_imp_le_nat not_le take_Suc_Cons take_all take_append)
    then have "SP \<in> set q" "length q > 1"
      using assms(2) by (metis in_set_conv_decomp, simp)
    with space_runes_SP [OF q(1)] show False by simp
  qed
qed

lemma take_word_before_SP: "take_word w = w \<Longrightarrow> take_word (w @ SP # r) = w"
proof (induction w)
  case Nil
  then show ?case by simp
next
  case (Cons x w)
  then have "rune_prefix space_runes (x # w) = 0" and "take_word w = w"
    by (auto split: if_splits)
  with Cons.IH rune_prefix_before_SP [of "x # w" r] show ?case by simp
qed

lemma word_prefix_0: "take_word w = w \<Longrightarrow> rune_prefix space_runes w = 0"
  by (cases w) (auto split: if_splits)

lemma fields_SP [wire_simps]: "Fields (SP # s) = Fields s"
  by (simp add: Fields.simps [of "SP # s"] Fields.simps [of s] strip_SP)

lemma fields_Nil [wire_simps]: "Fields [] = []"
  by (simp add: Fields.simps [of "[]"] strip_runes_stop)

lemma fields_word [wire_simps]:
  assumes "take_word w = w" and "w \<noteq> []"
  shows "Fields w = [w]" and "Fields (w @ SP # r) = w # Fields r"
proof -
  have "strip_runes space_runes w = w" using assms by (simp add: word_prefix_0 strip_runes_stop)
  then show "Fields w = [w]"
    using assms fields_Nil by (simp add: Fields.simps [of w])
  have "strip_runes space_runes (w @ SP # r) = w @ SP # r"
    using assms by (simp add: word_prefix_0 rune_prefix_before_SP strip_runes_stop)
  then show "Fields (w @ SP # r) = w # Fields r"
    using assms fields_SP by (simp add: Fields.simps [of "w @ SP # r"] take_word_before_SP)
qed

text \<open>Cutting a line's terminator off, when the line itself neither starts nor ends with it.\<close>

lemma trim_set_line [wire_simps]:
  assumes "s \<noteq> [] \<Longrightarrow> hd s \<notin> cs \<and> last s \<notin> cs" and "set e \<subseteq> cs"
  shows "trim_set cs (s @ e) = s"
proof (cases "s = []")
  case True
  have d: "dropWhile (\<lambda>c. c \<in> cs) e = []" using assms(2) by (auto simp: dropWhile_eq_Nil_conv)
  show ?thesis unfolding trim_set_def True append_Nil d by simp
next
  case False
  then have "dropWhile (\<lambda>c. c \<in> cs) (s @ e) = s @ e"
    using assms(1) by (cases s) auto
  moreover have "dropWhile (\<lambda>c. c \<in> cs) (rev e @ rev s) = rev s"
  proof -
    have "dropWhile (\<lambda>c. c \<in> cs) (rev e @ rev s) = dropWhile (\<lambda>c. c \<in> cs) (rev s)"
      using assms(2) by (intro dropWhile_append2) auto
    also have "\<dots> = rev s"
      using False assms(1) by (cases s rule: rev_cases) auto
    finally show ?thesis .
  qed
  ultimately show ?thesis by (simp add: trim_set_def)
qed

lemma digit_chars: "is_digit c \<Longrightarrow> c \<notin> {SP, CR, LF, CHR '':'', CHR ''='', CHR '';'', CHR ''/''}"
  by (auto simp: is_digit_def decimal_digits_def)

lemma Itoa_chars: "c \<in> set (Itoa n) \<Longrightarrow> is_digit c \<or> c = CHR ''-''"
  using show_dec_digits by (auto simp: Itoa_def split: if_splits)

lemma Itoa_nonempty [simp]: "Itoa n \<noteq> []"
  by (simp add: Itoa_def)

text \<open>A string without the bytes of white space has none to trim.\<close>

lemma no_space_runes:
  assumes "set s \<inter> set (concat space_runes) = {}"
  shows "rune_prefix space_runes s = 0" and "rune_prefix (map rev space_runes) s = 0"
proof -
  have no: "take (length r) s \<noteq> r" if "r \<noteq> []" "set r \<subseteq> set (concat space_runes)" for r
  proof
    assume "take (length r) s = r"
    then have "set r \<subseteq> set s" by (metis set_take_subset)
    with that assms show False by (metis Int_iff empty_iff last_in_set subsetD)
  qed
  then show "rune_prefix space_runes s = 0" unfolding rune_prefix_0_iff by fastforce
  show "rune_prefix (map rev space_runes) s = 0"
    unfolding rune_prefix_0_iff
  proof (intro ballI impI)
    fix r assume "r \<in> set (map rev space_runes)" and "r \<noteq> []"
    then show "take (length r) s \<noteq> r" by (intro no) fastforce+
  qed
qed

lemma TrimSpace_id:
  assumes "set s \<inter> set (concat space_runes) = {}"
  shows "TrimSpace s = s"
  using no_space_runes(1) [OF assms] no_space_runes(2) [of "rev s"] assms by (simp add: TrimSpace_def strip_runes_stop)

lemma space_runes_no_digit:
  assumes "\<And>c. c \<in> set s \<Longrightarrow> is_digit c \<or> c = CHR ''-'' \<or> c = CHR ''.''"
  shows "set s \<inter> set (concat space_runes) = {}"
  using assms by (force simp: space_runes_def is_digit_def decimal_digits_def)

lemma TrimSpace_Itoa [wire_simps]: "TrimSpace (Itoa n) = Itoa n"
  using Itoa_chars by (intro TrimSpace_id space_runes_no_digit) blast

lemma take_word_Itoa [wire_simps]: "take_word (Itoa n) = Itoa n"
proof -
  have "(\<And>c. c \<in> set s \<Longrightarrow> is_digit c \<or> c = CHR ''-'') \<Longrightarrow> take_word s = s" for s
  proof (induction s)
    case (Cons x s)
    then have "rune_prefix space_runes (x # s) = 0" by (intro no_space_runes space_runes_no_digit) auto
    with Cons show ?case by simp
  qed simp
  then show ?thesis using Itoa_chars by blast
qed

section \<open>Lines\<close>

text \<open>The first line of a string, its newline included, and what follows it.\<close>

fun cut_line :: "string \<Rightarrow> (string \<times> string) option" where
  "cut_line [] = None"
| "cut_line (c # cs) =
     (if c = LF then Some ([LF], cs) else map_option (apfst (\<lambda>l. c # l)) (cut_line cs))"

lemma cut_line_append [wire_simps]: "LF \<notin> set l \<Longrightarrow> cut_line (l @ LF # p) = Some (l @ [LF], p)"
  by (induction l) auto

lemma cut_line_skip:
  "cut_line s = None \<Longrightarrow> cut_line (s @ p) = map_option (apfst (\<lambda>l. s @ l)) (cut_line p)"
proof (induction s)
  case Nil
  then show ?case by (cases "cut_line p") auto
next
  case (Cons x s)
  then show ?case by (cases "cut_line p") (auto split: if_splits)
qed

lemma cut_line_Some_append: "cut_line s = Some (l, q) \<Longrightarrow> cut_line (s @ p) = Some (l, q @ p)"
  by (induction s arbitrary: l q) (auto split: if_splits)

lemma cut_line_parts: "cut_line p = Some (l, q) \<Longrightarrow> p = l @ q \<and> length q < length p"
  by (induction p arbitrary: l q) (auto split: if_splits)

end
