(* ===== verification/Sdp.thy ===== *)
theory Sdp
  imports Go_Strings
begin

text \<open>
  Session descriptions: \<^verbatim>\<open>sdp/sdp.go\<close> and \<^verbatim>\<open>sdp/parser.go\<close>.

  \<open>Parse\<close> reads the lines of the payload with \<^verbatim>\<open>bufio.Scanner\<close> (\<open>scan_lines\<close>), which drops
  the line ends and stops at a line that does not fit its 64 KiB buffer. The parser indexes the
  parts of a line without checking how many there are; each such index is a \<open>Panic\<close> when the
  part is missing. \<open>Write\<close> takes the order in which the attribute map is visited.
\<close>

section \<open>The payload\<close>

record origin =
  or_Username :: string
  or_SessionID :: string
  or_SessionVersion :: string
  or_NetType :: string
  or_AddrType :: string
  or_UnicastAddress :: string

record connect_data =
  cd_NetType :: string
  cd_AddrType :: string
  cd_ConnectionAddress :: string

record timing =
  ti_StartTime :: int
  ti_StopTime :: int

record media_description =
  md_Media :: string
  md_Port :: string
  md_Proto :: string
  md_Fmt :: string

record session_description =
  sd_Version :: int
  sd_Origin :: origin
  sd_SessionName :: string
  sd_Information :: string
  sd_ConnectData :: connect_data
  sd_Timing :: timing
  sd_MediaDescription :: "media_description list"
  sd_Attributes :: "string \<rightharpoonup> string"

definition NewSessionDescription :: session_description where
  "NewSessionDescription =
     \<lparr>sd_Version = 0,
      sd_Origin = \<lparr>or_Username = [], or_SessionID = [], or_SessionVersion = [], or_NetType = [],
        or_AddrType = [], or_UnicastAddress = []\<rparr>,
      sd_SessionName = [], sd_Information = [],
      sd_ConnectData = \<lparr>cd_NetType = [], cd_AddrType = [], cd_ConnectionAddress = []\<rparr>,
      sd_Timing = \<lparr>ti_StartTime = 0, ti_StopTime = 0\<rparr>,
      sd_MediaDescription = [], sd_Attributes = Map.empty\<rparr>"

section \<open>Reading lines\<close>

text \<open>\<^verbatim>\<open>bufio.ScanLines\<close> drops one carriage return at the end of a line.\<close>

definition drop_cr :: "string \<Rightarrow> string" where
  "drop_cr l = (if l \<noteq> [] \<and> last l = CR then butlast l else l)"

definition max_token :: nat where
  "max_token = 65536"

text \<open>
  The lines the scanner delivers. A line with its newline has to fit the buffer; an
  unterminated last line has to leave room in it. \<open>Parse\<close> does not ask why the scanner stopped.
\<close>

function scan_lines :: "string \<Rightarrow> string list" where
  "scan_lines p =
     (case cut_line p of
        Some (l, q) \<Rightarrow>
          if length l \<le> max_token then drop_cr (butlast l) # scan_lines q else []
      | None \<Rightarrow> if p = [] \<or> max_token \<le> length p then [] else [drop_cr p])"
  by pat_completeness auto
termination scan_lines
  by (relation "measure length") (auto dest: cut_line_parts)

declare scan_lines.simps [simp del]

section \<open>Parse\<close>

text \<open>\<open>parts[i]\<close>: out of range panics.\<close>

definition index :: "'a list \<Rightarrow> nat \<Rightarrow> 'a res" where
  "index xs i = (if i < length xs then Ret (xs ! i) else Panic ''runtime error: index out of range'')"

text \<open>\<^verbatim>\<open>strconv.Atoi\<close> with its error returned; the text is that of the underlying cause.\<close>

definition atoi :: "string \<Rightarrow> int res" where
  "atoi s =
     (case Atoi s of
        (n, None) \<Rightarrow> Ret n
      | (n, Some ErrSyntax) \<Rightarrow> Err ''invalid syntax''
      | (n, Some ErrRange) \<Rightarrow> Err ''value out of range'')"

definition parse_origin :: "string \<Rightarrow> origin res" where
  "parse_origin v =
     (let parts = Fields v in
      res_bind (index parts 0) (\<lambda>user.
      res_bind (index parts 1) (\<lambda>sid.
      res_bind (index parts 2) (\<lambda>ver.
      res_bind (index parts 3) (\<lambda>net.
      res_bind (index parts 4) (\<lambda>addr.
      res_bind (index parts 5) (\<lambda>uni.
      Ret \<lparr>or_Username = user, or_SessionID = sid, or_SessionVersion = ver, or_NetType = net,
           or_AddrType = addr, or_UnicastAddress = uni\<rparr>)))))))"

definition parse_connect :: "string \<Rightarrow> connect_data res" where
  "parse_connect v =
     (let parts = Fields v in
      res_bind (index parts 0) (\<lambda>net.
      res_bind (index parts 1) (\<lambda>addr.
      res_bind (index parts 2) (\<lambda>conn.
      Ret \<lparr>cd_NetType = net, cd_AddrType = addr, cd_ConnectionAddress = conn\<rparr>))))"

definition parse_timing :: "string \<Rightarrow> timing res" where
  "parse_timing v =
     (let parts = Fields v in
      res_bind (index parts 0) (\<lambda>a. res_bind (atoi a) (\<lambda>start.
      res_bind (index parts 1) (\<lambda>b. res_bind (atoi b) (\<lambda>stop.
      Ret \<lparr>ti_StartTime = start, ti_StopTime = stop\<rparr>)))))"

definition parse_media :: "string \<Rightarrow> media_description res" where
  "parse_media v =
     (let parts = Fields v in
      res_bind (index parts 0) (\<lambda>media.
      res_bind (index parts 1) (\<lambda>port.
      res_bind (index parts 2) (\<lambda>proto.
      res_bind (index parts 3) (\<lambda>fmt.
      Ret \<lparr>md_Media = media, md_Port = port, md_Proto = proto, md_Fmt = fmt\<rparr>)))))"

text \<open>The body of the scan loop: one line, by its type letter; other types are skipped.\<close>

definition parse_line :: "session_description \<Rightarrow> string \<Rightarrow> session_description res" where
  "parse_line sdp text =
     (let parts = splitn2 (CHR ''='') text in
      res_bind (index parts 0) (\<lambda>typePart.
      res_bind (index parts 1) (\<lambda>valuePart.
        if typePart = ''v'' then
          res_bind (atoi valuePart) (\<lambda>version. Ret (sdp\<lparr>sd_Version := version\<rparr>))
        else if typePart = ''o'' then
          res_bind (parse_origin valuePart) (\<lambda>origin. Ret (sdp\<lparr>sd_Origin := origin\<rparr>))
        else if typePart = ''s'' then Ret (sdp\<lparr>sd_SessionName := valuePart\<rparr>)
        else if typePart = ''c'' then
          res_bind (parse_connect valuePart) (\<lambda>connect. Ret (sdp\<lparr>sd_ConnectData := connect\<rparr>))
        else if typePart = ''t'' then
          res_bind (parse_timing valuePart) (\<lambda>timing. Ret (sdp\<lparr>sd_Timing := timing\<rparr>))
        else if typePart = ''m'' then
          res_bind (parse_media valuePart) (\<lambda>media.
            Ret (sdp\<lparr>sd_MediaDescription := sd_MediaDescription sdp @ [media]\<rparr>))
        else if typePart = ''a'' then
          (let attributeParts = split_on (CHR '':'') valuePart in
           res_bind (index attributeParts 0) (\<lambda>k.
           res_bind (index attributeParts 1) (\<lambda>v.
             Ret (sdp\<lparr>sd_Attributes := (sd_Attributes sdp)(k \<mapsto> v)\<rparr>))))
        else if typePart = ''i'' then Ret (sdp\<lparr>sd_Information := valuePart\<rparr>)
        else Ret sdp)))"

primrec parse_lines :: "string list \<Rightarrow> session_description \<Rightarrow> session_description res" where
  "parse_lines [] sdp = Ret sdp"
| "parse_lines (l # ls) sdp = res_bind (parse_line sdp l) (parse_lines ls)"

definition Parse :: "string \<Rightarrow> session_description res" where
  "Parse payload = parse_lines (scan_lines payload) NewSessionDescription"

section \<open>Write\<close>

definition origin_line :: "origin \<Rightarrow> string" where
  "origin_line o' =
     ''o='' @ or_Username o' @ '' '' @ or_SessionID o' @ '' '' @ or_SessionVersion o' @ '' '' @
     or_NetType o' @ '' '' @ or_AddrType o' @ '' '' @ or_UnicastAddress o'"

definition connect_line :: "connect_data \<Rightarrow> string" where
  "connect_line c = ''c='' @ cd_NetType c @ '' '' @ cd_AddrType c @ '' '' @ cd_ConnectionAddress c"

definition media_line :: "media_description \<Rightarrow> string" where
  "media_line m = ''m='' @ md_Media m @ '' '' @ md_Port m @ '' '' @ md_Proto m @ '' '' @ md_Fmt m"

definition attribute_line :: "(string \<rightharpoonup> string) \<Rightarrow> string \<Rightarrow> string" where
  "attribute_line attrs k = ''a='' @ k @ '':'' @ the (attrs k)"

text \<open>The lines \<^verbatim>\<open>Write\<close> puts in its buffer, in order; \<open>ks\<close> is the order of the attributes.\<close>

definition write_lines :: "string list \<Rightarrow> session_description \<Rightarrow> string list" where
  "write_lines ks session =
     [''v='' @ Itoa (sd_Version session), origin_line (sd_Origin session),
      ''s='' @ sd_SessionName session, connect_line (sd_ConnectData session),
      ''t='' @ Itoa (ti_StartTime (sd_Timing session)) @ '' '' @
        Itoa (ti_StopTime (sd_Timing session))] @
     map media_line (sd_MediaDescription session) @
     map (attribute_line (sd_Attributes session)) ks @
     [''i='' @ sd_Information session]"

definition Write :: "string list \<Rightarrow> session_description \<Rightarrow> string" where
  "Write ks session = concat (map (\<lambda>l. l @ crlf) (write_lines ks session))"

section \<open>What a written payload parses to\<close>

definition is_word :: "string \<Rightarrow> bool" where
  "is_word w \<longleftrightarrow> w \<noteq> [] \<and> take_word w = w"

text \<open>
  The descriptions that survive the wire: numbers of 64 bits, fields that are single words,
  attribute names and values without a colon, no newline anywhere, and lines that fit the
  scanner.
\<close>

definition wire_origin :: "origin \<Rightarrow> bool" where
  "wire_origin o' \<longleftrightarrow> list_all is_word
     [or_Username o', or_SessionID o', or_SessionVersion o', or_NetType o', or_AddrType o',
      or_UnicastAddress o']"

definition wire_connect :: "connect_data \<Rightarrow> bool" where
  "wire_connect c \<longleftrightarrow> list_all is_word [cd_NetType c, cd_AddrType c, cd_ConnectionAddress c]"

definition wire_media :: "media_description \<Rightarrow> bool" where
  "wire_media m \<longleftrightarrow> list_all is_word [md_Media m, md_Port m, md_Proto m, md_Fmt m]"

definition wire_attribute :: "string \<Rightarrow> string \<Rightarrow> bool" where
  "wire_attribute k v \<longleftrightarrow> {CHR '':'', LF} \<inter> set k = {} \<and> {CHR '':'', LF} \<inter> set v = {}"

definition wire_session :: "string list \<Rightarrow> session_description \<Rightarrow> bool" where
  "wire_session ks sd \<longleftrightarrow>
     int64_range (sd_Version sd) \<and> wire_origin (sd_Origin sd) \<and> LF \<notin> set (sd_SessionName sd)
     \<and> wire_connect (sd_ConnectData sd) \<and> int64_range (ti_StartTime (sd_Timing sd))
     \<and> int64_range (ti_StopTime (sd_Timing sd)) \<and> list_all wire_media (sd_MediaDescription sd)
     \<and> list_all (\<lambda>k. wire_attribute k (the (sd_Attributes sd k))) ks
     \<and> LF \<notin> set (sd_Information sd)
     \<and> list_all (\<lambda>l. length l + 2 \<le> max_token) (write_lines ks sd)"

lemma is_word_no_LF: "is_word w \<Longrightarrow> LF \<notin> set w"
proof -
  have "take_word w = w \<Longrightarrow> LF \<notin> set w" for w
  proof (induction w)
    case (Cons x w)
    then have "rune_prefix space_runes (x # w) = 0" "take_word w = w" by (auto split: if_splits)
    moreover from this have "x \<noteq> LF"
      using rune_prefix_hd [of space_runes "x # w" LF] ascii_space_runes by auto
    ultimately show ?case using Cons.IH by auto
  qed simp
  then show "is_word w \<Longrightarrow> LF \<notin> set w" by (simp add: is_word_def)
qed

lemma fields_words:
  "list_all is_word ws \<Longrightarrow> Fields (join [SP] ws) = ws"
proof (induction "[SP]" ws rule: join.induct)
  case (3 w v ws)
  then show ?case by (simp add: fields_word is_word_def)
qed (simp_all add: fields_Nil fields_word is_word_def)

lemma scan_lines_crlf:
  assumes "LF \<notin> set l" and "length l + 2 \<le> max_token"
  shows "scan_lines (l @ crlf @ p) = l # scan_lines p"
proof -
  have "cut_line ((l @ [CR]) @ LF # p) = Some ((l @ [CR]) @ [LF], p)"
    using assms(1) by (intro cut_line_append) simp
  then show ?thesis
    using assms(2) by (simp add: scan_lines.simps [of "l @ CR # LF # p"] crlf_def drop_cr_def butlast_append)
qed

lemma scan_lines_written:
  assumes "list_all (\<lambda>l. LF \<notin> set l \<and> length l + 2 \<le> max_token) ls"
  shows "scan_lines (concat (map (\<lambda>l. l @ crlf) ls)) = ls"
  using assms
proof (induction ls)
  case Nil
  then show ?case by (simp add: scan_lines.simps)
next
  case (Cons l ls)
  then show ?case by (simp add: scan_lines_crlf)
qed

lemma atoi_Itoa: "int64_range n \<Longrightarrow> atoi (Itoa n) = Ret n"
  by (simp add: atoi_def Atoi_Itoa)

text \<open>One written line, read back.\<close>

lemma parse_line_split:
  "CHR ''='' \<notin> set t \<Longrightarrow> splitn2 (CHR ''='') (t @ CHR ''='' # v) = [t, v]"
  by (rule splitn2_append)

lemma parse_line_eqs:
  "parse_line sd (CHR ''v'' # CHR ''='' # v) = res_bind (atoi v) (\<lambda>n. Ret (sd\<lparr>sd_Version := n\<rparr>))"
  "parse_line sd (CHR ''o'' # CHR ''='' # v) =
     res_bind (parse_origin v) (\<lambda>o'. Ret (sd\<lparr>sd_Origin := o'\<rparr>))"
  "parse_line sd (CHR ''s'' # CHR ''='' # v) = Ret (sd\<lparr>sd_SessionName := v\<rparr>)"
  "parse_line sd (CHR ''c'' # CHR ''='' # v) =
     res_bind (parse_connect v) (\<lambda>c. Ret (sd\<lparr>sd_ConnectData := c\<rparr>))"
  "parse_line sd (CHR ''t'' # CHR ''='' # v) =
     res_bind (parse_timing v) (\<lambda>t. Ret (sd\<lparr>sd_Timing := t\<rparr>))"
  "parse_line sd (CHR ''m'' # CHR ''='' # v) =
     res_bind (parse_media v) (\<lambda>m. Ret (sd\<lparr>sd_MediaDescription := sd_MediaDescription sd @ [m]\<rparr>))"
  "parse_line sd (CHR ''i'' # CHR ''='' # v) = Ret (sd\<lparr>sd_Information := v\<rparr>)"
  using parse_line_split [of "[_]" v] by (simp_all add: parse_line_def index_def)

lemma parse_attribute:
  assumes "wire_attribute k (the (attrs k))"
  shows "parse_line sd (attribute_line attrs k) =
    Ret (sd\<lparr>sd_Attributes := (sd_Attributes sd)(k \<mapsto> the (attrs k))\<rparr>)"
proof -
  have "splitn2 (CHR ''='') (attribute_line attrs k) = [''a'', k @ '':'' @ the (attrs k)]"
    using parse_line_split [of "''a''"] by (simp add: attribute_line_def)
  moreover have "split_on (CHR '':'') (k @ '':'' @ the (attrs k)) = [k, the (attrs k)]"
    using assms by (simp add: wire_attribute_def split_on_append split_on_no_sep)
  ultimately show ?thesis by (simp add: parse_line_def index_def)
qed

lemma parse_origin_line:
  assumes "wire_origin o'"
  shows "parse_line sd (origin_line o') = Ret (sd\<lparr>sd_Origin := o'\<rparr>)"
proof -
  let ?ws = "[or_Username o', or_SessionID o', or_SessionVersion o', or_NetType o', or_AddrType o',
      or_UnicastAddress o']"
  have "Fields (join [SP] ?ws) = ?ws" using assms unfolding wire_origin_def by (rule fields_words)
  then have "parse_origin (join [SP] ?ws) = Ret o'" by (simp add: parse_origin_def index_def)
  then show ?thesis by (simp add: origin_line_def parse_line_eqs)
qed

lemma parse_connect_line:
  assumes "wire_connect c"
  shows "parse_line sd (connect_line c) = Ret (sd\<lparr>sd_ConnectData := c\<rparr>)"
proof -
  let ?ws = "[cd_NetType c, cd_AddrType c, cd_ConnectionAddress c]"
  have "Fields (join [SP] ?ws) = ?ws" using assms unfolding wire_connect_def by (rule fields_words)
  then have "parse_connect (join [SP] ?ws) = Ret c" by (simp add: parse_connect_def index_def)
  then show ?thesis by (simp add: connect_line_def parse_line_eqs)
qed

lemma parse_media_line:
  assumes "wire_media m"
  shows "parse_line sd (media_line m) =
    Ret (sd\<lparr>sd_MediaDescription := sd_MediaDescription sd @ [m]\<rparr>)"
proof -
  let ?ws = "[md_Media m, md_Port m, md_Proto m, md_Fmt m]"
  have "Fields (join [SP] ?ws) = ?ws" using assms unfolding wire_media_def by (rule fields_words)
  then have "parse_media (join [SP] ?ws) = Ret m" by (simp add: parse_media_def index_def)
  then show ?thesis by (simp add: media_line_def parse_line_eqs)
qed

lemma parse_timing_line:
  assumes "int64_range a" and "int64_range b"
  shows "parse_timing (Itoa a @ SP # Itoa b) = Ret \<lparr>ti_StartTime = a, ti_StopTime = b\<rparr>"
proof -
  have "Fields (join [SP] [Itoa a, Itoa b]) = [Itoa a, Itoa b]"
    by (rule fields_words) (simp add: is_word_def take_word_Itoa)
  then show ?thesis using assms by (simp add: parse_timing_def index_def atoi_Itoa)
qed

lemma parse_lines_append:
  "parse_lines (ls @ ms) sd = res_bind (parse_lines ls sd) (parse_lines ms)"
proof (induction ls arbitrary: sd)
  case (Cons l ls)
  then show ?case by (cases "parse_line sd l") simp_all
qed simp

lemma parse_lines_media:
  "list_all wire_media ms \<Longrightarrow> parse_lines (map media_line ms) sd =
     Ret (sd\<lparr>sd_MediaDescription := sd_MediaDescription sd @ ms\<rparr>)"
  by (induction ms arbitrary: sd) (simp_all add: parse_media_line)

lemma parse_lines_attributes:
  "list_all (\<lambda>k. wire_attribute k (the (attrs k))) ks \<Longrightarrow>
   parse_lines (map (attribute_line attrs) ks) sd =
     Ret (sd\<lparr>sd_Attributes := copy_keys attrs ks (sd_Attributes sd)\<rparr>)"
  by (induction ks arbitrary: sd) (simp_all add: parse_attribute)

lemma write_lines_one_line:
  assumes "wire_session ks sd"
  shows "list_all (\<lambda>l. LF \<notin> set l \<and> length l + 2 \<le> max_token) (write_lines ks sd)"
proof -
  have "LF \<notin> set (Itoa n)" for n using Itoa_chars digit_chars by fastforce
  moreover have "LF \<notin> set (origin_line o')" if "wire_origin o'" for o'
    using that by (auto simp: wire_origin_def origin_line_def dest: is_word_no_LF)
  moreover have "LF \<notin> set (connect_line c)" if "wire_connect c" for c
    using that by (auto simp: wire_connect_def connect_line_def dest: is_word_no_LF)
  moreover have "LF \<notin> set (media_line m)" if "wire_media m" for m
    using that by (auto simp: wire_media_def media_line_def dest: is_word_no_LF)
  moreover have "LF \<notin> set (attribute_line f k)" if "wire_attribute k (the (f k))" for f k
    using that by (auto simp: wire_attribute_def attribute_line_def)
  ultimately have "list_all (\<lambda>l. LF \<notin> set l) (write_lines ks sd)"
    using assms unfolding wire_session_def by (auto simp: write_lines_def list_all_iff)
  with assms show ?thesis by (simp add: wire_session_def list_all_iff)
qed

lemma Parse_Write:
  assumes "range_order ks (sd_Attributes sd)" and "wire_session ks sd"
  shows "Parse (Write ks sd) = Ret sd"
proof -
  have w: "wire_origin (sd_Origin sd)" "wire_connect (sd_ConnectData sd)"
    "int64_range (sd_Version sd)" "int64_range (ti_StartTime (sd_Timing sd))"
    "int64_range (ti_StopTime (sd_Timing sd))" "list_all wire_media (sd_MediaDescription sd)"
    "list_all (\<lambda>k. wire_attribute k (the (sd_Attributes sd k))) ks"
    using assms(2) by (simp_all add: wire_session_def)
  have "scan_lines (Write ks sd) = write_lines ks sd"
    unfolding Write_def using write_lines_one_line [OF assms(2)] by (rule scan_lines_written)
  then show ?thesis
    using w copy_keys_range_order [OF assms(1)]
    by (simp add: Parse_def write_lines_def parse_line_eqs atoi_Itoa parse_origin_line
        parse_connect_line parse_timing_line parse_lines_append parse_lines_media
        parse_lines_attributes NewSessionDescription_def)
qed

text \<open>A description like the one the AirPlay client announces, for the witness.\<close>

definition sample_session :: session_description where
  "sample_session =
     \<lparr>sd_Version = 0,
      sd_Origin = \<lparr>or_Username = ''bcp'', or_SessionID = ''77'', or_SessionVersion = ''0'',
        or_NetType = ''IN'', or_AddrType = ''IP4'', or_UnicastAddress = ''10.0.0.7''\<rparr>,
      sd_SessionName = ''iTunes'', sd_Information = [],
      sd_ConnectData = \<lparr>cd_NetType = ''IN'', cd_AddrType = ''IP4'',
        cd_ConnectionAddress = ''10.0.0.7''\<rparr>,
      sd_Timing = \<lparr>ti_StartTime = 0, ti_StopTime = 0\<rparr>,
      sd_MediaDescription = [\<lparr>md_Media = ''audio'', md_Port = ''0'', md_Proto = ''RTP/AVP'',
        md_Fmt = ''96''\<rparr>],
      sd_Attributes = [''rtpmap'' \<mapsto> ''96 AppleLossless'']\<rparr>"

lemma sample_session_wire:
  "range_order [''rtpmap''] (sd_Attributes sample_session)" "wire_session [''rtpmap''] sample_session"
proof -
  show "range_order [''rtpmap''] (sd_Attributes sample_session)"
    by (simp add: range_order_def sample_session_def)
  have "list_all is_word [''bcp'', ''77'', ''0'', ''IN'', ''IP4'', ''10.0.0.7'', ''audio'',
      ''RTP/AVP'', ''96'']" by code_simp
  moreover have "Itoa 0 = ''0''" by code_simp
  ultimately show "wire_session [''rtpmap''] sample_session"
    by (simp add: wire_session_def sample_session_def wire_origin_def wire_connect_def
        wire_media_def wire_attribute_def write_lines_def origin_line_def connect_line_def
        media_line_def attribute_line_def int64_range_def max_token_def)
qed

section \<open>Properties\<close>

text \<open>
  C30. What \<^verbatim>\<open>Write\<close> produces for a session description, its attributes in any order, \<^verbatim>\<open>Parse\<close>
  reads back as the same description: every field, every media description in order and the
  whole attribute map. The fields must be single words, the names and values of the attributes
  must hold no colon, and no line may exceed the scanner's 64 KiB.
\<close>

theorem sdp_roundtrip:
  assumes "range_order ks (sd_Attributes sd)" and "wire_session ks sd"
  shows "Parse (Write ks sd) = Ret sd"
  using assms by (rule Parse_Write)

theorem sdp_roundtrip_witness: "Parse (Write [''rtpmap''] sample_session) = Ret sample_session"
  by (rule sdp_roundtrip [OF sample_session_wire])

text \<open>
  A payload line without an equals sign (an empty line too) makes \<^verbatim>\<open>Parse\<close> panic instead
  of returning an error, whatever well-formed lines come before it and whatever comes after;
  so does an attribute without a value, such as the \<^verbatim>\<open>a=recvonly\<close> of other senders. A number that
  does not parse is an error. (The hypothesis says that the lines before are parsed.)
\<close>

theorem sdp_line_failures:
  assumes "scan_lines payload = ls @ l # ms" and "parse_lines ls NewSessionDescription = Ret sd"
  shows "(CHR ''='' \<notin> set l \<longrightarrow> Parse payload = Panic ''runtime error: index out of range'')
    \<and> (\<forall>v. l = ''a='' @ v \<and> CHR '':'' \<notin> set v \<longrightarrow>
          Parse payload = Panic ''runtime error: index out of range'')
    \<and> (\<forall>v n. l = ''v='' @ v \<and> Atoi v = (n, Some ErrSyntax) \<longrightarrow> Parse payload = Err ''invalid syntax'')"
proof -
  have "Parse payload = res_bind (parse_line sd l) (parse_lines ms)"
    using assms by (simp add: Parse_def parse_lines_append)
  moreover have "parse_line sd l = Panic ''runtime error: index out of range''" if "CHR ''='' \<notin> set l"
    using that by (simp add: parse_line_def splitn2_no_sep index_def)
  moreover have "parse_line sd (''a='' @ v) = Panic ''runtime error: index out of range''"
    if "CHR '':'' \<notin> set v" for v
    using that parse_line_split [of "''a''" v] by (simp add: parse_line_def index_def split_on_no_sep)
  moreover have "parse_line sd (''v='' @ v) = Err ''invalid syntax''" if "Atoi v = (n, Some ErrSyntax)" for v n
    using that by (simp add: parse_line_eqs atoi_def)
  ultimately show ?thesis by auto
qed

theorem sdp_line_failures_witness:
  "Parse (''v=0'' @ crlf @ ''a=recvonly'' @ crlf) = Panic ''runtime error: index out of range''"
proof -
  have "scan_lines (''v=0'' @ crlf @ ''a=recvonly'' @ crlf) = [''v=0''] @ ''a=recvonly'' # []"
    using scan_lines_written [of "[''v=0'', ''a=recvonly'']"] by (simp add: max_token_def)
  moreover have "parse_lines [''v=0''] NewSessionDescription = Ret NewSessionDescription"
  proof -
    have "Atoi ''0'' = (0, None)" by code_simp
    then show ?thesis by (simp add: parse_line_eqs atoi_def NewSessionDescription_def)
  qed
  ultimately show ?thesis
    using sdp_line_failures [of _ "[''v=0'']" "''a=recvonly''" "[]"] by simp
qed

end
