(* ===== verification/Daap.thy ===== *)
theory Daap
  imports Go_Strings
begin

text \<open>
  Track metadata: \<^verbatim>\<open>raop/daap.go\<close>. A payload is eight bytes of header (ignored) followed by
  items, each a four-letter code, a 32-bit big-endian length and that many bytes. \<open>parseDaap\<close>
  indexes the payload without checking its length, so a payload that is cut short is a
  \<open>Panic\<close>. Bytes are characters; the dynamically typed values of the Go maps are \<open>daap_value\<close>.
\<close>

section \<open>Bytes and lengths\<close>

definition byte_char :: "8 word \<Rightarrow> char" where
  "byte_char b = char_of (unat b)"

definition char_byte :: "char \<Rightarrow> 8 word" where
  "char_byte c = word_of_nat (of_char c)"

definition PutUint32 :: "32 word \<Rightarrow> string" where
  "PutUint32 w = map byte_char [ucast (drop_bit 24 w), ucast (drop_bit 16 w), ucast (drop_bit 8 w), ucast w]"

definition Uint32 :: "string \<Rightarrow> 32 word" where
  "Uint32 s =
     (let b = (\<lambda>i. ucast (char_byte (s ! i)) :: 32 word) in
      or (b 3) (or (push_bit 8 (b 2)) (or (push_bit 16 (b 1)) (push_bit 24 (b 0)))))"

section \<open>Content types\<close>

record contentType =
  ct_code :: string
  ct_name :: string
  ct_cType :: string

definition no_type :: contentType where
  "no_type = \<lparr>ct_code = [], ct_name = [], ct_cType = []\<rparr>"

definition getContentType :: "string \<Rightarrow> contentType" where
  "getContentType code =
     (if code = ''mikd'' then \<lparr>ct_code = ''mikd'', ct_name = ''dmap.itemkind'', ct_cType = ''byte''\<rparr>
      else if code = ''asal'' then \<lparr>ct_code = ''asal'', ct_name = ''daap.songalbum'', ct_cType = ''string''\<rparr>
      else if code = ''asar'' then \<lparr>ct_code = ''asar'', ct_name = ''daap.songartist'', ct_cType = ''string''\<rparr>
      else if code = ''minm'' then \<lparr>ct_code = ''minm'', ct_name = ''dmap.itemname'', ct_cType = ''string''\<rparr>
      else no_type)"

definition getContentTypeForName :: "string \<Rightarrow> contentType" where
  "getContentTypeForName name =
     (if name = ''dmap.itemkind'' then \<lparr>ct_code = ''mikd'', ct_name = ''dmap.itemkind'', ct_cType = ''byte''\<rparr>
      else if name = ''daap.songalbum'' then \<lparr>ct_code = ''asal'', ct_name = ''daap.songalbum'', ct_cType = ''string''\<rparr>
      else if name = ''daap.songartist'' then \<lparr>ct_code = ''asar'', ct_name = ''daap.songartist'', ct_cType = ''string''\<rparr>
      else if name = ''dmap.itemname'' then \<lparr>ct_code = ''minm'', ct_name = ''dmap.itemname'', ct_cType = ''string''\<rparr>
      else no_type)"

section \<open>Parsing\<close>

datatype daap_value = DByte "8 word" | DString string

type_synonym daap_map = "string \<rightharpoonup> daap_value"

definition store_item :: "contentType \<Rightarrow> string \<Rightarrow> daap_map \<Rightarrow> daap_map" where
  "store_item ct data m =
     (if ct_cType ct = ''byte'' then m(ct_name ct \<mapsto> DByte (char_byte (data ! 0)))
      else if ct_cType ct = ''string'' then m(ct_name ct \<mapsto> DString data)
      else m)"

text \<open>
  The loop of \<^verbatim>\<open>parseDaap\<close>; \<open>p\<close> is the part of the payload from \<^verbatim>\<open>i\<close> on. The body of a request
  has no spare capacity behind its length, so a slice that ends beyond the payload panics.
\<close>

function daap_items :: "string \<Rightarrow> daap_map \<Rightarrow> daap_map res" where
  "daap_items p parsedData =
     (if p = [] then Ret parsedData
      else if length p < 8 then Panic ''runtime error: slice bounds out of range''
      else
        let itemType = take 4 p; itemLength = unat (Uint32 (take 4 (drop 4 p))) in
        if itemLength \<noteq> 0 \<and> length p < 8 + itemLength then
          Panic ''runtime error: slice bounds out of range''
        else daap_items (drop (8 + itemLength) p)
          (if itemLength \<noteq> 0
           then store_item (getContentType itemType) (take itemLength (drop 8 p)) parsedData
           else parsedData))"
  by pat_completeness auto
termination daap_items
  by (relation "measure (\<lambda>(p, m). length p)") auto

declare daap_items.simps [simp del]

definition parseDaap :: "string \<Rightarrow> daap_map res" where
  "parseDaap daap = daap_items (drop 8 daap) Map.empty"

section \<open>Encoding\<close>

text \<open>\<^verbatim>\<open>fmt.Sprintf("%s", v)\<close>; a byte is not a string for it.\<close>

fun sprintf_s :: "daap_value \<Rightarrow> string" where
  "sprintf_s (DString s) = s"
| "sprintf_s (DByte b) = ''%!s(uint8='' @ Itoa (uint b) @ '')''"

text \<open>One step of the loop of \<^verbatim>\<open>EncodeDaap\<close>: the bytes appended for an entry.\<close>

definition encode_item :: "string \<Rightarrow> daap_value \<Rightarrow> string res" where
  "encode_item k v =
     (let ct = getContentTypeForName k in
      if ct_cType ct = ''byte'' then
        (case v of
           DByte b \<Rightarrow> Ret (ct_code ct @ PutUint32 1 @ [byte_char b])
         | DString s \<Rightarrow> Panic ''interface conversion: interface {} is string, not uint8'')
      else if ct_cType ct = ''string'' then
        (let data = sprintf_s v in
         Ret (ct_code ct @ PutUint32 (word_of_nat (length data)) @ data))
      else Ret (ct_code ct))"

primrec encode_items :: "daap_map \<Rightarrow> string list \<Rightarrow> string \<Rightarrow> string res" where
  "encode_items m [] buf = Ret buf"
| "encode_items m (k # ks) buf =
     res_bind (encode_item k (the (m k))) (\<lambda>b. encode_items m ks (buf @ b))"

definition EncodeDaap :: "string list \<Rightarrow> daap_map \<Rightarrow> string res" where
  "EncodeDaap ks dataToEncode = encode_items dataToEncode ks (replicate 8 (CHR 0x00))"

section \<open>Encoding and parsing\<close>

lemma char_byte_char [simp]: "char_byte (byte_char b) = b"
proof -
  have "unat b < 256" using unsigned_less [of b, where 'a = nat] by simp
  then show ?thesis by (simp add: char_byte_def byte_char_def)
qed

lemma bytes_of_word:
  fixes w :: "32 word"
  shows "or (ucast (ucast w :: 8 word)) (or (push_bit 8 (ucast (ucast (drop_bit 8 w) :: 8 word)))
    (or (push_bit 16 (ucast (ucast (drop_bit 16 w) :: 8 word)))
        (push_bit 24 (ucast (ucast (drop_bit 24 w) :: 8 word))))) = w"
proof (rule bit_word_eqI)
  fix n
  assume "n < LENGTH(32)"
  then consider "n < 8" | "8 \<le> n" "n < 16" | "16 \<le> n" "n < 24" | "24 \<le> n" "n < 32" by force
  then show "bit (or (ucast (ucast w :: 8 word) :: 32 word) (or (push_bit 8 (ucast (ucast (drop_bit 8 w) :: 8 word)))
      (or (push_bit 16 (ucast (ucast (drop_bit 16 w) :: 8 word)))
          (push_bit 24 (ucast (ucast (drop_bit 24 w) :: 8 word)))))) n = bit w n"
    by cases (auto simp: bit_or_iff bit_push_bit_iff bit_ucast_iff bit_drop_bit_eq)
qed

lemma Uint32_PutUint32 [simp]: "Uint32 (PutUint32 w) = w"
  using bytes_of_word [of w] by (simp add: Uint32_def PutUint32_def Let_def)

lemma length_PutUint32 [simp]: "length (PutUint32 w) = 4"
  by (simp add: PutUint32_def)

text \<open>One item in front of any other bytes.\<close>

lemma daap_items_item:
  assumes "length code = 4" and "length data < 2 ^ 32"
  shows "daap_items (code @ PutUint32 (word_of_nat (length data)) @ data @ p) m =
    daap_items p (if data \<noteq> [] then store_item (getContentType code) data m else m)"
proof -
  have "unat (word_of_nat (length data) :: 32 word) = length data"
    using assms(2) by (simp add: unat_of_nat)
  moreover have "code \<noteq> []" using assms(1) by auto
  ultimately show ?thesis
    using assms(1) by (subst daap_items.simps) (simp add: Let_def)
qed

definition known_name :: "string \<Rightarrow> bool" where
  "known_name k \<longleftrightarrow> k \<in> {''dmap.itemkind'', ''daap.songalbum'', ''daap.songartist'', ''dmap.itemname''}"

text \<open>The values whose dynamic type is that of their name; strings have a 32-bit length.\<close>

definition typed_item :: "string \<Rightarrow> daap_value \<Rightarrow> bool" where
  "typed_item k v \<longleftrightarrow>
     (if k = ''dmap.itemkind'' then (case v of DByte b \<Rightarrow> True | DString s \<Rightarrow> False)
      else known_name k \<longrightarrow> (case v of DByte b \<Rightarrow> False | DString s \<Rightarrow> length s < 2 ^ 32))"

definition kept :: "string \<Rightarrow> daap_value \<Rightarrow> bool" where
  "kept k v \<longleftrightarrow> known_name k \<and> v \<noteq> DString []"

lemma encode_item_parses:
  assumes "typed_item k v"
  obtains b where "encode_item k v = Ret b"
    and "\<And>p m. daap_items (b @ p) m = daap_items p (if kept k v then m(k \<mapsto> v) else m)"
proof (cases "known_name k")
  case False
  then have "encode_item k v = Ret []"
    by (auto simp: encode_item_def getContentTypeForName_def known_name_def no_type_def)
  with False show ?thesis using that by (simp add: kept_def)
next
  case True
  show ?thesis
  proof (cases v)
    case (DByte b)
    with True assms have "k = ''dmap.itemkind''" by (auto simp: typed_item_def split: if_splits)
    then show ?thesis
      using that [of "''mikd'' @ PutUint32 1 @ [byte_char b]"] DByte
        daap_items_item [of "''mikd''" "[byte_char b]"]
      by (simp add: encode_item_def getContentTypeForName_def getContentType_def store_item_def
          kept_def known_name_def)
  next
    case (DString d)
    with True assms have d: "length d < 2 ^ 32" "k \<noteq> ''dmap.itemkind''"
      by (auto simp: typed_item_def split: if_splits)
    define c where "c = ct_code (getContentTypeForName k)"
    have c: "length c = 4" "store_item (getContentType c) d m = m(k \<mapsto> v)"
      "encode_item k v = Ret (c @ PutUint32 (word_of_nat (length d)) @ d)" for m
      using True d(2) DString
      by (auto simp: known_name_def c_def getContentTypeForName_def getContentType_def
          store_item_def encode_item_def)
    show ?thesis
      using that [OF c(3)] daap_items_item [OF c(1) d(1)] c(2) DString True by (simp add: kept_def)
  qed
qed

text \<open>What survives a round trip: the known names with non-empty values.\<close>

definition kept_items :: "daap_map \<Rightarrow> daap_map" where
  "kept_items m k = (case m k of Some v \<Rightarrow> if kept k v then Some v else None | None \<Rightarrow> None)"

lemma encode_items_parses:
  assumes "list_all (\<lambda>k. typed_item k (the (m k))) ks"
  shows "\<exists>b. (\<forall>buf. encode_items m ks buf = Ret (buf @ b)) \<and>
    (\<forall>m'. daap_items b m' = Ret (copy_keys m (filter (\<lambda>k. kept k (the (m k))) ks) m'))"
  using assms
proof (induction ks)
  case Nil
  have "daap_items [] m' = Ret m'" for m' by (simp add: daap_items.simps)
  then show ?case by (intro exI [of _ "[]"]) simp
next
  case (Cons k ks)
  then obtain b where b: "\<And>buf. encode_items m ks buf = Ret (buf @ b)"
    "\<And>m'. daap_items b m' = Ret (copy_keys m (filter (\<lambda>k. kept k (the (m k))) ks) m')"
    by auto
  from Cons.prems obtain a where a: "encode_item k (the (m k)) = Ret a"
    "\<And>p m'. daap_items (a @ p) m' = daap_items p (if kept k (the (m k)) then m'(k \<mapsto> the (m k)) else m')"
    using encode_item_parses [of k "the (m k)"] by auto
  show ?case by (intro exI [of _ "a @ b"]) (simp add: a b)
qed

text \<open>
  The framing of a payload: a sequence of complete items.
\<close>

inductive framed :: "string \<Rightarrow> bool" where
  framed_end: "framed []"
| framed_item: "length code = 4 \<Longrightarrow> length data < 2 ^ 32 \<Longrightarrow> framed p \<Longrightarrow>
    framed (code @ PutUint32 (word_of_nat (length data)) @ data @ p)"

lemma byte_char_byte [simp]: "byte_char (char_byte c) = c"
proof -
  have "(of_char c :: nat) < 256" by simp
  then show ?thesis by (simp add: byte_char_def char_byte_def unat_of_nat)
qed

lemma word_of_bytes:
  fixes a b c d :: "8 word"
  defines "w \<equiv> or (ucast d) (or (push_bit 8 (ucast c)) (or (push_bit 16 (ucast b)) (push_bit 24 (ucast a)))) :: 32 word"
  shows "ucast (drop_bit 24 w) = a" "ucast (drop_bit 16 w) = b" "ucast (drop_bit 8 w) = c" "ucast w = d"
  unfolding w_def
  by (rule bit_word_eqI,
      auto simp: bit_or_iff bit_push_bit_iff bit_ucast_iff bit_drop_bit_eq bit_imp_le_length
        dest: bit_imp_le_length)+

lemma PutUint32_Uint32: "length s = 4 \<Longrightarrow> PutUint32 (Uint32 s) = s"
proof -
  assume "length s = 4"
  then obtain a b c d where "s = [a, b, c, d]"
    by (auto simp: numeral_eq_Suc length_Suc_conv)
  then show ?thesis
    using word_of_bytes [of "char_byte d" "char_byte c" "char_byte b" "char_byte a"]
    by (simp add: Uint32_def PutUint32_def Let_def)
qed

lemma framed_returns: "framed p \<Longrightarrow> is_ret (daap_items p m)"
proof (induction p arbitrary: m rule: framed.induct)
  case framed_end
  then show ?case by (simp add: daap_items.simps)
next
  case (framed_item code data p)
  then show ?case by (simp add: daap_items_item)
qed

lemma returns_framed: "daap_items p m = Ret m' \<Longrightarrow> framed p"
proof (induction p m rule: daap_items.induct)
  case (1 p m)
  show ?case
  proof (cases "p = []")
    case True
    then show ?thesis by (simp add: framed_end)
  next
    case False
    let ?w = "Uint32 (take 4 (drop 4 p))"
    let ?data = "take (unat ?w) (drop 8 p)"
    from False "1.prems" have len: "8 \<le> length p" "8 + unat ?w \<le> length p"
      by (auto simp: daap_items.simps [of p] Let_def split: if_splits)
    then have data: "length ?data = unat ?w" by simp
    with False "1" len have "framed (drop (8 + unat ?w) p)"
      by (auto simp: daap_items.simps [of p] Let_def split: if_splits)
    moreover have "unat ?w < 2 ^ 32" using unsigned_less [of ?w, where 'a = nat] by simp
    ultimately have "framed (take 4 p @ PutUint32 (word_of_nat (length ?data)) @ ?data @ drop (8 + unat ?w) p)"
      using len data by (intro framed_item) simp_all
    also have "take 4 p @ PutUint32 (word_of_nat (length ?data)) @ ?data @ drop (8 + unat ?w) p =
      take 4 p @ take 4 (drop 4 p) @ take (unat ?w) (drop 8 p) @ drop (unat ?w) (drop 8 p)"
      using len data by (simp add: PutUint32_Uint32 add.commute)
    also have "\<dots> = p"
    proof -
      have "take 4 (drop 4 p) @ drop 8 p = drop 4 p"
        using append_take_drop_id [of 4 "drop 4 p"] by simp
      then show ?thesis by (simp only: append_take_drop_id)
    qed
    finally show ?thesis .
  qed
qed

lemma EncodeDaap_parses:
  assumes "range_order ks m" and "\<forall>k v. m k = Some v \<longrightarrow> typed_item k v"
  shows "res_bind (EncodeDaap ks m) parseDaap = Ret (kept_items m)"
proof -
  have "list_all (\<lambda>k. typed_item k (the (m k))) ks"
    using assms by (auto simp: list_all_iff range_order_def)
  from encode_items_parses [OF this] obtain b where
    "EncodeDaap ks m = Ret (replicate 8 (CHR 0x00) @ b)"
    "daap_items b Map.empty = Ret (copy_keys m (filter (\<lambda>k. kept k (the (m k))) ks) Map.empty)"
    by (auto simp: EncodeDaap_def)
  moreover have "copy_keys m (filter (\<lambda>k. kept k (the (m k))) ks) Map.empty = kept_items m"
    using range_orderD [OF assms(1)]
    by (auto simp: fun_eq_iff copy_keys_apply kept_items_def dom_def split: option.splits)
  ultimately show ?thesis by (simp add: parseDaap_def)
qed

section \<open>Properties\<close>

text \<open>
  C31. \<^verbatim>\<open>EncodeDaap\<close> followed by \<^verbatim>\<open>parseDaap\<close> is the identity on the metadata the program
  exchanges: for a map whose values have the type of their name, visited in any order, encoding
  succeeds and parsing the bytes gives back every entry with a known name and a non-empty
  value. Unknown names and empty strings are dropped.
\<close>

theorem daap_roundtrip:
  assumes "range_order ks m" and "\<forall>k v. m k = Some v \<longrightarrow> typed_item k v"
  shows "res_bind (EncodeDaap ks m) parseDaap = Ret (kept_items m)"
  using assms by (rule EncodeDaap_parses)

definition sample_track :: daap_map where
  "sample_track = [''dmap.itemkind'' \<mapsto> DByte 2, ''dmap.itemname'' \<mapsto> DString ''Bobcaygeon'',
     ''daap.songalbum'' \<mapsto> DString []]"

theorem daap_roundtrip_witness:
  "res_bind (EncodeDaap [''daap.songalbum'', ''dmap.itemname'', ''dmap.itemkind''] sample_track) parseDaap
   = Ret [''dmap.itemkind'' \<mapsto> DByte 2, ''dmap.itemname'' \<mapsto> DString ''Bobcaygeon'']"
proof -
  have "range_order [''daap.songalbum'', ''dmap.itemname'', ''dmap.itemkind''] sample_track"
    by (auto simp: range_order_def sample_track_def)
  moreover have "\<forall>k v. sample_track k = Some v \<longrightarrow> typed_item k v"
    by (auto simp: sample_track_def typed_item_def split: if_splits)
  moreover have "kept_items sample_track =
      [''dmap.itemkind'' \<mapsto> DByte 2, ''dmap.itemname'' \<mapsto> DString ''Bobcaygeon'']"
    by (auto simp: fun_eq_iff kept_items_def sample_track_def kept_def known_name_def)
  ultimately show ?thesis using daap_roundtrip by metis
qed

text \<open>
  C39. \<^verbatim>\<open>parseDaap\<close> returns exactly on the payloads whose bytes behind the eight-byte header are a
  sequence of complete items; on every other payload, such as one cut short in transit, it
  panics, which ends the connection's process since nothing recovers.
\<close>

theorem parseDaap_returns_iff_framed:
  "is_ret (parseDaap payload) = framed (drop 8 payload)
   \<and> (framed (drop 8 payload) \<or> (\<exists>e. parseDaap payload = Panic e))"
proof -
  have panic: "is_ret (daap_items p m) \<or> (\<exists>e. daap_items p m = Panic e)" for p m
  proof (induction p m rule: daap_items.induct)
    case (1 p m)
    then show ?case by (auto simp: daap_items.simps [of p] Let_def split: if_splits)
  qed
  have "is_ret r \<Longrightarrow> \<exists>m. r = Ret m" for r :: "daap_map res" by (cases r) auto
  then have "is_ret (daap_items p m) = framed p" for p m
    using framed_returns returns_framed by blast
  with panic show ?thesis by (metis parseDaap_def)
qed

end
