(* ===== verification/Crypto.thy ===== *)
theory Crypto
  imports Daap
begin

text \<open>
  The cryptographic glue of the AirPlay server: \<^verbatim>\<open>raop/crypto.go\<close> (base64 with padding, the
  AES key of an announcement, the answer to the Apple challenge) and \<^verbatim>\<open>raop/decrypter.go\<close> (AES in
  CBC mode over the payload of an audio packet).

  The primitives themselves are parameters: \<open>dec\<close>, the AES block decryption under the session's
  key; \<open>oaep\<close>, RSA decryption under the built-in private key; \<open>sign\<close>, the RSA signature;
  \<open>parse_ip\<close>, the bytes \<^verbatim>\<open>net.ParseIP\<close> gives for an address. Base64 is modelled in full.
\<close>

section \<open>Base64\<close>

definition b64_alphabet :: string where
  "b64_alphabet = ''ABCDEFGHIJKLMNOPQRSTUVWXYZabcdefghijklmnopqrstuvwxyz0123456789+/''"

definition b64_char :: "8 word \<Rightarrow> char" where
  "b64_char w = b64_alphabet ! unat (take_bit 6 w)"

fun index_in :: "'a list \<Rightarrow> 'a \<Rightarrow> nat option" where
  "index_in [] x = None"
| "index_in (y # ys) x = (if x = y then Some 0 else map_option Suc (index_in ys x))"

definition b64_value :: "char \<Rightarrow> 8 word option" where
  "b64_value c = map_option word_of_nat (index_in b64_alphabet c)"

text \<open>\<^verbatim>\<open>base64.StdEncoding.EncodeToString\<close>.\<close>

fun enc_bytes :: "8 word list \<Rightarrow> string" where
  "enc_bytes [] = []"
| "enc_bytes [a] = [b64_char (drop_bit 2 a), b64_char (push_bit 4 a), CHR ''='', CHR ''='']"
| "enc_bytes [a, b] =
     [b64_char (drop_bit 2 a), b64_char (or (push_bit 4 a) (drop_bit 4 b)), b64_char (push_bit 2 b),
      CHR ''='']"
| "enc_bytes (a # b # c # r) =
     b64_char (drop_bit 2 a) # b64_char (or (push_bit 4 a) (drop_bit 4 b)) #
     b64_char (or (push_bit 2 b) (drop_bit 6 c)) # b64_char c # enc_bytes r"

definition EncodeToString :: "string \<Rightarrow> string" where
  "EncodeToString s = enc_bytes (map char_byte s)"

text \<open>
  \<^verbatim>\<open>base64.StdEncoding.DecodeString\<close>: line ends are skipped, padding is required, the unused low
  bits of the last character are not checked.
\<close>

definition unb64_1 :: "8 word \<Rightarrow> 8 word \<Rightarrow> 8 word" where
  "unb64_1 a b = or (push_bit 2 a) (drop_bit 4 b)"

definition unb64_2 :: "8 word \<Rightarrow> 8 word \<Rightarrow> 8 word" where
  "unb64_2 b c = or (push_bit 4 b) (drop_bit 2 c)"

definition unb64_3 :: "8 word \<Rightarrow> 8 word \<Rightarrow> 8 word" where
  "unb64_3 c d = or (push_bit 6 c) d"

definition quantum :: "char \<Rightarrow> char \<Rightarrow> char \<Rightarrow> char \<Rightarrow> bool \<Rightarrow> 8 word list option" where
  "quantum a b c d final =
     (case (b64_value a, b64_value b) of
        (Some x, Some y) \<Rightarrow>
          if c = CHR ''='' then (if d = CHR ''='' \<and> final then Some [unb64_1 x y] else None)
          else (case b64_value c of
                  None \<Rightarrow> None
                | Some z \<Rightarrow>
                    if d = CHR ''='' then (if final then Some [unb64_1 x y, unb64_2 y z] else None)
                    else map_option (\<lambda>u. [unb64_1 x y, unb64_2 y z, unb64_3 z u]) (b64_value d))
      | _ \<Rightarrow> None)"

fun dec_chars :: "string \<Rightarrow> 8 word list option" where
  "dec_chars [] = Some []"
| "dec_chars (a # b # c # d # r) =
     (case quantum a b c d (r = []) of
        None \<Rightarrow> None
      | Some q \<Rightarrow> map_option (\<lambda>bs. q @ bs) (dec_chars r))"
| "dec_chars _ = None"

definition DecodeString :: "string \<Rightarrow> string res" where
  "DecodeString s =
     (case dec_chars (filter (\<lambda>c. c \<noteq> CR \<and> c \<noteq> LF) s) of
        None \<Rightarrow> Err ''illegal base64 data''
      | Some bs \<Rightarrow> Ret (map byte_char bs))"

section \<open>Padding\<close>

function base64pad :: "string \<Rightarrow> string" where
  "base64pad s = (if length s mod 4 \<noteq> 0 then base64pad (s @ ''='') else s)"
  by pat_completeness auto
termination base64pad
proof (relation "measure (\<lambda>s. (4 - length s mod 4) mod 4)")
  fix s :: string
  assume "length s mod 4 \<noteq> 0"
  then consider "length s mod 4 = 1" | "length s mod 4 = 2" | "length s mod 4 = 3" by linarith
  then show "(s @ ''='', s) \<in> measure (\<lambda>s. (4 - length s mod 4) mod 4)"
    by cases (simp_all add: mod_Suc)
qed simp

declare base64pad.simps [simp del]

definition base64unpad :: "string \<Rightarrow> string" where
  "base64unpad s =
     (case index_of ''='' s of None \<Rightarrow> s | Some idx \<Rightarrow> take idx s)"

section \<open>The session key and the challenge\<close>

definition aeskeyFromRsa :: "(string \<Rightarrow> string res) \<Rightarrow> string \<Rightarrow> string res" where
  "aeskeyFromRsa oaep rsaaeskey64 = res_bind (DecodeString (base64pad rsaaeskey64)) oaep"

text \<open>\<^verbatim>\<open>IP.To4\<close> is not nil: four bytes, or sixteen with the IPv4-in-IPv6 prefix.\<close>

definition is_ip4 :: "string \<Rightarrow> bool" where
  "is_ip4 b \<longleftrightarrow>
     length b = 4 \<or> (length b = 16 \<and> take 12 b = replicate 10 (CHR 0x00) @ [CHR 0xFF, CHR 0xFF])"

function pad_zeros :: "string \<Rightarrow> string" where
  "pad_zeros p = (if length p < 32 then pad_zeros (p @ [CHR 0x00]) else p)"
  by pat_completeness auto
termination pad_zeros
  by (relation "measure (\<lambda>p. 32 - length p)") auto

declare pad_zeros.simps [simp del]

definition challenge_payload :: "(string \<Rightarrow> string) \<Rightarrow> string \<Rightarrow> string \<Rightarrow> string \<Rightarrow> string" where
  "challenge_payload parse_ip decodedChallenge macAddr ipAddr =
     (let b = parse_ip ipAddr; b' = (if is_ip4 b then drop (length b - 4) b else b) in
      pad_zeros (decodedChallenge @ b' @ macAddr))"

definition generateChallengeResponse ::
    "(string \<Rightarrow> string) \<Rightarrow> (string \<Rightarrow> string res) \<Rightarrow> string \<Rightarrow> string \<Rightarrow> string \<Rightarrow> string res" where
  "generateChallengeResponse parse_ip sign challenge macAddr ipAddr =
     res_bind (DecodeString (base64pad challenge)) (\<lambda>decodedChallenge.
       if length decodedChallenge \<noteq> 16 then Err ''Incorrect challenge received''
       else res_bind (sign (challenge_payload parse_ip decodedChallenge macAddr ipAddr))
         (\<lambda>signedResponse.
            let signedResponse64 = EncodeToString signedResponse in
            Ret (if length signedResponse64 \<noteq> length challenge then base64unpad signedResponse64
                 else signedResponse64)))"

section \<open>The packet decrypter\<close>

record AesDecrypter =
  aesKey :: string
  aesIv :: string

definition NewAesDecrypter :: "string \<Rightarrow> string \<Rightarrow> AesDecrypter" where
  "NewAesDecrypter key iv = \<lparr>aesKey = key, aesIv = iv\<rparr>"

definition xor_bytes :: "string \<Rightarrow> string \<Rightarrow> string" where
  "xor_bytes a b = map2 (\<lambda>x y. byte_char (xor (char_byte x) (char_byte y))) a b"

text \<open>
  The loop over the whole blocks of the payload: each block is replaced by its decryption xored
  with the previous cipher block (the IV for the first); a last partial block is left as it is.
\<close>

function cbc_blocks :: "(string \<Rightarrow> string) \<Rightarrow> string \<Rightarrow> string \<Rightarrow> string" where
  "cbc_blocks dec iv todec =
     (if 16 \<le> length todec
      then xor_bytes (dec (take 16 todec)) iv @ cbc_blocks dec (take 16 todec) (drop 16 todec)
      else todec)"
  by pat_completeness auto
termination cbc_blocks
  by (relation "measure (\<lambda>(dec, iv, todec). length todec)") auto

declare cbc_blocks.simps [simp del]

text \<open>
  \<^verbatim>\<open>Decode\<close> decrypts in place, so besides the returned copy of the payload it leaves the
  caller's packet changed (the second component).
\<close>

definition Decode :: "(string \<Rightarrow> string \<Rightarrow> string) \<Rightarrow> AesDecrypter \<Rightarrow> string \<Rightarrow> (string \<times> string) res" where
  "Decode aes d data =
     (if length (aesKey d) \<notin> {16, 24, 32} then Err ''crypto/aes: invalid key size''
      else if length (aesIv d) \<noteq> 16 then
        Panic ''cipher.NewCBCDecrypter: IV length must equal block size''
      else if length data < 12 then Panic ''runtime error: slice bounds out of range''
      else let audio = cbc_blocks (aes (aesKey d)) (aesIv d) (drop 12 data) in
        Ret (audio, take 12 data @ audio))"

section \<open>Base64 round trips\<close>

lemma index_in_nth: "distinct xs \<Longrightarrow> i < length xs \<Longrightarrow> index_in xs (xs ! i) = Some i"
proof (induction xs arbitrary: i)
  case (Cons x xs)
  then show ?case by (cases i) auto
qed simp

lemma b64_alphabet_facts:
  "length b64_alphabet = 64" "distinct b64_alphabet" "{CR, LF, CHR ''=''} \<inter> set b64_alphabet = {}"
  by (simp_all add: b64_alphabet_def)

lemma take_bit_6_less: "unat (take_bit 6 w :: 8 word) < 64"
  using take_bit_nat_less_exp [of 6 "unat w"] by (simp add: unsigned_take_bit_eq)

lemma b64_value_char [simp]: "b64_value (b64_char w) = Some (take_bit 6 w)"
  using b64_alphabet_facts take_bit_6_less [of w]
  by (simp add: b64_value_def b64_char_def index_in_nth)

lemma b64_char_plain: "b64_char w \<notin> {CR, LF, CHR ''=''}"
proof -
  have "b64_char w \<in> set b64_alphabet"
    using take_bit_6_less [of w] b64_alphabet_facts(1) by (simp add: b64_char_def)
  with b64_alphabet_facts(3) show ?thesis by blast
qed

lemma b64_char_neq [simp]:
  "b64_char w \<noteq> CR" "b64_char w \<noteq> LF" "b64_char w \<noteq> CHR ''=''" "CHR ''='' \<noteq> b64_char w"
  using b64_char_plain [of w] by auto

lemma byte_eqI:
  fixes v w :: "8 word"
  assumes "bit v 0 = bit w 0" "bit v 1 = bit w 1" "bit v 2 = bit w 2" "bit v 3 = bit w 3"
    "bit v 4 = bit w 4" "bit v 5 = bit w 5" "bit v 6 = bit w 6" "bit v 7 = bit w 7"
  shows "v = w"
proof (rule bit_word_eqI)
  fix n
  assume "n < LENGTH(8)"
  then have "n < 8" by simp
  then have "n \<in> {0, 1, 2, 3, 4, 5, 6, 7}" by (simp only: insert_iff empty_iff) linarith
  with assms show "bit v n = bit w n" by auto
qed

lemma bit_word_beyond: "8 \<le> n \<Longrightarrow> \<not> bit (w :: 8 word) n"
  by (auto dest: bit_imp_le_length)

lemma unb64_bits [simp]:
  fixes a b c :: "8 word"
  shows "unb64_1 (take_bit 6 (drop_bit 2 a)) (take_bit 6 (push_bit 4 a)) = a"
    "unb64_1 (take_bit 6 (drop_bit 2 a)) (take_bit 6 (or (push_bit 4 a) (drop_bit 4 b))) = a"
    "unb64_2 (take_bit 6 (or (push_bit 4 a) (drop_bit 4 b))) (take_bit 6 (push_bit 2 b)) = b"
    "unb64_2 (take_bit 6 (or (push_bit 4 a) (drop_bit 4 b))) (take_bit 6 (or (push_bit 2 b) (drop_bit 6 c))) = b"
    "unb64_3 (take_bit 6 (or (push_bit 2 b) (drop_bit 6 c))) (take_bit 6 c) = c"
  unfolding unb64_1_def unb64_2_def unb64_3_def
  by (rule byte_eqI; simp add: bit_or_iff bit_push_bit_iff bit_drop_bit_eq bit_take_bit_iff
      bit_word_beyond; simp add: numeral_2_eq_2 numeral_3_eq_3)+

lemma quantum_chars [simp]:
  "quantum (b64_char u) (b64_char v) (b64_char w) (b64_char x) f =
     Some [unb64_1 (take_bit 6 u) (take_bit 6 v), unb64_2 (take_bit 6 v) (take_bit 6 w),
           unb64_3 (take_bit 6 w) (take_bit 6 x)]"
  "quantum (b64_char u) (b64_char v) (b64_char w) (CHR ''='') True =
     Some [unb64_1 (take_bit 6 u) (take_bit 6 v), unb64_2 (take_bit 6 v) (take_bit 6 w)]"
  "quantum (b64_char u) (b64_char v) (CHR ''='') (CHR ''='') True =
     Some [unb64_1 (take_bit 6 u) (take_bit 6 v)]"
  by (simp_all add: quantum_def)

lemma dec_enc_bytes: "dec_chars (enc_bytes bs) = Some bs"
  by (induction bs rule: enc_bytes.induct) (simp_all del: take_bit_or)

lemma enc_bytes_plain: "c \<in> set (enc_bytes bs) \<Longrightarrow> c \<noteq> CR \<and> c \<noteq> LF"
  by (induction bs rule: enc_bytes.induct) auto

lemma DecodeString_EncodeToString: "DecodeString (EncodeToString s) = Ret s"
proof -
  have "filter (\<lambda>c. c \<noteq> CR \<and> c \<noteq> LF) (EncodeToString s) = EncodeToString s"
    unfolding EncodeToString_def using enc_bytes_plain by (simp add: filter_id_conv)
  then show ?thesis by (simp add: DecodeString_def EncodeToString_def dec_enc_bytes comp_def)
qed

text \<open>An encoding is its alphabet characters followed by at most two padding characters.\<close>

lemma enc_bytes_shape:
  "\<exists>p k. enc_bytes bs = p @ replicate k (CHR ''='') \<and> CHR ''='' \<notin> set p \<and> k < 3
    \<and> length (enc_bytes bs) mod 4 = 0"
proof (induction bs rule: enc_bytes.induct)
  case 1
  then show ?case by (intro exI [of _ "[]"] exI [of _ 0]) simp
next
  case (2 a)
  then show ?case
    by (intro exI [of _ "[b64_char (drop_bit 2 a), b64_char (push_bit 4 a)]"] exI [of _ 2])
      (simp add: eval_nat_numeral)
next
  case (3 a b)
  then show ?case
    by (intro exI [of _ "[b64_char (drop_bit 2 a), b64_char (or (push_bit 4 a) (drop_bit 4 b)),
          b64_char (push_bit 2 b)]"] exI [of _ 1]) simp
next
  case (4 a b c r)
  then obtain p k where "enc_bytes r = p @ replicate k (CHR ''='')" "CHR ''='' \<notin> set p" "k < 3"
    "length (enc_bytes r) mod 4 = 0" by metis
  then show ?case
    by (intro exI [of _ "b64_char (drop_bit 2 a) # b64_char (or (push_bit 4 a) (drop_bit 4 b)) #
          b64_char (or (push_bit 2 b) (drop_bit 6 c)) # b64_char c # p"] exI [of _ k])
      simp
qed

lemma base64unpad_split:
  "CHR ''='' \<notin> set p \<Longrightarrow> base64unpad (p @ replicate k (CHR ''='')) = p"
proof -
  have "CHR ''='' \<notin> set p \<Longrightarrow> index_of ''='' (p @ CHR ''='' # q) = Some (length p)" for q
    by (induction p) auto
  moreover have "CHR ''='' \<notin> set p \<Longrightarrow> index_of ''='' p = None"
    by (induction p) auto
  ultimately show "CHR ''='' \<notin> set p \<Longrightarrow> base64unpad (p @ replicate k (CHR ''='')) = p"
    by (cases k) (simp_all add: base64unpad_def)
qed

lemma base64pad_adds:
  "\<exists>k. k < 4 \<and> base64pad s = s @ replicate k (CHR ''='') \<and> (length s + k) mod 4 = 0"
proof -
  have 0: "base64pad s = s" if "length s mod 4 = 0" for s using that by (simp add: base64pad.simps [of s])
  have 1: "base64pad s = base64pad (s @ ''='')" if "length s mod 4 \<noteq> 0" for s
    using that by (simp add: base64pad.simps [of s])
  consider "length s mod 4 = 0" | "length s mod 4 = 1" | "length s mod 4 = 2" | "length s mod 4 = 3"
    by linarith
  then show ?thesis
  proof cases
    case 1
    then show ?thesis using 0 [of s] by (intro exI [of _ 0]) simp
  next
    case 2
    then show ?thesis
      using 1 [of s] 1 [of "s @ ''=''"] 1 [of "s @ ''==''"] 0 [of "s @ ''===''"]
      by (intro exI [of _ 3]) (simp add: mod_Suc numeral_3_eq_3)
  next
    case 3
    then show ?thesis
      using 1 [of s] 1 [of "s @ ''=''"] 0 [of "s @ ''==''"]
      by (intro exI [of _ 2]) (simp add: mod_Suc numeral_2_eq_2)
  next
    case 4
    then show ?thesis
      using 1 [of s] 0 [of "s @ ''=''"] by (intro exI [of _ 1]) (simp add: mod_Suc)
  qed
qed

text \<open>Removing the padding and putting it back is the identity on an encoding.\<close>

lemma repad: "base64pad (base64unpad (EncodeToString s)) = EncodeToString s"
proof -
  obtain p k where e: "EncodeToString s = p @ replicate k (CHR ''='')" "CHR ''='' \<notin> set p" "k < 3"
    "length (EncodeToString s) mod 4 = 0"
    unfolding EncodeToString_def using enc_bytes_shape by metis
  obtain j where j: "j < 4" "base64pad p = p @ replicate j (CHR ''='')" "(length p + j) mod 4 = 0"
    using base64pad_adds by metis
  have "(length p + k) mod 4 = 0" using e(1,4) by simp
  with j(1,3) \<open>k < 3\<close> have "j = k" by presburger
  with e j show ?thesis by (simp add: base64unpad_split)
qed

section \<open>Padding with zeros\<close>

lemma pad_zeros_eq: "pad_zeros p = p @ replicate (32 - length p) (CHR 0x00)"
proof (induction p rule: pad_zeros.induct)
  case (1 p)
  show ?case
  proof (cases "length p < 32")
    case True
    then have "32 - length p = Suc (32 - length (p @ [CHR 0x00]))" by simp
    with True 1 show ?thesis by (simp add: pad_zeros.simps [of p] replicate_app_Cons_same)
  next
    case False
    then show ?thesis by (simp add: pad_zeros.simps [of p])
  qed
qed

section \<open>CBC\<close>

lemma length_xor_bytes [simp]: "length (xor_bytes a b) = min (length a) (length b)"
  by (simp add: xor_bytes_def)

lemma xor_bytes_twice: "length a \<le> length b \<Longrightarrow> xor_bytes (xor_bytes a b) b = a"
  by (rule nth_equalityI) (simp_all add: xor_bytes_def xor.assoc)

text \<open>
  The sender's side of CBC, for the specification: whole blocks are encrypted with \<open>enc\<close>, each
  xored with the previous cipher block first; the tail is sent in the clear.
\<close>

primrec cbc_encrypt :: "(string \<Rightarrow> string) \<Rightarrow> string \<Rightarrow> string list \<Rightarrow> string" where
  "cbc_encrypt enc iv [] = []"
| "cbc_encrypt enc iv (b # bs) = enc (xor_bytes b iv) @ cbc_encrypt enc (enc (xor_bytes b iv)) bs"

lemma cbc_inverse:
  assumes dec_enc: "\<And>b. length b = 16 \<Longrightarrow> dec (enc b) = b"
    and enc_length: "\<And>b. length b = 16 \<Longrightarrow> length (enc b) = 16"
  shows "list_all (\<lambda>b. length b = 16) bs \<Longrightarrow> length iv = 16 \<Longrightarrow> length rest < 16 \<Longrightarrow>
    cbc_blocks dec iv (cbc_encrypt enc iv bs @ rest) = concat bs @ rest"
proof (induction bs arbitrary: iv)
  case Nil
  then show ?case by (simp add: cbc_blocks.simps [of dec iv rest])
next
  case (Cons b bs)
  let ?c = "enc (xor_bytes b iv)"
  have c: "length ?c = 16" "dec ?c = xor_bytes b iv" using Cons.prems by (simp_all add: dec_enc enc_length)
  have "cbc_blocks dec iv (?c @ cbc_encrypt enc ?c bs @ rest) =
      xor_bytes (dec ?c) iv @ cbc_blocks dec ?c (cbc_encrypt enc ?c bs @ rest)"
    using c(1) by (subst cbc_blocks.simps) simp
  with Cons c show ?case by (simp add: xor_bytes_twice)
qed

section \<open>Properties\<close>

text \<open>
  The base64 that AirPlay senders transmit without its padding is decoded to the bytes they
  encoded: \<^verbatim>\<open>base64pad\<close> restores exactly the padding that \<^verbatim>\<open>base64unpad\<close> (or a sender) removed,
  so the session key of an announcement reaches RSA decryption unchanged.
\<close>

theorem session_key_reaches_rsa:
  "aeskeyFromRsa oaep (base64unpad (EncodeToString s)) = oaep s"
  by (simp add: aeskeyFromRsa_def repad DecodeString_EncodeToString)

text \<open>
  The answer to the Apple challenge: for the unpadded base64 of 16 challenge bytes the
  server signs challenge, address and hardware address followed by zeros up to 32 bytes (an
  IPv4 address counts its last four bytes) and returns the unpadded base64 of the signature,
  padded only when that has the challenge's own length; any other number of challenge bytes is
  an error.
\<close>

theorem challenge_is_answered:
  fixes sign :: "string \<Rightarrow> string res"
  defines "ip \<equiv> (\<lambda>b. if is_ip4 b then drop (length b - 4) b else b)"
  defines "payload \<equiv> (\<lambda>c mac b. c @ ip b @ mac @ replicate (32 - length (c @ ip b @ mac)) (CHR 0x00))"
  shows "generateChallengeResponse parse_ip sign (base64unpad (EncodeToString c)) mac addr =
    (if length c \<noteq> 16 then Err ''Incorrect challenge received''
     else res_bind (sign (payload c mac (parse_ip addr))) (\<lambda>sig.
       Ret (if length (EncodeToString sig) = length (base64unpad (EncodeToString c))
            then EncodeToString sig else base64unpad (EncodeToString sig))))"
proof -
  have "challenge_payload parse_ip c mac addr = payload c mac (parse_ip addr)"
    by (simp add: challenge_payload_def pad_zeros_eq payload_def ip_def Let_def)
  then show ?thesis
    by (cases "sign (payload c mac (parse_ip addr))")
      (simp_all add: generateChallengeResponse_def repad DecodeString_EncodeToString Let_def)
qed

text \<open>
  C32. Every audio packet whose payload was encrypted in CBC mode from the session's IV (whole
  blocks only, a last partial block in the clear) comes out of \<^verbatim>\<open>Decode\<close> as the sender's
  payload, and the packet's own bytes behind the 12-byte header have been replaced by it. The
  hypotheses on the AES functions under the key: decryption inverts encryption on blocks of 16
  bytes, and encryption keeps the block size.
\<close>

theorem packets_decrypt:
  assumes "\<And>b. length b = 16 \<Longrightarrow> aes key (enc b) = b" and "\<And>b. length b = 16 \<Longrightarrow> length (enc b) = 16"
    and "length key \<in> {16, 24, 32}" and "length iv = 16"
    and "list_all (\<lambda>b. length b = 16) bs" and "length rest < 16" and "length header = 12"
  shows "Decode aes (NewAesDecrypter key iv) (header @ cbc_encrypt enc iv bs @ rest) =
    Ret (concat bs @ rest, header @ concat bs @ rest)"
  using cbc_inverse [of "aes key" enc bs iv rest] assms
  by (simp add: Decode_def NewAesDecrypter_def Let_def)

theorem packets_decrypt_witness:
  "Decode (\<lambda>k. rev) (NewAesDecrypter (replicate 16 (CHR ''k'')) (replicate 16 (CHR 0x00)))
     (replicate 12 (CHR ''h'') @ cbc_encrypt rev (replicate 16 (CHR 0x00)) [''abcdefghijklmnop''] @ ''qr'')
   = Ret (''abcdefghijklmnopqr'', replicate 12 (CHR ''h'') @ ''abcdefghijklmnopqr'')"
  using packets_decrypt [of "\<lambda>k. rev" "replicate 16 (CHR ''k'')" rev "replicate 16 (CHR 0x00)"
      "[''abcdefghijklmnop'']" "''qr''" "replicate 12 (CHR ''h'')"]
  by simp

end
