(* ===== verification/Session.thy ===== *)
theory Session
  imports Sdp Crypto
begin

text \<open>
  Streaming sessions: \<^verbatim>\<open>rtsp/session.go\<close>.

  A session is its description, decrypter, ports and data connection. The goroutine that
  \<open>StartReceiving\<close> starts is counted (\<open>se_receivers\<close>); what it does to the datagrams is the
  function \<open>receive_all\<close>, from the datagrams read to the packets put on \<^verbatim>\<open>DataChan\<close>. A receiver is
  taken never to block on a full \<^verbatim>\<open>DataChan\<close>, because the player drains it. \<open>Close\<close> and the wait
  for its signal are a step relation (\<open>close_step\<close>) on the caller and the receivers, which meet on the
  unbuffered channel and share \<^verbatim>\<open>DataChan\<close>; \<open>close_and_wait\<close> runs it on one schedule.
\<close>

record port_set =
  ps_Address :: string
  ps_Control :: int
  ps_Timing :: int
  ps_Data :: int

record session =
  se_Description :: session_description
  se_decrypter :: "AesDecrypter option"
  se_RemotePorts :: port_set
  se_LocalPorts :: port_set
  se_dataConn :: bool
  se_receivers :: nat

definition no_ports :: port_set where
  "no_ports = \<lparr>ps_Address = [], ps_Control = 0, ps_Timing = 0, ps_Data = 0\<rparr>"

definition NewSession :: "session_description \<Rightarrow> AesDecrypter option \<Rightarrow> session" where
  "NewSession description decrypter =
     \<lparr>se_Description = description, se_decrypter = decrypter, se_RemotePorts = no_ports,
      se_LocalPorts = no_ports, se_dataConn = False, se_receivers = 0\<rparr>"

text \<open>
  \<open>listen\<close> is the outcome of opening the UDP socket: an error, or its local address, whose last
  part after a colon is the port.
\<close>

definition InitReceive :: "string res \<Rightarrow> session \<Rightarrow> session res" where
  "InitReceive listen s =
     res_bind listen (\<lambda>localAddr.
       Ret (s\<lparr>se_dataConn := True,
         se_LocalPorts := (se_LocalPorts s)\<lparr>ps_Data := fst (Atoi (last (split_on (CHR '':'') localAddr)))\<rparr>\<rparr>))"

definition StartReceiving :: "session \<Rightarrow> session res" where
  "StartReceiving s =
     (if \<not> se_dataConn s then Panic ''interface conversion: net.Conn is nil, not *net.UDPConn''
      else Ret (s\<lparr>se_receivers := se_receivers s + 1\<rparr>))"

section \<open>Closing\<close>

text \<open>
  The goroutine that closes the session, and its receivers: a receiver is in its read loop, has left
  it and is about to signal, or has ended. \<^verbatim>\<open>Close\<close> leaves a caller that waits for the signal, or,
  without a data connection, one that sends the signal to itself on the unbuffered channel.
\<close>

datatype caller = Sends | Waits | Returned
datatype receiver = Receives | Signals | Ended

record closing =
  co_caller :: caller
  co_receivers :: "receiver list"
  co_closed :: bool

definition Close :: "session \<Rightarrow> closing" where
  "Close s =
     \<lparr>co_caller = (if se_dataConn s then Waits else Sends),
      co_receivers = replicate (se_receivers s) Receives, co_closed = False\<rparr>"

text \<open>
  The next step of the receiver \<open>i\<close>, once its socket is closed: the read fails and it closes
  \<^verbatim>\<open>DataChan\<close>, which panics when another one has; then it signals, when the caller is there. \<open>None\<close> when
  it cannot go on.
\<close>

definition receiver_turn :: "nat \<Rightarrow> closing \<Rightarrow> (unit res \<times> closing) option" where
  "receiver_turn i x =
     (if \<not> i < length (co_receivers x) then None
      else case co_receivers x ! i of
        Receives \<Rightarrow>
          (if co_closed x then Some (Panic ''close of closed channel'', x)
           else Some (Ret (), x\<lparr>co_closed := True, co_receivers := (co_receivers x)[i := Signals]\<rparr>))
      | Signals \<Rightarrow>
          (if co_caller x = Waits
           then Some (Ret (), x\<lparr>co_caller := Returned, co_receivers := (co_receivers x)[i := Ended]\<rparr>)
           else None)
      | Ended \<Rightarrow> None)"

inductive close_step :: "closing \<Rightarrow> unit res \<Rightarrow> closing \<Rightarrow> bool" where
  "receiver_turn i x = Some (r, y) \<Longrightarrow> close_step x r y"

definition close_runs :: "closing \<Rightarrow> closing \<Rightarrow> bool" where
  "close_runs = (\<lambda>x y. close_step x (Ret ()) y)\<^sup>*\<^sup>*"

text \<open>A schedule, and the outcome for the caller when nothing is left to happen.\<close>

fun close_exec :: "nat list \<Rightarrow> closing \<Rightarrow> unit res \<times> closing" where
  "close_exec [] x = (if co_caller x = Returned then Ret () else Hang, x)"
| "close_exec (i # is) x =
     (case receiver_turn i x of
        None \<Rightarrow> close_exec is x
      | Some (Ret _, y) \<Rightarrow> close_exec is y
      | Some (r, y) \<Rightarrow> (r, y))"

text \<open>
  The outcome for the handlers: all receivers leave their loops before one of them signals. Properties
  that depend on the schedule are stated on \<open>close_step\<close>.
\<close>

definition close_and_wait :: "session \<Rightarrow> unit res" where
  "close_and_wait s =
     fst (close_exec ([0..<se_receivers s] @ [0..<se_receivers s]) (Close s))"

definition readBuffer :: nat where
  "readBuffer = 1024 * 16"

text \<open>
  The receiver's loop over the datagrams it reads, \<open>aes\<close> being the block decryption: a packet
  that cannot be decrypted is skipped. The result is the contents of \<^verbatim>\<open>DataChan\<close>.
\<close>

primrec receive_all :: "(string \<Rightarrow> string \<Rightarrow> string) \<Rightarrow> AesDecrypter option \<Rightarrow> string list \<Rightarrow> string list res" where
  "receive_all aes d [] = Ret []"
| "receive_all aes d (dg # dgs) =
     (let packet = take readBuffer dg in
      case (case d of None \<Rightarrow> Ret packet | Some dec \<Rightarrow> map_res fst (Decode aes dec packet)) of
        Ret p \<Rightarrow> res_bind (receive_all aes d dgs) (\<lambda>ps. Ret (p # ps))
      | Err e \<Rightarrow> receive_all aes d dgs
      | Panic e \<Rightarrow> Panic e
      | Exit e \<Rightarrow> Exit e
      | Hang \<Rightarrow> Hang)"

text \<open>\<open>dial\<close> is the outcome of opening the connection to the peer.\<close>

definition StartSending :: "(string \<Rightarrow> int \<Rightarrow> unit res) \<Rightarrow> session \<Rightarrow> session res" where
  "StartSending dial s =
     res_bind (dial (ps_Address (se_RemotePorts s)) (ps_Data (se_RemotePorts s)))
       (\<lambda>_. Ret (s\<lparr>se_dataConn := True\<rparr>))"

text \<open>The sender's loop: every packet of \<^verbatim>\<open>DataChan\<close> is written, an error ends the process.\<close>

primrec send_all :: "(string \<Rightarrow> unit res) \<Rightarrow> string list \<Rightarrow> string list \<times> unit res" where
  "send_all wr [] = ([], Ret ())"
| "send_all wr (pkt # pkts) =
     (case wr pkt of
        Ret _ \<Rightarrow> apfst (\<lambda>ps. pkt # ps) (send_all wr pkts)
      | Err e \<Rightarrow> ([], Exit e)
      | Panic e \<Rightarrow> ([], Panic e)
      | Exit e \<Rightarrow> ([], Exit e)
      | Hang \<Rightarrow> ([], Hang))"

section \<open>How closing ends\<close>

text \<open>
  What the receivers can have done before a panic: nothing, or one of them has closed \<^verbatim>\<open>DataChan\<close> and
  signals, or it has signalled.
\<close>

definition closing_ok :: "session \<Rightarrow> closing \<Rightarrow> bool" where
  "closing_ok s x \<longleftrightarrow>
     x = Close s \<or>
     (\<exists>i < se_receivers s.
        x = (Close s)\<lparr>co_closed := True, co_receivers := (replicate (se_receivers s) Receives)[i := Signals]\<rparr> \<or>
        x = \<lparr>co_caller = Returned, co_receivers = (replicate (se_receivers s) Receives)[i := Ended], co_closed = True\<rparr>)"

lemma close_stepE:
  assumes "close_step x r y"
  obtains (closes) i where "i < length (co_receivers x)" "co_receivers x ! i = Receives" "\<not> co_closed x" "r = Ret ()"
      "y = x\<lparr>co_closed := True, co_receivers := (co_receivers x)[i := Signals]\<rparr>"
    | (panics) i where "i < length (co_receivers x)" "co_receivers x ! i = Receives" "co_closed x"
      "r = Panic ''close of closed channel''" "y = x"
    | (signals) i where "i < length (co_receivers x)" "co_receivers x ! i = Signals" "co_caller x = Waits" "r = Ret ()"
      "y = x\<lparr>co_caller := Returned, co_receivers := (co_receivers x)[i := Ended]\<rparr>"
proof -
  obtain i where i: "receiver_turn i x = Some (r, y)" using assms by cases
  then have "i < length (co_receivers x)" by (simp add: receiver_turn_def split: if_splits)
  with i closes [of i] panics [of i] signals [of i] show thesis
    by (cases "co_receivers x ! i") (simp_all add: receiver_turn_def split: if_splits)
qed

lemma closing_ok_step:
  assumes "closing_ok s x" and "close_step x (Ret ()) y"
  shows "closing_ok s y"
  using assms(2)
proof (cases rule: close_stepE)
  case (closes i)
  then show ?thesis using assms(1) by (auto simp: closing_ok_def Close_def)
next
  case (signals i)
  then show ?thesis using assms(1) by (auto simp: closing_ok_def Close_def nth_list_update split: if_splits)
qed simp

lemma closing_ok_runs: "close_runs (Close s) x \<Longrightarrow> closing_ok s x"
  unfolding close_runs_def
  by (induction rule: rtranclp_induct) (simp add: closing_ok_def, blast intro: closing_ok_step)

fun receiver_rank :: "receiver \<Rightarrow> nat" where
  "receiver_rank Receives = 2"
| "receiver_rank Signals = 1"
| "receiver_rank Ended = 0"

lemma close_step_rank:
  assumes "close_step x (Ret ()) y"
  shows "sum_list (map receiver_rank (co_receivers y)) < sum_list (map receiver_rank (co_receivers x))"
proof -
  obtain i r where "i < length (co_receivers x)" "co_receivers y = (co_receivers x)[i := r]"
    "receiver_rank r < receiver_rank (co_receivers x ! i)"
    using assms by (cases rule: close_stepE) auto
  moreover from this(1) have "receiver_rank (co_receivers x ! i) \<le> sum_list (map receiver_rank (co_receivers x))"
    by (simp add: member_le_sum_list)
  ultimately show ?thesis by (simp add: map_update sum_list_update)
qed

lemma close_step_terminates: "wfp (\<lambda>y x. close_step x (Ret ()) y)"
proof -
  have "{(y, x). close_step x (Ret ()) y} \<subseteq> measure (\<lambda>x. sum_list (map receiver_rank (co_receivers x)))"
    by (auto dest: close_step_rank)
  then show ?thesis using wf_subset [OF wf_measure] by (auto simp: wfp_def)
qed

text \<open>The three ends of closing.\<close>

lemma no_receiver_hangs: "se_receivers s = 0 \<Longrightarrow> \<not> close_step (Close s) r y"
  by (auto simp: Close_def elim: close_stepE)

lemma close_step_first: "receiver_turn 0 x \<noteq> None \<Longrightarrow> \<exists>r y. close_step x r y"
  by (auto intro: close_step.intros)

lemma one_receiver_returns:
  assumes "se_receivers s = 1" and "se_dataConn s" and "close_runs (Close s) x"
  shows "\<not> close_step x (Panic e) y" and "(\<exists>r y. close_step x r y) \<longleftrightarrow> co_caller x \<noteq> Returned"
proof -
  consider "x = \<lparr>co_caller = Waits, co_receivers = [Receives], co_closed = False\<rparr>"
    | "x = \<lparr>co_caller = Waits, co_receivers = [Signals], co_closed = True\<rparr>"
    | "x = \<lparr>co_caller = Returned, co_receivers = [Ended], co_closed = True\<rparr>"
    using closing_ok_runs [OF assms(3)] assms(1,2) by (auto simp: closing_ok_def Close_def)
  then have "\<not> close_step x (Panic e) y \<and> ((\<exists>r y. close_step x r y) \<longleftrightarrow> co_caller x \<noteq> Returned)"
  proof cases
    case 1
    then show ?thesis using close_step_first [of x] by (auto elim!: close_stepE simp: receiver_turn_def)
  next
    case 2
    then show ?thesis using close_step_first [of x] by (auto elim!: close_stepE simp: receiver_turn_def)
  next
    case 3
    then show ?thesis by (auto elim!: close_stepE)
  qed
  then show "\<not> close_step x (Panic e) y" and "(\<exists>r y. close_step x r y) \<longleftrightarrow> co_caller x \<noteq> Returned" by simp_all
qed

lemma more_receivers_panic:
  assumes "2 \<le> se_receivers s" and "close_runs (Close s) x"
  shows "\<exists>r y. close_step x r y"
proof -
  have "\<exists>j < se_receivers s. co_receivers x ! j = Receives \<and> length (co_receivers x) = se_receivers s"
    using closing_ok_runs [OF assms(2)] unfolding closing_ok_def
  proof (elim disjE exE conjE)
    fix i assume "i < se_receivers s"
    then have "(if i = 0 then 1 else 0) < se_receivers s" "(if i = 0 then 1 else 0) \<noteq> i" using assms(1) by auto
    note j = this
    { assume "x = (Close s)\<lparr>co_closed := True, co_receivers := (replicate (se_receivers s) Receives)[i := Signals]\<rparr>"
      with j show ?thesis by (intro exI [of _ "if i = 0 then 1 else 0"]) simp }
    { assume "x = \<lparr>co_caller = Returned, co_receivers = (replicate (se_receivers s) Receives)[i := Ended], co_closed = True\<rparr>"
      with j show ?thesis by (intro exI [of _ "if i = 0 then 1 else 0"]) simp }
  qed (use assms(1) in \<open>auto simp: Close_def intro: exI [of _ 0]\<close>)
  then obtain j where "j < length (co_receivers x)" "co_receivers x ! j = Receives" by auto
  then have "receiver_turn j x \<noteq> None" by (simp add: receiver_turn_def)
  then show ?thesis by (auto intro: close_step.intros)
qed

lemma receiver_may_signal:
  assumes "1 \<le> se_receivers s" and "se_dataConn s"
  shows "\<exists>x. close_runs (Close s) x \<and> co_caller x = Returned"
proof -
  let ?y = "(Close s)\<lparr>co_closed := True, co_receivers := (co_receivers (Close s))[0 := Signals]\<rparr>"
  let ?x = "?y\<lparr>co_caller := Returned, co_receivers := (co_receivers ?y)[0 := Ended]\<rparr>"
  have "receiver_turn 0 (Close s) = Some (Ret (), ?y)" "receiver_turn 0 ?y = Some (Ret (), ?x)"
    using assms by (simp_all add: receiver_turn_def Close_def)
  then have "close_step (Close s) (Ret ()) ?y" "close_step ?y (Ret ()) ?x"
    by (auto intro: close_step.intros)
  then have "close_runs (Close s) ?x" unfolding close_runs_def by (meson converse_rtranclp_into_rtranclp r_into_rtranclp)
  then show ?thesis by (intro exI [of _ ?x]) simp
qed

text \<open>The outcome on the schedule of the handlers.\<close>

lemma close_and_wait_eq:
  assumes "se_dataConn s"
  shows "close_and_wait s =
    (if se_receivers s = 0 then Hang else if se_receivers s = 1 then Ret ()
     else Panic ''close of closed channel'')"
proof -
  consider "se_receivers s = 0" | "se_receivers s = 1" | "2 \<le> se_receivers s" by linarith
  then show ?thesis
  proof cases
    case 3
    then have "[0..<se_receivers s] = 0 # 1 # [2..<se_receivers s]" by (simp add: upt_conv_Cons numeral_2_eq_2)
    with 3 show ?thesis by (simp add: close_and_wait_def Close_def receiver_turn_def)
  qed (use assms in \<open>simp_all add: close_and_wait_def Close_def receiver_turn_def\<close>)
qed

section \<open>Properties\<close>

lemma receive_all_plain:
  "list_all (\<lambda>p. length p \<le> readBuffer) dgs \<Longrightarrow> receive_all aes None dgs = Ret dgs"
  by (induction dgs) simp_all

lemma receive_all_short:
  assumes "length (aesKey d) \<in> {16, 24, 32}" and "length (aesIv d) = 16"
    and "list_all (\<lambda>p. 12 \<le> length p) dgs" and "length dg < 12"
  shows "receive_all aes (Some d) (dgs @ dg # later) = Panic ''runtime error: slice bounds out of range''"
  using assms(3)
proof (induction dgs)
  case Nil
  then show ?case using assms by (simp add: Decode_def readBuffer_def)
next
  case (Cons p dgs)
  then have "\<exists>q r. Decode aes d (take readBuffer p) = Ret (q, r)"
    using assms(1,2) by (auto simp: Decode_def Let_def readBuffer_def)
  with Cons show ?case by auto
qed

text \<open>
  The receiver hands on the datagrams of an unencrypted session unchanged and in order (up to
  its 16 KiB buffer), but in an encrypted session a single datagram of fewer than 12 bytes, which
  any host can send, makes the decrypter slice beyond the packet and takes the process down.
\<close>

theorem short_packet_crashes_receiver:
  assumes "length (aesKey d) \<in> {16, 24, 32}" and "length (aesIv d) = 16"
    and "list_all (\<lambda>p. 12 \<le> length p \<and> length p \<le> 16384) dgs" and "length dg < 12"
  shows "receive_all aes None (dgs @ [dg]) = Ret (dgs @ [dg])
    \<and> receive_all aes (Some d) (dgs @ dg # later) = Panic ''runtime error: slice bounds out of range''"
proof -
  have "list_all (\<lambda>p. length p \<le> readBuffer) (dgs @ [dg])"
    using assms(3,4) by (auto simp: list_all_iff readBuffer_def)
  moreover have "list_all (\<lambda>p. 12 \<le> length p) dgs" using assms(3) by (auto simp: list_all_iff)
  ultimately show ?thesis
    using assms(1,2,4) by (simp only: receive_all_plain receive_all_short)
qed

theorem short_packet_crashes_receiver_witness:
  "receive_all (\<lambda>k b. b) (Some (NewAesDecrypter (replicate 16 (CHR ''k'')) (replicate 16 (CHR ''v''))))
     (''abcdefghijklmnop'' # ''short'' # []) = Panic ''runtime error: slice bounds out of range''"
  using short_packet_crashes_receiver
    [of "NewAesDecrypter (replicate 16 (CHR ''k'')) (replicate 16 (CHR ''v''))" "[''abcdefghijklmnop'']"
      "''short''" "\<lambda>k b. b" "[]"]
  by (simp add: NewAesDecrypter_def del: receive_all.simps)

end
