(* ===== verification/Volume.thy ===== *)
theory Volume
  imports Complex_Main "HOL-Library.Log_Nat" Daap
begin

text \<open>
  Volumes and samples: \<^verbatim>\<open>normalizeVolume\<close> (\<^verbatim>\<open>raop/airplay.go\<close>), \<^verbatim>\<open>prepareVolume\<close>
  (\<^verbatim>\<open>player/forwarding/forwardingPlayer.go\<close>) and \<^verbatim>\<open>AdjustAudio\<close> (\<^verbatim>\<open>player/player.go\<close>).

  A \<^verbatim>\<open>float64\<close> is a rational or one of the special values; every operation rounds its exact result
  to the nearest number with a 53-bit significand, ties to even (\<open>rnd\<close>). Overflow and subnormal
  numbers do not occur at the magnitudes of volumes and samples and are left out: the exponent is
  unbounded. A negative zero is not told apart from zero, which no comparison of the code does
  either.
\<close>

section \<open>Rounding\<close>

text \<open>The nearest integer, ties to even.\<close>

definition round_even :: "rat \<Rightarrow> int" where
  "round_even x =
     (let n = \<lfloor>x\<rfloor>; d = x - of_int n in
      if d < 1 / 2 \<or> (d = 1 / 2 \<and> even n) then n else n + 1)"

text \<open>The exponent \<open>e\<close> of a positive number: 2 to the \<open>e\<close> is its greatest power of two.\<close>

definition expo :: "rat \<Rightarrow> int" where
  "expo x =
     (case quotient_of x of
        (a, b) \<Rightarrow>
          let e = int (floorlog 2 (nat a)) - int (floorlog 2 (nat b)) in
          if 2 powi e \<le> x then e else e - 1)"

definition ulp :: "int \<Rightarrow> rat" where
  "ulp e = 2 powi (e - 52)"

definition rnd :: "rat \<Rightarrow> rat" where
  "rnd x =
     (if x = 0 then 0
      else let u = ulp (expo \<bar>x\<bar>) in of_int (round_even (x / u)) * u)"

lemma round_even_bounds:
  "of_int (round_even x) - 1 / 2 \<le> x" "x \<le> of_int (round_even x) + 1 / 2"
  unfolding round_even_def Let_def by (auto split: if_splits) linarith+

lemma round_even_of_int [simp]: "round_even (of_int n) = n"
  by (simp add: round_even_def)

lemma round_even_half:
  assumes "x = of_int n + 1 / 2"
  shows "round_even x = (if even n then n else n + 1)"
proof -
  have "\<lfloor>x\<rfloor> = n" using assms by (simp add: floor_unique)
  with assms show ?thesis by (simp add: round_even_def Let_def)
qed

lemma round_even_mono: "x \<le> y \<Longrightarrow> round_even x \<le> round_even y"
proof (rule ccontr)
  assume "x \<le> y" and "\<not> round_even x \<le> round_even y"
  then have "of_int (round_even y) + 1 \<le> (of_int (round_even x) :: rat)" by linarith
  with round_even_bounds [of x] round_even_bounds [of y] \<open>x \<le> y\<close> have "x = y" by linarith
  with \<open>\<not> round_even x \<le> round_even y\<close> show False by simp
qed

lemma expo_bounds:
  assumes "0 < x"
  shows "2 powi expo x \<le> x" "x < 2 powi (expo x + 1)"
proof -
  obtain a b where q: "quotient_of x = (a, b)" by (cases "quotient_of x")
  then have b: "0 < b" and x: "x = of_int a / of_int b"
    by (simp_all add: quotient_of_denom_pos quotient_of_div)
  with assms have a: "0 < a" by (simp add: zero_less_divide_iff)
  define la lb where l: "la = int (floorlog 2 (nat a))" "lb = int (floorlog 2 (nat b))"
  have bounds: "2 powi (int (floorlog 2 (nat n)) - 1) \<le> (of_int n :: rat)"
    "(of_int n :: rat) < 2 powi int (floorlog 2 (nat n))" if "0 < n" for n
  proof -
    let ?k = "floorlog 2 (nat n)"
    have "0 < ?k" using that by (simp add: floorlog_def)
    then have k: "int ?k - 1 = int (?k - 1)" by simp
    have "2 ^ (?k - 1) \<le> nat n" "nat n < 2 ^ ?k" using that floorlog_bounds [of "nat n" 2] by simp_all
    then have "2 ^ (?k - 1) \<le> n" "n < 2 ^ ?k" using that by (simp_all add: nat_less_iff le_nat_iff)
    then show "2 powi (int ?k - 1) \<le> (of_int n :: rat)" "(of_int n :: rat) < 2 powi int ?k"
      unfolding k power_int_of_nat by (metis of_int_le_iff of_int_less_iff of_int_numeral of_int_power)+
  qed
  have "x < 2 powi la / 2 powi (lb - 1)"
    unfolding x l using bounds [OF a] bounds [OF b] by (intro frac_less) (use a b in simp_all)
  moreover have "2 powi (la - 1) / 2 powi lb < x"
    unfolding x l using bounds [OF a] bounds [OF b] by (intro frac_less2) (use a b in simp_all)
  ultimately have "x < 2 powi (la - lb + 1)" "2 powi (la - lb - 1) < x"
    by (simp_all add: power_int_diff power_int_add)
  then show "2 powi expo x \<le> x" "x < 2 powi (expo x + 1)"
    by (auto simp: expo_def q Let_def simp flip: l)
qed

lemma ulp_pos [simp]: "0 < ulp e" by (simp add: ulp_def)

lemma ulp_nonzero: "ulp e \<noteq> 0" by (simp add: ulp_def)

lemma expo_mono: "0 < x \<Longrightarrow> x \<le> y \<Longrightarrow> expo x \<le> expo y"
proof (rule ccontr)
  assume "0 < x" "x \<le> y" "\<not> expo x \<le> expo y"
  then have "2 powi (expo y + 1) \<le> (2 :: rat) powi expo x" by (intro power_int_increasing) auto
  with \<open>0 < x\<close> \<open>x \<le> y\<close> expo_bounds [of x] expo_bounds [of y] show False by linarith
qed

text \<open>An integral multiple of the unit in the last place is a fixed point and a barrier.\<close>

lemma rnd_pos: "0 < x \<Longrightarrow> rnd x = of_int (round_even (x / ulp (expo x))) * ulp (expo x)"
  by (simp add: rnd_def Let_def)

lemma rnd_pos_bounds:
  assumes "0 < x"
  shows "2 powi expo x \<le> rnd x" "rnd x \<le> 2 powi (expo x + 1)"
proof -
  let ?u = "ulp (expo x)"
  have p: "2 powi expo x = of_int (2 ^ 52) * ?u" "2 powi (expo x + 1) = of_int (2 ^ 53) * ?u"
    using power_int_add [of "2 :: rat" 52 "expo x - 52"] power_int_add [of "2 :: rat" 53 "expo x - 52"]
    by (simp_all add: ulp_def add.commute)
  have "of_int (2 ^ 52) \<le> x / ?u" "x / ?u \<le> of_int (2 ^ 53)"
    using expo_bounds [OF assms] unfolding p by (simp_all add: field_simps)
  then have "2 ^ 52 \<le> round_even (x / ?u)" "round_even (x / ?u) \<le> 2 ^ 53"
    by (metis round_even_mono round_even_of_int)+
  then have "(of_int (2 ^ 52) :: rat) \<le> of_int (round_even (x / ?u))"
    "(of_int (round_even (x / ?u)) :: rat) \<le> of_int (2 ^ 53)" by (simp_all only: of_int_le_iff)
  then show "2 powi expo x \<le> rnd x" "rnd x \<le> 2 powi (expo x + 1)"
    unfolding p rnd_pos [OF assms] by (simp_all only: mult_right_mono ulp_pos less_imp_le)
qed

lemma rnd_mono_pos: "0 < x \<Longrightarrow> x \<le> y \<Longrightarrow> rnd x \<le> rnd y"
proof -
  assume x: "0 < x" and xy: "x \<le> y"
  then have y: "0 < y" by simp
  show ?thesis
  proof (cases "expo x = expo y")
    case True
    have "round_even (x / ulp (expo y)) \<le> round_even (y / ulp (expo y))"
      using xy by (intro round_even_mono divide_right_mono) (simp_all add: less_imp_le)
    then show ?thesis using True by (simp add: rnd_pos [OF x] rnd_pos [OF y])
  next
    case False
    then have "expo x + 1 \<le> expo y" using expo_mono [OF x xy] by simp
    then have "(2 :: rat) powi (expo x + 1) \<le> 2 powi expo y" by (intro power_int_increasing) auto
    with rnd_pos_bounds [OF x] rnd_pos_bounds [OF y] show ?thesis by linarith
  qed
qed

lemma round_even_minus: "round_even (- x) = - round_even x"
proof (cases "x = of_int \<lfloor>x\<rfloor> + 1 / 2")
  case True
  then have "- x = of_int (- \<lfloor>x\<rfloor> - 1) + 1 / 2" by simp
  from round_even_half [OF this] round_even_half [OF True] show ?thesis by simp
next
  case False
  have frac: "x - of_int \<lfloor>x\<rfloor> \<noteq> 1 / 2" using False by linarith
  have "\<bar>x - of_int (round_even x)\<bar> < 1 / 2"
    using frac floor_correct [of x] by (auto simp: round_even_def Let_def)
  moreover have "\<bar>- x - of_int (round_even (- x))\<bar> \<le> 1 / 2"
    using round_even_bounds [of "- x"] by linarith
  ultimately have "\<bar>of_int (round_even (- x)) + of_int (round_even x)\<bar> < (1 :: rat)" by linarith
  then have "\<bar>round_even (- x) + round_even x\<bar> < 1" by linarith
  then show ?thesis by simp
qed

lemma rnd_minus: "rnd (- x) = - rnd x"
  by (simp add: rnd_def Let_def round_even_minus)

lemma rnd_0 [simp]: "rnd 0 = 0" by (simp add: rnd_def)

lemma rnd_pos_pos: "0 < x \<Longrightarrow> 0 < rnd x"
  using rnd_pos_bounds(1) [of x] by (meson less_le_trans zero_less_numeral zero_less_power_int)

lemma rnd_mono: "x \<le> y \<Longrightarrow> rnd x \<le> rnd y"
proof -
  assume xy: "x \<le> y"
  consider "0 < x" | "x \<le> 0" "0 \<le> y" | "y < 0" by linarith
  then show ?thesis
  proof cases
    case 1
    then show ?thesis using xy by (rule rnd_mono_pos)
  next
    case 2
    have "rnd x \<le> 0" using 2 rnd_pos_pos [of "- x"] by (cases "x = 0") (auto simp: rnd_minus)
    moreover have "0 \<le> rnd y" using 2 rnd_pos_pos [of y] by (cases "y = 0") auto
    ultimately show ?thesis by simp
  next
    case 3
    then have "rnd (- y) \<le> rnd (- x)" using xy by (intro rnd_mono_pos) auto
    then show ?thesis by (simp add: rnd_minus)
  qed
qed

text \<open>Integers of at most 53 bits are represented exactly.\<close>

lemma rnd_of_int: "\<bar>n\<bar> \<le> 2 ^ 52 \<Longrightarrow> rnd (of_int n) = of_int n"
proof -
  have pos: "rnd (of_int n) = of_int n" if n: "0 < n" "n \<le> 2 ^ 52" for n
  proof -
    let ?e = "expo (of_int n)"
    have x: "0 < (of_int n :: rat)" using n by simp
    have "(of_int n :: rat) \<le> of_int (2 ^ 52)" using n(2) by (simp only: of_int_le_iff)
    then have le: "2 powi ?e \<le> (2 :: rat) powi 52" using expo_bounds(1) [OF x] by simp
    have "?e \<le> 52"
    proof (rule ccontr)
      assume "\<not> ?e \<le> 52"
      then have "(2 :: rat) powi 53 \<le> 2 powi ?e" by (intro power_int_increasing) auto
      with le show False by simp
    qed
    then obtain k where k: "52 - ?e = int k" using nonneg_int_cases [of "52 - ?e"] by auto
    have "1 / ulp ?e = (2 :: rat) powi (52 - ?e)"
      by (simp add: ulp_def power_int_diff field_simps)
    also have "\<dots> = of_int (2 ^ k)" unfolding k by simp
    finally have u: "1 / ulp ?e = of_int (2 ^ k)" .
    have "of_int n / ulp ?e = of_int n * (1 / ulp ?e)" by simp
    also have "\<dots> = of_int (n * 2 ^ k)" unfolding u by simp
    finally have "round_even (of_int n / ulp ?e) = n * 2 ^ k" by (simp only: round_even_of_int)
    then have "rnd (of_int n) = of_int (n * 2 ^ k) * ulp ?e" by (simp add: rnd_pos [OF x])
    also have "\<dots> = of_int n * ((1 / ulp ?e) * ulp ?e)" unfolding u by simp
    also have "\<dots> = of_int n" using ulp_nonzero [of ?e] by simp
    finally show ?thesis .
  qed
  assume n: "\<bar>n\<bar> \<le> 2 ^ 52"
  consider "0 < n" | "n = 0" | "0 < - n" by linarith
  then show "rnd (of_int n) = of_int n"
  proof cases
    case 1
    then show ?thesis using n pos by simp
  next
    case 3
    then have "rnd (of_int (- n)) = of_int (- n)" using n by (intro pos) auto
    then show ?thesis by (simp add: rnd_minus)
  qed simp
qed

text \<open>Rounding moves a number by half a unit in the last place, so by at most one part in 2 to the 53.\<close>

lemma round_unit_error:
  assumes "0 < u"
  shows "\<bar>of_int (round_even (x / u)) * u - x\<bar> \<le> u / 2"
proof -
  have "\<bar>of_int (round_even (x / u)) - x / u\<bar> \<le> 1 / 2" using round_even_bounds [of "x / u"] by linarith
  then have "\<bar>of_int (round_even (x / u)) - x / u\<bar> * u \<le> 1 / 2 * u"
    using assms by (intro mult_right_mono) simp_all
  also have "\<bar>of_int (round_even (x / u)) - x / u\<bar> * u = \<bar>(of_int (round_even (x / u)) - x / u) * u\<bar>"
    using assms by (simp add: abs_mult)
  also have "\<dots> = \<bar>of_int (round_even (x / u)) * u - x\<bar>" using assms by (simp add: left_diff_distrib)
  finally show ?thesis by simp
qed

lemma rnd_error_pos:
  assumes "0 < x"
  shows "\<bar>rnd x - x\<bar> \<le> x / 2 ^ 53"
proof -
  have "ulp (expo x) = 2 powi expo x / 2 ^ 52" by (simp add: ulp_def power_int_diff)
  then have "ulp (expo x) / 2 \<le> x / 2 ^ 53" using expo_bounds(1) [OF assms] by simp
  with round_unit_error [of "ulp (expo x)" x] show ?thesis by (simp add: rnd_pos [OF assms])
qed

lemma rnd_error: "\<bar>rnd x - x\<bar> \<le> \<bar>x\<bar> / 2 ^ 53"
  using rnd_error_pos [of x] rnd_error_pos [of "- x"] by (cases "x = 0"; cases "0 < x") (auto simp: rnd_minus)

text \<open>Rounding to \<^verbatim>\<open>float32\<close>, which has 24 bits: \<^verbatim>\<open>ParseFloat(s, 32)\<close> returns such a number as a \<^verbatim>\<open>float64\<close>.\<close>

definition rnd32 :: "rat \<Rightarrow> rat" where
  "rnd32 x =
     (if x = 0 then 0
      else let u = 2 powi (expo \<bar>x\<bar> - 23) in of_int (round_even (x / u)) * u)"

lemma rnd32_0 [simp]: "rnd32 0 = 0" by (simp add: rnd32_def)

lemma rnd32_error:
  assumes "\<bar>x\<bar> < 32"
  shows "\<bar>rnd32 x - x\<bar> \<le> 1 / 1048576"
proof (cases "x = 0")
  case False
  let ?e = "expo \<bar>x\<bar>"
  have less: "2 powi ?e < (2 :: rat) powi 5" using expo_bounds(1) [of "\<bar>x\<bar>"] False assms by simp
  have "?e < 5"
  proof (rule ccontr)
    assume "\<not> ?e < 5"
    then have "(2 :: rat) powi 5 \<le> 2 powi ?e" by (intro power_int_increasing) auto
    with less show False by simp
  qed
  then have "(2 :: rat) powi (?e - 23) \<le> 2 powi (- 19)" by (intro power_int_increasing) auto
  also have "(2 :: rat) powi (- 19) = 1 / 524288" by (simp add: power_int_minus)
  finally show ?thesis
    using round_unit_error [of "2 powi (?e - 23)" x] False by (simp add: rnd32_def Let_def)
qed simp

lemma rnd32_mute: "rnd32 (- 144) = - 144"
  by code_simp

section \<open>Floating-point numbers\<close>

datatype float64 = Fin rat | PosInf | NegInf | NaN

fun feq :: "float64 \<Rightarrow> float64 \<Rightarrow> bool" where
  "feq (Fin a) (Fin b) = (a = b)"
| "feq PosInf PosInf = True"
| "feq NegInf NegInf = True"
| "feq _ _ = False"

text \<open>The operations of the code with a finite constant on the right.\<close>

fun fadd :: "float64 \<Rightarrow> rat \<Rightarrow> float64" where
  "fadd (Fin a) c = Fin (rnd (a + c))"
| "fadd x c = x"

definition fsub :: "float64 \<Rightarrow> rat \<Rightarrow> float64" where
  "fsub x c = fadd x (- c)"

text \<open>Multiplication and division by a positive constant.\<close>

fun fmul :: "float64 \<Rightarrow> rat \<Rightarrow> float64" where
  "fmul (Fin a) c = Fin (rnd (a * c))"
| "fmul x c = x"

fun fdiv :: "float64 \<Rightarrow> rat \<Rightarrow> float64" where
  "fdiv (Fin a) c = Fin (rnd (a / c))"
| "fdiv x c = x"

section \<open>AirPlay volumes\<close>

definition normalizeVolume :: "float64 \<Rightarrow> float64" where
  "normalizeVolume volume =
     (if feq volume (Fin (- 144)) then Fin 0
      else if feq volume (Fin 0) then Fin 1
      else fdiv (fadd volume 30) 30)"

definition prepareVolume :: "float64 \<Rightarrow> float64" where
  "prepareVolume vol =
     (if feq vol (Fin 0) then Fin (- 144)
      else if feq vol (Fin 1) then Fin 0
      else fsub (fmul vol 30) 30)"

section \<open>Samples\<close>

text \<open>
  A finite \<^verbatim>\<open>float64\<close> scale factor times a sample, truncated to \<^verbatim>\<open>int16\<close>; the factor of
  \<^verbatim>\<open>AdjustAudio\<close> is a volume between 0 and 1, so the product is a 16-bit number.
\<close>

definition trunc :: "rat \<Rightarrow> int" where
  "trunc x = (if 0 \<le> x then \<lfloor>x\<rfloor> else \<lceil>x\<rceil>)"

definition adjust_sample :: "rat \<Rightarrow> 16 word \<Rightarrow> 16 word" where
  "adjust_sample vol val =
     (let m = rnd (vol * of_int (sint val)); v = word_of_int (trunc m) :: 16 word;
          v' = (if sint v > 32767 then 32767 else v) in
      if sint v' < -32767 then - 32767 else v')"

definition le16 :: "char \<Rightarrow> char \<Rightarrow> 16 word" where
  "le16 lo hi = or (ucast (char_byte lo)) (push_bit 8 (ucast (char_byte hi)))"

definition put16 :: "16 word \<Rightarrow> string" where
  "put16 w = [byte_char (ucast w), byte_char (ucast (drop_bit 8 w))]"

text \<open>
  \<^verbatim>\<open>AdjustAudio\<close> on a frame without spare capacity: an odd last byte makes the slice panic.
\<close>

fun adjust_all :: "rat \<Rightarrow> string \<Rightarrow> string res" where
  "adjust_all vol [] = Ret []"
| "adjust_all vol [c] = Panic ''runtime error: slice bounds out of range''"
| "adjust_all vol (lo # hi # raw) =
     res_bind (adjust_all vol raw) (\<lambda>r. Ret (put16 (adjust_sample vol (le16 lo hi)) @ r))"

definition AdjustAudio :: "string \<Rightarrow> rat \<Rightarrow> string res" where
  "AdjustAudio raw vol = (if vol = 1 then Ret raw else adjust_all vol raw)"

text \<open>The scaled sample lies between 0 and the sample.\<close>

lemma scaled_between:
  assumes "0 \<le> vol" and "vol \<le> 1" and "\<bar>n\<bar> \<le> 2 ^ 52"
  shows "0 \<le> n \<Longrightarrow> 0 \<le> trunc (rnd (vol * of_int n)) \<and> trunc (rnd (vol * of_int n)) \<le> n"
    and "n \<le> 0 \<Longrightarrow> n \<le> trunc (rnd (vol * of_int n)) \<and> trunc (rnd (vol * of_int n)) \<le> 0"
proof -
  note r = rnd_of_int [OF assms(3)]
  show "0 \<le> trunc (rnd (vol * of_int n)) \<and> trunc (rnd (vol * of_int n)) \<le> n" if "0 \<le> n"
  proof -
    have "0 \<le> vol * of_int n" "vol * of_int n \<le> of_int n"
      using assms that by (simp_all add: mult_left_le_one_le)
    then have "0 \<le> rnd (vol * of_int n)" "rnd (vol * of_int n) \<le> of_int n"
      using rnd_mono [of 0] rnd_mono [of _ "of_int n"] r by auto
    then show ?thesis by (simp add: trunc_def floor_le_iff)
  qed
  show "n \<le> trunc (rnd (vol * of_int n)) \<and> trunc (rnd (vol * of_int n)) \<le> 0" if "n \<le> 0"
  proof -
    have "vol * of_int n \<le> 0" "of_int n \<le> vol * of_int n"
      using assms that by (simp_all add: mult_nonneg_nonpos mult_le_cancel_right1)
    then have "rnd (vol * of_int n) \<le> 0" "of_int n \<le> rnd (vol * of_int n)"
      using rnd_mono [of _ 0] rnd_mono [of "of_int n"] r by auto
    then show ?thesis by (auto simp: trunc_def le_ceiling_iff)
  qed
qed

lemma sint16_bounds: "- 32768 \<le> sint w" "sint w \<le> 32767" for w :: "16 word"
  using sint_ge [of w] sint_lt [of w] by simp_all

lemma sint_adjust_sample:
  assumes "0 \<le> vol" and "vol \<le> 1"
  shows "sint (adjust_sample vol val) = max (- 32767) (trunc (rnd (vol * of_int (sint val))))"
proof -
  let ?t = "trunc (rnd (vol * of_int (sint val)))"
  note s = sint16_bounds [of val]
  then have "- 32768 \<le> ?t" "?t \<le> 32767"
    using scaled_between [OF assms, of "sint val"] by (cases "0 \<le> sint val"; force)+
  then have "sint (word_of_int ?t :: 16 word) = ?t"
    by (simp add: signed_of_int signed_take_bit_int_eq_self)
  with \<open>?t \<le> 32767\<close> show ?thesis by (simp add: adjust_sample_def Let_def max_def)
qed

section \<open>Properties\<close>

text \<open>
  C34. \<^verbatim>\<open>normalizeVolume\<close> maps the AirPlay scale onto the player's: mute (-144) to 0, no attenuation
  (0) to 1, and every finite volume from -30 to 0 into the interval from 0 to 1, louder to at
  least as loud, in spite of the rounding of \<^verbatim>\<open>float64\<close>.
\<close>

theorem normalizeVolume_range:
  assumes "-30 \<le> v" and "v \<le> w" and "w \<le> 0"
  shows "normalizeVolume (Fin (- 144)) = Fin 0 \<and> normalizeVolume (Fin 0) = Fin 1
    \<and> (\<exists>x y. normalizeVolume (Fin v) = Fin x \<and> normalizeVolume (Fin w) = Fin y
        \<and> 0 \<le> x \<and> x \<le> y \<and> y \<le> 1)"
proof -
  have r: "rnd 30 = 30" "rnd 1 = 1" using rnd_of_int [of 30] rnd_of_int [of 1] by simp_all
  define f where "f v = rnd (rnd (v + 30) / 30)" for v
  have mono: "f v \<le> f w" if "v \<le> w" for v w
    unfolding f_def using that by (intro rnd_mono divide_right_mono) auto
  have ends: "f (- 30) = 0" "f 0 = 1" by (simp_all add: f_def r)
  have n: "normalizeVolume (Fin v) = Fin (f v)" if "-30 \<le> v" "v \<le> 0" for v
    using that ends(2) by (auto simp: normalizeVolume_def f_def)
  have "0 \<le> f v" "f v \<le> f w" "f w \<le> 1"
    using mono [of "-30" v] mono [of v w] mono [of w 0] ends assms by simp_all
  moreover have "normalizeVolume (Fin v) = Fin (f v)" "normalizeVolume (Fin w) = Fin (f w)"
    using assms n by simp_all
  moreover have "normalizeVolume (Fin (- 144)) = Fin 0" "normalizeVolume (Fin 0) = Fin 1"
    by (simp_all add: normalizeVolume_def)
  ultimately show ?thesis by blast
qed

theorem normalizeVolume_range_witness:
  "\<exists>x y. normalizeVolume (Fin (- 20)) = Fin x \<and> normalizeVolume (Fin (- 15)) = Fin y
     \<and> 0 \<le> x \<and> x \<le> y \<and> y \<le> 1"
  using normalizeVolume_range [of "- 20" "- 15"] by simp

text \<open>
  C35. Scaling a sample by a volume between 0 and 1 never makes it louder, keeps its sign, and
  silences it at volume 0, with the product rounded as \<^verbatim>\<open>float64\<close> and truncated to 16 bits.
\<close>

theorem adjust_sample_attenuates:
  assumes "0 \<le> vol" and "vol \<le> 1"
  shows "\<bar>sint (adjust_sample vol val)\<bar> \<le> \<bar>sint val\<bar>
    \<and> (0 \<le> sint val \<longrightarrow> 0 \<le> sint (adjust_sample vol val))
    \<and> (sint val \<le> 0 \<longrightarrow> sint (adjust_sample vol val) \<le> 0)
    \<and> adjust_sample 0 val = 0"
proof -
  have "sint (adjust_sample vol val) = max (- 32767) (trunc (rnd (vol * of_int (sint val))))"
    using sint_adjust_sample [OF assms] .
  moreover have "adjust_sample 0 val = 0" by (simp add: adjust_sample_def trunc_def)
  moreover have "\<bar>sint val\<bar> \<le> 2 ^ 52" using sint16_bounds [of val] by simp
  note scaled_between [OF assms this]
  ultimately show ?thesis by (cases "0 \<le> sint val") auto
qed

theorem adjust_sample_attenuates_witness:
  "\<bar>sint (adjust_sample (1 / 2) 1001)\<bar> \<le> 1001 \<and> 0 \<le> sint (adjust_sample (1 / 2) 1001)"
  using adjust_sample_attenuates [of "1 / 2" 1001] by auto

end
