(* ===== verification/Player.thy ===== *)
theory Player
  imports Session Volume
begin

text \<open>
  The player interface of \<^verbatim>\<open>player/player.go\<close>, the local player that implements it, and the choice
  of codec (\<^verbatim>\<open>player/codec.go\<close>).

  A Go interface value is a record of its methods (\<open>player_ops\<close>) over the state of the player behind
  it. The locale \<open>player\<close> states what the AirPlay server relies on: the setters do not fail, and
  changing the volume, the track or the artwork does not change whether the player is muted.
\<close>

section \<open>The interface\<close>

record track =
  tr_Artist :: string
  tr_Album :: string
  tr_Title :: string
  tr_Artwork :: string

definition no_track :: track where
  "no_track = \<lparr>tr_Artist = [], tr_Album = [], tr_Title = [], tr_Artwork = []\<rparr>"

record 'p player_ops =
  pl_Play :: "session \<Rightarrow> ('p, unit) proc"
  pl_SetVolume :: "float64 \<Rightarrow> ('p, unit) proc"
  pl_SetMute :: "bool \<Rightarrow> ('p, unit) proc"
  pl_GetIsMuted :: "('p, bool) proc"
  pl_SetTrack :: "string \<Rightarrow> string \<Rightarrow> string \<Rightarrow> ('p, unit) proc"
  pl_SetAlbumArt :: "string \<Rightarrow> ('p, unit) proc"
  pl_GetTrack :: "('p, track) proc"

text \<open>
  The laws, for the states \<open>ok\<close> of a working player: a setter returns and keeps the state working;
  only \<open>SetMute\<close> changes what \<open>GetIsMuted\<close> answers, and the queries change nothing.
\<close>

locale player =
  fixes ops :: "'p player_ops"
    and ok :: "'p \<Rightarrow> bool"
    and muted :: "'p \<Rightarrow> bool"
  assumes play: "ok p \<Longrightarrow> \<exists>p'. pl_Play ops s p = (Ret (), p') \<and> ok p' \<and> muted p' = muted p"
    and set_volume: "ok p \<Longrightarrow> \<exists>p'. pl_SetVolume ops v p = (Ret (), p') \<and> ok p' \<and> muted p' = muted p"
    and set_mute: "ok p \<Longrightarrow> \<exists>p'. pl_SetMute ops b p = (Ret (), p') \<and> ok p'"
    and set_track:
      "ok p \<Longrightarrow> \<exists>p'. pl_SetTrack ops album artist title p = (Ret (), p') \<and> ok p' \<and> muted p' = muted p"
    and set_art: "ok p \<Longrightarrow> \<exists>p'. pl_SetAlbumArt ops art p = (Ret (), p') \<and> ok p' \<and> muted p' = muted p"
    and is_muted: "ok p \<Longrightarrow> pl_GetIsMuted ops p = (Ret (muted p), p)"
    and get_track: "ok p \<Longrightarrow> \<exists>t. pl_GetTrack ops p = (Ret t, p)"

section \<open>The local player\<close>

record local_player =
  lp_volume :: float64

definition NewLocalPlayer :: local_player where
  "NewLocalPlayer = \<lparr>lp_volume = Fin 1\<rparr>"

text \<open>Everything but the volume is a no-op; \<open>Play\<close> starts the goroutine \<open>playStream\<close> below.\<close>

definition local_player_ops :: "local_player player_ops" where
  "local_player_ops =
     \<lparr>pl_Play = (\<lambda>session. retP ()),
      pl_SetVolume = (\<lambda>volume lp. (Ret (), lp\<lparr>lp_volume := volume\<rparr>)),
      pl_SetMute = (\<lambda>isMuted. retP ()),
      pl_GetIsMuted = retP False,
      pl_SetTrack = (\<lambda>album artist title. retP ()),
      pl_SetAlbumArt = (\<lambda>artwork. retP ()),
      pl_GetTrack = retP no_track\<rparr>"

interpretation local_player: player local_player_ops "\<lambda>_. True" "\<lambda>_. False"
  by unfold_locales (simp_all add: local_player_ops_def)

section \<open>Codecs\<close>

text \<open>\<open>alac\<close> stands for the Apple Lossless decoder, a library.\<close>

type_synonym codec_handler = "string \<Rightarrow> string res"

definition GetCodec :: "codec_handler \<Rightarrow> session \<Rightarrow> codec_handler" where
  "GetCodec alac session =
     (let rtpmap = (case sd_Attributes (se_Description session) ''rtpmap'' of None \<Rightarrow> [] | Some v \<Rightarrow> v) in
      if contains ''AppleLossless'' rtpmap then alac else Ret)"

text \<open>
  The loop of \<^verbatim>\<open>playStream\<close>: every packet is decoded and its audio handed to the device; a packet
  that does not decode plays as nothing.
\<close>

primrec play_stream :: "codec_handler \<Rightarrow> string list \<Rightarrow> string list res" where
  "play_stream decoder [] = Ret []"
| "play_stream decoder (d # ds) =
     (case decoder d of
        Ret decoded \<Rightarrow> res_bind (play_stream decoder ds) (\<lambda>out. Ret (decoded # out))
      | Err e \<Rightarrow> res_bind (play_stream decoder ds) (\<lambda>out. Ret ([] # out))
      | Panic e \<Rightarrow> Panic e
      | Exit e \<Rightarrow> Exit e
      | Hang \<Rightarrow> Hang)"

definition playStream :: "codec_handler \<Rightarrow> session \<Rightarrow> string list \<Rightarrow> string list res" where
  "playStream alac session packets = play_stream (GetCodec alac session) packets"

end
