(* ===== verification/Rtsp_Types.thy ===== *)
theory Rtsp_Types
  imports Go_Strings
begin

text \<open>
  The vocabulary of the RTSP package: \<^verbatim>\<open>rtsp/methods.go\<close>, \<^verbatim>\<open>rtsp/status.go\<close>, the two
  files that \<^verbatim>\<open>stringer\<close> generated from them, and the types and look-up tables of
  \<^verbatim>\<open>rtsp/rtsp.go\<close>. \<^verbatim>\<open>Method\<close> and \<^verbatim>\<open>Status\<close> are Go integer types, so any integer is a
  value of them and the named constants are definitions; the zero \<^verbatim>\<open>Status\<close> of a response
  that no handler has filled in is the number 0.
\<close>

section \<open>Methods\<close>

type_synonym rtsp_method = int

definition Describe :: rtsp_method where
  "Describe = 0"

definition Announce :: rtsp_method where
  "Announce = 1"

definition Get_Parameter :: rtsp_method where
  "Get_Parameter = 2"

definition Options :: rtsp_method where
  "Options = 3"

definition Play :: rtsp_method where
  "Play = 4"

definition Pause :: rtsp_method where
  "Pause = 5"

definition Record :: rtsp_method where
  "Record = 6"

definition Redirect :: rtsp_method where
  "Redirect = 7"

definition Setup :: rtsp_method where
  "Setup = 8"

definition Set_Parameter :: rtsp_method where
  "Set_Parameter = 9"

definition Teardown :: rtsp_method where
  "Teardown = 10"

definition Flush :: rtsp_method where
  "Flush = 11"

lemmas method_defs =
  Describe_def Announce_def Get_Parameter_def Options_def Play_def Pause_def
  Record_def Redirect_def Setup_def Set_Parameter_def Teardown_def Flush_def

text \<open>\<^verbatim>\<open>s[a:b]\<close> on a string.\<close>

definition slice :: "string \<Rightarrow> nat \<Rightarrow> nat \<Rightarrow> string" where
  "slice s a b = take (b - a) (drop a s)"

definition Method_name :: string where
  "Method_name =
     ''DescribeAnnounceGet_ParameterOptionsPlayPauseRecordRedirectSetup'' @
     ''Set_ParameterTeardownFlush''"

definition Method_index :: "nat list" where
  "Method_index = [0, 8, 16, 29, 36, 40, 45, 51, 59, 64, 77, 85, 90]"

definition Method_String :: "rtsp_method \<Rightarrow> string" where
  "Method_String i =
     (if i < 0 \<or> int (length Method_index) - 1 \<le> i then ''Method('' @ Itoa i @ '')''
      else slice Method_name (Method_index ! nat i) (Method_index ! (nat i + 1)))"

definition method_entries :: "(string \<times> rtsp_method) list" where
  "method_entries =
     map (\<lambda>m. (ToLower (Method_String m), m))
       [Describe, Announce, Get_Parameter, Options, Play, Pause,
        Record, Setup, Set_Parameter, Teardown, Flush]"

definition methods :: "string \<rightharpoonup> rtsp_method" where
  "methods = map_of method_entries"

definition getMethod :: "string \<Rightarrow> rtsp_method res" where
  "getMethod s =
     (case methods (ToLower s) of
        None \<Rightarrow> Err (''not a valid method: '' @ s)
      | Some m \<Rightarrow> Ret m)"

text \<open>\<open>ks\<close> is the order in which the loop visits the keys of \<^verbatim>\<open>methods\<close>.\<close>

definition GetMethods :: "string list \<Rightarrow> string list" where
  "GetMethods ks = map ToUpper ks"

section \<open>Statuses\<close>

type_synonym rtsp_status = int

definition status_consts :: "(string \<times> rtsp_status) list" where
  "status_consts =
     [
      (''Continue'', 100), (''Ok'', 200), (''Created'', 201), (''LowOnStorage'', 250),
      (''MultipleChoices'', 300), (''MovedPermanently'', 301), (''MovedTemp'', 301),
      (''SeeOther'', 303), (''UseProxy'', 305), (''BadRequest'', 400),
      (''Unauthorized'', 401), (''PaymentRequired'', 402), (''Forbidden'', 403),
      (''NotFound'', 404), (''MethodNotAllowed'', 405), (''NotAcceptable'', 406),
      (''ProxyAuthenticationRequired'', 407), (''RequestTimeout'', 408), (''Gone'', 410),
      (''LengthRequired'', 411), (''PreconditionFailed'', 412),
      (''RequestEntityTooLarge'', 413), (''RequestURITooLong'', 414),
      (''UnsupportedMediaType'', 415), (''Invalidparameter'', 451),
      (''IllegalConferenceIdentifier'', 452), (''NotEnoughBandwidth'', 453),
      (''SessionNotFound'', 454), (''MethodNotValidInThisState'', 455),
      (''HeaderFieldNotValid'', 456), (''InvalidRange'', 457),
      (''ParameterIsReadOnly'', 458), (''AggregateOperationNotAllowed'', 459),
      (''OnlyAggregateOperationAllowed'', 460), (''UnsupportedTransport'', 461),
      (''DestinationUnreachable'', 462), (''InternalServerError'', 500),
      (''NotImplemented'', 501), (''BadGateway'', 502), (''ServiceUnavailable'', 503),
      (''GatewayTimeout'', 504), (''RTSPVersionNotSupported'', 505),
      (''Optionnotsupport'', 551)]"

definition Ok :: rtsp_status where
  "Ok = 200"

definition BadRequest :: rtsp_status where
  "BadRequest = 400"

definition InternalServerError :: rtsp_status where
  "InternalServerError = 500"

lemmas status_defs = Ok_def BadRequest_def InternalServerError_def

definition Status_name :: string where
  "Status_name =
      ''ContinueOkCreatedLowOnStorageMultipleChoicesMovedPermanentlySeeOtherUs'' @
      ''eProxyBadRequestUnauthorizedPaymentRequiredForbiddenNotFoundMethodNotA'' @
      ''llowedNotAcceptableProxyAuthenticationRequiredRequestTimeoutGoneLength'' @
      ''RequiredPreconditionFailedRequestEntityTooLargeRequestURITooLongUnsupp'' @
      ''ortedMediaTypeInvalidparameterIllegalConferenceIdentifierNotEnoughBand'' @
      ''widthSessionNotFoundMethodNotValidInThisStateHeaderFieldNotValidInvali'' @
      ''dRangeParameterIsReadOnlyAggregateOperationNotAllowedOnlyAggregateOper'' @
      ''ationAllowedUnsupportedTransportDestinationUnreachableInternalServerEr'' @
      ''rorNotImplementedBadGatewayServiceUnavailableGatewayTimeoutRTSPVersion'' @
      ''NotSupportedOptionnotsupport''"

definition Status_slices :: "(rtsp_status \<times> nat \<times> nat) list" where
  "Status_slices =
     [
      (100, 0, 8), (200, 8, 10), (201, 10, 17), (250, 17, 29), (300, 29, 44),
      (301, 44, 60), (303, 60, 68), (305, 68, 76), (400, 76, 86), (401, 86, 98),
      (402, 98, 113), (403, 113, 122), (404, 122, 130), (405, 130, 146), (406, 146, 159),
      (407, 159, 186), (408, 186, 200), (410, 200, 204), (411, 204, 218), (412, 218, 236),
      (413, 236, 257), (414, 257, 274), (415, 274, 294), (451, 294, 310), (452, 310, 337),
      (453, 337, 355), (454, 355, 370), (455, 370, 395), (456, 395, 414), (457, 414, 426),
      (458, 426, 445), (459, 445, 473), (460, 473, 502), (461, 502, 522), (462, 522, 544),
      (500, 544, 563), (501, 563, 577), (502, 577, 587), (503, 587, 605), (504, 605, 619),
      (505, 619, 642), (551, 642, 658)]"

definition Status_String :: "rtsp_status \<Rightarrow> string" where
  "Status_String i =
     (case map_of Status_slices i of
        Some (a, b) \<Rightarrow> slice Status_name a b
      | None \<Rightarrow> ''Status('' @ Itoa i @ '')'')"

definition statuses :: "int \<rightharpoonup> rtsp_status" where
  "statuses = map_of
     [
      (100, 100), (200, 200), (201, 201), (250, 250), (300, 300), (301, 301), (303, 303),
      (305, 305), (400, 400), (401, 401), (402, 402), (403, 403), (404, 404), (405, 405),
      (406, 406), (407, 407), (408, 408), (410, 410), (411, 411), (412, 412), (413, 413),
      (414, 414), (415, 415), (451, 451), (452, 452), (453, 453), (454, 454), (455, 455),
      (456, 456), (457, 457), (458, 458), (459, 459), (460, 460), (461, 461), (462, 462),
      (500, 500), (501, 501), (502, 502), (503, 503), (504, 504), (505, 505), (551, 551)]"

definition getStatus :: "int \<Rightarrow> rtsp_status res" where
  "getStatus n =
     (case statuses n of
        None \<Rightarrow> Err (''not a valid status: '' @ Itoa n)
      | Some s \<Rightarrow> Ret s)"

section \<open>Requests and responses\<close>

record request =
  rq_Method :: rtsp_method
  rq_URI :: string
  rq_protocol :: string
  rq_Headers :: "string \<rightharpoonup> string"
  rq_Body :: string

record response =
  rs_Headers :: "string \<rightharpoonup> string"
  rs_Body :: string
  rs_Status :: rtsp_status
  rs_protocol :: string

definition NewResponse :: response where
  "NewResponse = \<lparr>rs_Headers = Map.empty, rs_Body = [], rs_Status = 0, rs_protocol = []\<rparr>"

definition NewRequest :: request where
  "NewRequest =
     \<lparr>rq_Method = 0, rq_URI = [], rq_protocol = ''RTSP/1.0'', rq_Headers = Map.empty,
      rq_Body = []\<rparr>"

section \<open>The tables\<close>

lemma Method_String_consts:
  "Method_String Describe = ''Describe''"
  "Method_String Announce = ''Announce''"
  "Method_String Get_Parameter = ''Get_Parameter''"
  "Method_String Options = ''Options''"
  "Method_String Play = ''Play''"
  "Method_String Pause = ''Pause''"
  "Method_String Record = ''Record''"
  "Method_String Redirect = ''Redirect''"
  "Method_String Setup = ''Setup''"
  "Method_String Set_Parameter = ''Set_Parameter''"
  "Method_String Teardown = ''Teardown''"
  "Method_String Flush = ''Flush''"
  by (simp_all add: Method_String_def Method_index_def Method_name_def slice_def method_defs)

lemma method_entries_eval:
  "method_entries =
     [(''describe'', 0), (''announce'', 1), (''get_parameter'', 2), (''options'', 3), (''play'', 4),
      (''pause'', 5), (''record'', 6), (''setup'', 8), (''set_parameter'', 9), (''teardown'', 10),
      (''flush'', 11)]"
  by code_simp

definition known_methods :: "rtsp_method list" where
  "known_methods =
     [Describe, Announce, Get_Parameter, Options, Play, Pause, Record, Setup, Set_Parameter,
      Teardown, Flush]"

lemma known_methods_set: "set known_methods = {0..11} - {Redirect}"
  by (auto simp: known_methods_def method_defs) presburger

lemma methods_iff:
  "methods k = Some m \<longleftrightarrow> m \<in> {0..11} - {Redirect} \<and> k = ToLower (Method_String m)"
proof -
  have d: "distinct (map fst method_entries)" by (simp add: method_entries_eval)
  have "methods k = Some m \<longleftrightarrow> (k, m) \<in> set method_entries"
    unfolding methods_def using d by simp
  also have "\<dots> \<longleftrightarrow> m \<in> set known_methods \<and> k = ToLower (Method_String m)"
    by (auto simp: method_entries_def known_methods_def)
  finally show ?thesis unfolding known_methods_set .
qed

lemma getMethod_Ret: "getMethod s = Ret m \<longleftrightarrow> methods (ToLower s) = Some m"
  by (auto simp: getMethod_def split: option.splits)

text \<open>The name a request line carries: upper case, and read back as the same method.\<close>

lemma method_tokens:
  "list_all (\<lambda>m. ToLower (ToUpper (Method_String m)) = ToLower (Method_String m)
       \<and> SP \<notin> set (ToUpper (Method_String m)) \<and> LF \<notin> set (ToUpper (Method_String m))
       \<and> ToUpper (Method_String m) \<noteq> [] \<and> hd (ToUpper (Method_String m)) \<notin> {CR, LF})
     known_methods"
  unfolding known_methods_def list.pred_inject Method_String_consts by code_simp

lemma method_token:
  assumes "m \<in> {0..11} - {Redirect}"
  shows "ToLower (ToUpper (Method_String m)) = ToLower (Method_String m)"
    and "SP \<notin> set (ToUpper (Method_String m))" "LF \<notin> set (ToUpper (Method_String m))"
    and "ToUpper (Method_String m) \<noteq> []" "hd (ToUpper (Method_String m)) \<notin> {CR, LF}"
  using method_tokens assms unfolding list_all_iff known_methods_set by blast+

lemma statuses_dom: "statuses n = (if n \<in> snd ` set status_consts then Some n else None)"
proof -
  let ?codes = "remdups (map snd status_consts)"
  have "statuses = map_of (map (\<lambda>n. (n, n)) ?codes)"
    unfolding statuses_def by (rule arg_cong [where f = map_of]) code_simp
  also have "\<dots> = (\<lambda>n. if n \<in> set ?codes then Some n else None)"
    by (auto simp: map_of_map_restrict restrict_map_def fun_eq_iff)
  finally have "statuses n = (if n \<in> set ?codes then Some n else None)" by (rule fun_cong)
  then show ?thesis by (simp only: set_remdups set_map)
qed

text \<open>
  The slices of the generated name table cut it into consecutive pieces, so one pass over
  the long string evaluates all of them.
\<close>

fun cut :: "string \<Rightarrow> nat list \<Rightarrow> string list" where
  "cut s [] = []"
| "cut s (n # ns) = take n s # cut (drop n s) ns"

fun offsets :: "nat \<Rightarrow> nat list \<Rightarrow> (nat \<times> nat) list" where
  "offsets a [] = []"
| "offsets a (n # ns) = (a, a + n) # offsets (a + n) ns"

lemma slices_are_cuts: "map (\<lambda>(a, b). slice s a b) (offsets a ns) = cut (drop a s) ns"
  by (induction ns arbitrary: a) (simp_all add: slice_def add.commute)

lemma Status_slices_eval:
  "map (\<lambda>(a, b). slice Status_name a b) (map snd Status_slices) =
     map fst (filter (\<lambda>(nm, n). nm \<noteq> ''MovedTemp'') status_consts)"
proof -
  let ?lens = "map (\<lambda>(n, a, b). b - a) Status_slices"
  have "map snd Status_slices = offsets 0 ?lens" by code_simp
  then have "map (\<lambda>(a, b). slice Status_name a b) (map snd Status_slices) = cut Status_name ?lens"
    using slices_are_cuts [of Status_name 0 ?lens] by simp
  also have "\<dots> = map fst (filter (\<lambda>(nm, n). nm \<noteq> ''MovedTemp'') status_consts)"
    by code_simp
  finally show ?thesis .
qed

lemma Status_String_consts:
  "map (\<lambda>(nm, n). Status_String n) status_consts =
     map (\<lambda>(nm, n). if nm = ''MovedTemp'' then ''MovedPermanently'' else nm) status_consts"
  using Status_slices_eval by (simp add: status_consts_def Status_String_def Status_slices_def)

section \<open>Properties\<close>

text \<open>
  \<^verbatim>\<open>getMethod\<close> recognises, in any mixture of upper and lower case, exactly the names of the
  declared methods other than \<^verbatim>\<open>Redirect\<close>, and it returns the method whose \<^verbatim>\<open>String\<close> has that
  name; \<^verbatim>\<open>Redirect\<close> is missing from the \<^verbatim>\<open>methods\<close> table, so it cannot be read from the wire
  although it is declared and has a name.
\<close>

theorem getMethod_recognises:
  "getMethod s = Ret m \<longleftrightarrow> m \<in> {0..11} - {Redirect} \<and> ToLower s = ToLower (Method_String m)"
  by (simp add: getMethod_Ret methods_iff)

end
