(* ===== verification/Rtsp_Parser.thy ===== *)
theory Rtsp_Parser
  imports Rtsp_Types
begin

text \<open>
  Reading and writing RTSP messages: \<^verbatim>\<open>rtsp/parser.go\<close>.

  The functions read a connection through a \<^verbatim>\<open>bufio.Reader\<close>, which fetches the connection's
  bytes in pieces and looks ahead. A reader is its buffer together with the pieces
  (\<open>segments\<close>) that the connection has still to deliver, one per \<^verbatim>\<open>Read\<close> of the operating
  system; the buffer holds 4096 bytes. \<^verbatim>\<open>ReadString\<close> and \<^verbatim>\<open>io.ReadFull\<close> are the
  library's loops over that buffer. A read past the last segment is the end of the stream.

  Each call of \<^verbatim>\<open>readRequest\<close> and \<^verbatim>\<open>readResponse\<close> makes a reader of its own and drops it
  when it returns, and with it whatever the buffer had read ahead.

  \<open>parse_request\<close> and \<open>parse_response\<close> are the same functions on a plain string of
  bytes: the specification that the buffered versions refine, however the bytes are cut
  into segments.
\<close>

section \<open>Buffered reading\<close>

type_synonym bufio = "string \<times> string list"

definition pending :: "bufio \<Rightarrow> string" where
  "pending r = fst r @ concat (snd r)"

definition bufsize :: nat where
  "bufsize = 4096"

text \<open>
  \<^verbatim>\<open>(*bufio.Reader).fill\<close>: one \<^verbatim>\<open>Read\<close> of at most the free part of the buffer. What the
  read leaves of a segment stays in the connection.
\<close>

definition fill :: "string \<Rightarrow> string \<Rightarrow> string list \<Rightarrow> bufio" where
  "fill buf s ss =
     (let k = bufsize - length buf in
      (buf @ take k s, if length s \<le> k then ss else drop k s # ss))"

text \<open>
  \<^verbatim>\<open>ReadString('\n')\<close>: \<open>acc\<close> collects the full buffers it has gone through. \<open>None\<close> is
  \<^verbatim>\<open>io.EOF\<close>.
\<close>

function read_string :: "string \<Rightarrow> string \<Rightarrow> string list \<Rightarrow> (string \<times> bufio) option" where
  "read_string acc buf segs =
     (case cut_line buf of
        Some (l, rest) \<Rightarrow> Some (acc @ l, (rest, segs))
      | None \<Rightarrow>
          if bufsize \<le> length buf then read_string (acc @ buf) [] segs
          else case segs of
                 [] \<Rightarrow> None
               | s # ss \<Rightarrow> read_string acc (fst (fill buf s ss)) (snd (fill buf s ss)))"
  by pat_completeness auto

lemma fill_segs_less:
  "length buf < bufsize \<Longrightarrow>
     length (concat (snd (fill buf s ss))) + length (snd (fill buf s ss))
       < length (concat (s # ss)) + length (s # ss)"
  by (auto simp: fill_def Let_def)

termination read_string
proof (relation "measures [\<lambda>(acc, buf, segs). length (concat segs) + length segs,
    \<lambda>(acc, buf, segs). length buf]")
  fix acc buf :: string and segs :: "string list" and s ss
  assume "\<not> bufsize \<le> length buf" and "segs = s # ss"
  then show "((acc, fst (fill buf s ss), snd (fill buf s ss)), (acc, buf, segs))
      \<in> measures [\<lambda>(acc, buf, segs). length (concat segs) + length segs,
          \<lambda>(acc, buf, segs). length buf]"
    using fill_segs_less [of buf s ss] by (simp add: case_prod_beta)
qed (auto simp: bufsize_def)

declare read_string.simps [simp del]

text \<open>
  \<^verbatim>\<open>io.ReadFull\<close> into a slice of \<open>k\<close> bytes: buffered bytes first; with the buffer empty, a
  request for at least a whole buffer goes to the connection directly.
\<close>

function read_full :: "nat \<Rightarrow> string \<Rightarrow> string \<Rightarrow> string list \<Rightarrow> (string \<times> bufio) option" where
  "read_full k acc buf segs =
     (if k = 0 then Some (acc, (buf, segs))
      else if buf \<noteq> [] then read_full (k - length buf) (acc @ take k buf) (drop k buf) segs
      else case segs of
             [] \<Rightarrow> None
           | s # ss \<Rightarrow>
               if bufsize \<le> k
               then read_full (k - length s) (acc @ take k s) []
                      (if length s \<le> k then ss else drop k s # ss)
               else read_full k acc (fst (fill [] s ss)) (snd (fill [] s ss)))"
  by pat_completeness auto
termination read_full
proof (relation "measures [\<lambda>(k, acc, buf, segs). k + length (concat segs) + length segs,
    \<lambda>(k, acc, buf, segs). length buf]")
  fix k :: nat and acc buf :: string and segs :: "string list" and s ss
  assume "k \<noteq> 0" "\<not> buf \<noteq> []" "segs = s # ss" "\<not> bufsize \<le> k"
  then show "((k, acc, fst (fill [] s ss), snd (fill [] s ss)), (k, acc, buf, segs))
      \<in> measures [\<lambda>(k, acc, buf, segs). k + length (concat segs) + length segs,
          \<lambda>(k, acc, buf, segs). length buf]"
    using fill_segs_less [of "[]" s ss] by (simp add: bufsize_def case_prod_beta)
qed (auto simp: bufsize_def)

declare read_full.simps [simp del]

section \<open>Header fields and bodies\<close>

text \<open>One header line, its terminator cut off: only the text between the first two colons counts.\<close>

definition header_field :: "string \<Rightarrow> (string \<times> string) res" where
  "header_field f =
     (let parts = split_on (CHR '':'') f in
      if length parts < 2 then Err (''improper header: '' @ f)
      else Ret (TrimSpace (parts ! 0), TrimSpace (parts ! 1)))"

section \<open>The reader against the plain string\<close>

lemma pending_fill: "length buf < bufsize \<Longrightarrow> pending (fill buf s ss) = buf @ s @ concat ss"
  by (simp add: pending_def fill_def Let_def)

lemma read_string_refines:
  "map_option (apsnd pending) (read_string acc buf segs) =
     map_option (apfst (\<lambda>l. acc @ l)) (cut_line (pending (buf, segs)))"
proof (induction acc buf segs rule: read_string.induct)
  case (1 acc buf segs)
  show ?case
  proof (cases "cut_line buf")
    case (Some x)
    then show ?thesis
      by (cases x) (simp add: read_string.simps [of acc buf] pending_def cut_line_Some_append)
  next
    case no: None
    show ?thesis
    proof (cases "bufsize \<le> length buf")
      case True
      with "1.IH"(1) [OF no True] no show ?thesis
        by (simp add: read_string.simps [of acc buf] pending_def cut_line_skip option.map_comp
            apfst_compose comp_def)
    next
      case room: False
      show ?thesis
      proof (cases segs)
        case Nil
        with no room show ?thesis
          by (simp add: read_string.simps [of acc buf] pending_def)
      next
        case (Cons s ss)
        have "pending (fill buf s ss) = pending (buf, segs)"
          using room Cons pending_fill [of buf s ss] by (simp add: pending_def)
        with "1.IH"(2) [OF no room Cons] no room Cons show ?thesis
          by (simp add: read_string.simps [of acc buf])
      qed
    qed
  qed
qed

lemma read_full_refines:
  "map_option (apsnd pending) (read_full k acc buf segs) =
     (let p = pending (buf, segs) in
      if k \<le> length p then Some (acc @ take k p, drop k p) else None)"
proof (induction k acc buf segs rule: read_full.induct)
  case (1 k acc buf segs)
  show ?case
  proof (cases "k = 0 \<or> buf \<noteq> []")
    case True
    then consider "k = 0" | "k \<noteq> 0" "buf \<noteq> []" "k \<le> length buf" | "k \<noteq> 0" "buf \<noteq> []" "length buf < k"
      by linarith
    then show ?thesis
    proof cases
      case 1
      then show ?thesis by (simp add: read_full.simps [of 0 acc buf] Let_def)
    next
      case 2
      with "1.IH"(1) [OF 2(1,2)] show ?thesis
        by (simp add: read_full.simps [of k acc buf] pending_def Let_def)
    next
      case 3
      with "1.IH"(1) [OF 3(1,2)] show ?thesis
        by (auto simp: read_full.simps [of k acc buf] pending_def Let_def)
    qed
  next
    case no: False
    show ?thesis
    proof (cases segs)
      case Nil
      with no show ?thesis by (simp add: read_full.simps [of k acc "[]"] pending_def)
    next
      case (Cons s ss)
      show ?thesis
      proof (cases "bufsize \<le> k")
        case True
        with "1.IH"(2) [OF _ _ Cons True] no Cons show ?thesis
          by (auto simp: read_full.simps [of k acc "[]"] pending_def Let_def)
      next
        case False
        have "pending (fill [] s ss) = pending (buf, segs)"
          using no Cons pending_fill [of "[]" s ss] by (simp add: pending_def bufsize_def)
        with "1.IH"(3) [OF _ _ Cons False] no Cons False show ?thesis
          by (simp add: read_full.simps [of k acc "[]"])
      qed
    qed
  qed
qed

lemma read_string_Some:
  assumes "read_string acc buf segs = Some (l, r)"
  obtains l' where "l = acc @ l'" "cut_line (pending (buf, segs)) = Some (l', pending r)"
proof -
  have "map_option (apfst (\<lambda>l. acc @ l)) (cut_line (pending (buf, segs))) = Some (l, pending r)"
    using read_string_refines [of acc buf segs] assms by simp
  then show ?thesis using that by (cases "cut_line (pending (buf, segs))") auto
qed

section \<open>The header loop\<close>

text \<open>
  The loop that \<^verbatim>\<open>readRequest\<close> and \<^verbatim>\<open>readResponse\<close> share: header lines up to the empty one,
  stored in a map, so a later line with the same name replaces an earlier one.
\<close>

function read_headers :: "bufio \<Rightarrow> (string \<rightharpoonup> string) \<Rightarrow> ((string \<rightharpoonup> string) \<times> bufio) res" where
  "read_headers r hs =
     (case read_string [] (fst r) (snd r) of
        None \<Rightarrow> Err ''EOF''
      | Some (l, r') \<Rightarrow>
          let f = trim_set {CR, LF} l in
          if f = [] then Ret (hs, r')
          else res_bind (header_field f) (\<lambda>(k, v). read_headers r' (hs(k \<mapsto> v))))"
  by pat_completeness auto
termination read_headers
proof (relation "measure (\<lambda>(r, hs). length (pending r))")
  fix r :: bufio and hs x l r' f k v
  assume "read_string [] (fst r) (snd r) = Some x" "(l, r') = x"
  then have "cut_line (pending r) = Some (l, pending r')"
    using read_string_Some [of "[]" "fst r" "snd r" l r'] by auto
  then show "((r', hs(k \<mapsto> v)), (r, hs)) \<in> measure (\<lambda>(r, hs). length (pending r))"
    by (simp add: cut_line_parts)
qed simp

declare read_headers.simps [simp del]

text \<open>
  \<^verbatim>\<open>make([]byte, n)\<close> panics when \<open>n\<close> is negative or beyond the address space the runtime
  manages (48 bits).
\<close>

definition max_alloc :: int where
  "max_alloc = 281474976710656"

text \<open>
  The body: \<^verbatim>\<open>Content-Length\<close> says how long it is (the error of \<^verbatim>\<open>Atoi\<close> is dropped, so an
  unreadable length counts as 0), and a stream that ends before it ends the process.
\<close>

definition read_body :: "(string \<rightharpoonup> string) \<Rightarrow> bufio \<Rightarrow> (string \<times> bufio) res" where
  "read_body hs r =
     (case hs ''Content-Length'' of
        None \<Rightarrow> Ret ([], r)
      | Some cl \<Rightarrow>
          let n = fst (Atoi cl) in
          if n < 0 \<or> max_alloc < n then Panic ''runtime error: makeslice: len out of range''
          else res_of_option (Exit (if pending r = [] then ''EOF'' else ''unexpected EOF''))
                 (read_full (nat n) [] (fst r) (snd r)))"

section \<open>Requests\<close>

text \<open>The request line: exactly two spaces, and a method of the table.\<close>

definition request_line :: "string \<Rightarrow> (rtsp_method \<times> string \<times> string) res" where
  "request_line l =
     (let requestLine = trim_set {CR, LF} l; parts = split_on SP requestLine in
      if length parts \<noteq> 3 then Err (''improperly formatted request line: '' @ requestLine)
      else case getMethod (parts ! 0) of
             Ret m \<Rightarrow> Ret (m, parts ! 1, parts ! 2)
           | _ \<Rightarrow> Err (''Method does exist in RTSP protocol: '' @ parts ! 0))"

definition read_request :: "bufio \<Rightarrow> (request \<times> bufio) res" where
  "read_request r =
     (case read_string [] (fst r) (snd r) of
        None \<Rightarrow> Err ''EOF''
      | Some (l, r1) \<Rightarrow>
          res_bind (request_line l) (\<lambda>(m, uri, proto).
          res_bind (read_headers r1 Map.empty) (\<lambda>(hs, r2).
          res_bind (read_body hs r2) (\<lambda>(b, r3).
          Ret (\<lparr>rq_Method = m, rq_URI = uri, rq_protocol = proto, rq_Headers = hs, rq_Body = b\<rparr>,
               r3)))))"

text \<open>
  \<^verbatim>\<open>readRequest\<close> on a connection: a new reader per call; the connection keeps only the
  segments that the reader has not fetched.
\<close>

definition readRequest :: "string list \<Rightarrow> (request \<times> string list) res" where
  "readRequest segs = res_bind (read_request ([], segs)) (\<lambda>(q, r). Ret (q, snd r))"

definition write_headers :: "string list \<Rightarrow> (string \<rightharpoonup> string) \<Rightarrow> string" where
  "write_headers ks hs = concat (map (\<lambda>k. k @ '': '' @ the (hs k) @ crlf) ks)"

definition content_length :: "string \<Rightarrow> string" where
  "content_length b =
     (if length b > 0 then ''Content-Length: '' @ Itoa (int (length b)) @ crlf else [])"

definition writeRequest :: "string list \<Rightarrow> request \<Rightarrow> string" where
  "writeRequest ks q =
     ToUpper (Method_String (rq_Method q)) @ SP # rq_URI q @ SP # rq_protocol q @ crlf
     @ write_headers ks (rq_Headers q) @ content_length (rq_Body q) @ crlf
     @ (if length (rq_Body q) > 0 then rq_Body q else [])"

section \<open>Responses\<close>

definition status_line :: "string \<Rightarrow> (string \<times> rtsp_status) res" where
  "status_line l =
     (let statusLine = trim_set {CR, LF} l; parts = split_on SP statusLine in
      if length parts \<noteq> 3 then Err (''improperly formatted status line: '' @ statusLine)
      else case Atoi (parts ! 1) of
             (_, Some e) \<Rightarrow> Err (''status not a valid integer: '' @ parts ! 1)
           | (n, None) \<Rightarrow>
               (case getStatus n of
                  Ret s \<Rightarrow> Ret (parts ! 0, s)
                | _ \<Rightarrow> Err (''status does exist in RTSP protocol: '' @ Itoa n)))"

definition read_response :: "bufio \<Rightarrow> (response \<times> bufio) res" where
  "read_response r =
     (case read_string [] (fst r) (snd r) of
        None \<Rightarrow> Err ''EOF''
      | Some (l, r1) \<Rightarrow>
          res_bind (status_line l) (\<lambda>(proto, st).
          res_bind (read_headers r1 Map.empty) (\<lambda>(hs, r2).
          res_bind (read_body hs r2) (\<lambda>(b, r3).
          Ret (\<lparr>rs_Headers = hs, rs_Body = b, rs_Status = st, rs_protocol = proto\<rparr>, r3)))))"

definition readResponse :: "string list \<Rightarrow> (response \<times> string list) res" where
  "readResponse segs = res_bind (read_response ([], segs)) (\<lambda>(q, r). Ret (q, snd r))"

definition writeResponse :: "string list \<Rightarrow> response \<Rightarrow> string" where
  "writeResponse ks q =
     rs_protocol q @ SP # Itoa (rs_Status q) @ SP # Status_String (rs_Status q) @ crlf
     @ write_headers ks (rs_Headers q) @ content_length (rs_Body q) @ crlf
     @ (if length (rs_Body q) > 0 then rs_Body q else [])"

section \<open>The specification on plain strings\<close>

function parse_headers :: "string \<Rightarrow> (string \<rightharpoonup> string) \<Rightarrow> ((string \<rightharpoonup> string) \<times> string) res" where
  "parse_headers p hs =
     (case cut_line p of
        None \<Rightarrow> Err ''EOF''
      | Some (l, p') \<Rightarrow>
          let f = trim_set {CR, LF} l in
          if f = [] then Ret (hs, p')
          else res_bind (header_field f) (\<lambda>(k, v). parse_headers p' (hs(k \<mapsto> v))))"
  by pat_completeness auto
termination parse_headers
  by (relation "measure (\<lambda>(p, hs). length p)") (auto dest: cut_line_parts)

declare parse_headers.simps [simp del]

definition parse_body :: "(string \<rightharpoonup> string) \<Rightarrow> string \<Rightarrow> (string \<times> string) res" where
  "parse_body hs p =
     (case hs ''Content-Length'' of
        None \<Rightarrow> Ret ([], p)
      | Some cl \<Rightarrow>
          let n = fst (Atoi cl) in
          if n < 0 \<or> max_alloc < n then Panic ''runtime error: makeslice: len out of range''
          else if nat n \<le> length p then Ret (take (nat n) p, drop (nat n) p)
          else Exit (if p = [] then ''EOF'' else ''unexpected EOF''))"

definition parse_request :: "string \<Rightarrow> (request \<times> string) res" where
  "parse_request p =
     (case cut_line p of
        None \<Rightarrow> Err ''EOF''
      | Some (l, p1) \<Rightarrow>
          res_bind (request_line l) (\<lambda>(m, uri, proto).
          res_bind (parse_headers p1 Map.empty) (\<lambda>(hs, p2).
          res_bind (parse_body hs p2) (\<lambda>(b, p3).
          Ret (\<lparr>rq_Method = m, rq_URI = uri, rq_protocol = proto, rq_Headers = hs, rq_Body = b\<rparr>,
               p3)))))"

definition parse_response :: "string \<Rightarrow> (response \<times> string) res" where
  "parse_response p =
     (case cut_line p of
        None \<Rightarrow> Err ''EOF''
      | Some (l, p1) \<Rightarrow>
          res_bind (status_line l) (\<lambda>(proto, st).
          res_bind (parse_headers p1 Map.empty) (\<lambda>(hs, p2).
          res_bind (parse_body hs p2) (\<lambda>(b, p3).
          Ret (\<lparr>rs_Headers = hs, rs_Body = b, rs_Status = st, rs_protocol = proto\<rparr>, p3)))))"

lemma map_res_bind: "map_res g (res_bind m f) = res_bind m (\<lambda>x. map_res g (f x))"
  by (cases m) auto

lemma res_bind_map: "res_bind (map_res g m) f = res_bind m (\<lambda>x. f (g x))"
  by (cases m) auto

lemma read_string_cases:
  obtains (eof) "read_string [] (fst r) (snd r) = None" "cut_line (pending r) = None"
  | (line) l r' where "read_string [] (fst r) (snd r) = Some (l, r')"
      "cut_line (pending r) = Some (l, pending r')"
proof (cases "read_string [] (fst r) (snd r)")
  case None
  then have "cut_line (pending r) = None"
    using read_string_refines [of "[]" "fst r" "snd r"]
    by (metis map_option_is_None option.simps(8) prod.collapse)
  with None show ?thesis by (rule eof)
next
  case (Some x)
  then obtain l r' where "read_string [] (fst r) (snd r) = Some (l, r')" by (cases x) auto
  then show ?thesis using read_string_Some line by (metis append_Nil prod.collapse)
qed

lemma read_headers_refines:
  "map_res (apsnd pending) (read_headers r hs) = parse_headers (pending r) hs"
proof (induction r hs rule: read_headers.induct)
  case (1 r hs)
  show ?case
  proof (cases r rule: read_string_cases)
    case eof
    then show ?thesis by (simp add: read_headers.simps [of r] parse_headers.simps [of "pending r"])
  next
    case (line l r')
    show ?thesis
    proof (cases "trim_set {CR, LF} l = []")
      case True
      with line show ?thesis
        by (simp add: read_headers.simps [of r] parse_headers.simps [of "pending r"])
    next
      case False
      have "map_res (apsnd pending) (read_headers r' (hs(k \<mapsto> v))) =
          parse_headers (pending r') (hs(k \<mapsto> v))" for k v
        by (rule "1.IH" [OF line(1) refl refl False])
      with line False show ?thesis
        by (cases "header_field (trim_set {CR, LF} l)")
          (auto simp: read_headers.simps [of r] parse_headers.simps [of "pending r"])
    qed
  qed
qed

lemma read_body_refines:
  "map_res (apsnd pending) (read_body hs r) = parse_body hs (pending r)"
proof (cases "hs ''Content-Length''")
  case None
  then show ?thesis by (simp add: read_body_def parse_body_def)
next
  case (Some cl)
  let ?n = "nat (fst (Atoi cl))"
  have "map_res (apsnd pending) (res_of_option (Exit e) (read_full ?n [] (fst r) (snd r))) =
    (if ?n \<le> length (pending r) then Ret (take ?n (pending r), drop ?n (pending r)) else Exit e)" for e
    using read_full_refines [of ?n "[]" "fst r" "snd r"]
    by (cases "read_full ?n [] (fst r) (snd r)") (auto simp: Let_def split: if_splits)
  with Some show ?thesis by (simp add: read_body_def parse_body_def Let_def)
qed

lemma read_request_refines:
  "map_res (apsnd pending) (read_request r) = parse_request (pending r)"
proof (cases r rule: read_string_cases)
  case eof
  then show ?thesis by (simp add: read_request_def parse_request_def)
next
  case (line l r')
  then show ?thesis
    by (simp add: read_request_def parse_request_def map_res_bind case_prod_unfold res_bind_map
        flip: read_headers_refines read_body_refines)
qed

lemma read_response_refines:
  "map_res (apsnd pending) (read_response r) = parse_response (pending r)"
proof (cases r rule: read_string_cases)
  case eof
  then show ?thesis by (simp add: read_response_def parse_response_def)
next
  case (line l r')
  then show ?thesis
    by (simp add: read_response_def parse_response_def map_res_bind case_prod_unfold res_bind_map
        flip: read_headers_refines read_body_refines)
qed

section \<open>What is written is read back\<close>

text \<open>
  A header field that survives the wire: it holds no colon and no newline, and no white
  space at its ends.
\<close>

definition wire_field :: "string \<Rightarrow> string \<Rightarrow> bool" where
  "wire_field k v \<longleftrightarrow>
     TrimSpace k = k \<and> TrimSpace v = v \<and> CHR '':'' \<notin> set k \<and> CHR '':'' \<notin> set v
     \<and> LF \<notin> set k \<and> LF \<notin> set v"

definition wire_token :: "string \<Rightarrow> bool" where
  "wire_token s \<longleftrightarrow> SP \<notin> set s \<and> LF \<notin> set s \<and> CR \<notin> set s"

definition wire_request :: "request \<Rightarrow> bool" where
  "wire_request q \<longleftrightarrow>
     rq_Method q \<in> {0..11} - {Redirect} \<and> wire_token (rq_URI q) \<and> wire_token (rq_protocol q)
     \<and> (\<forall>k \<in> dom (rq_Headers q). wire_field k (the (rq_Headers q k)))
     \<and> ''Content-Length'' \<notin> dom (rq_Headers q) \<and> int (length (rq_Body q)) \<le> max_alloc"

definition wire_response :: "response \<Rightarrow> bool" where
  "wire_response q \<longleftrightarrow>
     rs_Status q \<in> snd ` set status_consts \<and> wire_token (rs_protocol q)
     \<and> (\<forall>k \<in> dom (rs_Headers q). wire_field k (the (rs_Headers q k)))
     \<and> ''Content-Length'' \<notin> dom (rs_Headers q) \<and> int (length (rs_Body q)) \<le> max_alloc"

text \<open>The headers as the receiver sees them.\<close>

definition received :: "(string \<rightharpoonup> string) \<Rightarrow> string \<Rightarrow> (string \<rightharpoonup> string)" where
  "received hs b =
     (if b = [] then hs else hs(''Content-Length'' \<mapsto> Itoa (int (length b))))"

lemma parse_line:
  assumes "LF \<notin> set f" and "f \<noteq> [] \<Longrightarrow> hd f \<noteq> CR \<and> last f \<noteq> CR"
  shows "cut_line (f @ crlf @ rest) = Some (f @ crlf, rest)" and "trim_set {CR, LF} (f @ crlf) = f"
proof -
  show "cut_line (f @ crlf @ rest) = Some (f @ crlf, rest)"
    using cut_line_append [of "f @ [CR]" rest] assms(1) by (simp add: crlf_def)
  have "f \<noteq> [] \<Longrightarrow> hd f \<noteq> LF \<and> last f \<noteq> LF" using assms(1) by (metis hd_in_set last_in_set)
  with assms(2) show "trim_set {CR, LF} (f @ crlf) = f"
    by (intro trim_set_line) (auto simp: crlf_def)
qed

lemma parse_headers_end: "parse_headers (crlf @ rest) hs = Ret (hs, rest)"
  using parse_line [of "[]"] by (simp add: parse_headers.simps [of "crlf @ rest"])

lemma parse_headers_line:
  assumes "wire_field k v"
  shows "parse_headers (k @ '': '' @ v @ crlf @ rest) hs = parse_headers rest (hs(k \<mapsto> v))"
proof -
  let ?f = "k @ '': '' @ v"
  have lf: "LF \<notin> set ?f" using assms by (auto simp: wire_field_def)
  have ends: "hd ?f \<noteq> CR \<and> last ?f \<noteq> CR"
    using TrimSpace_ends [of k CR] TrimSpace_ends [of v CR] assms
    by (auto simp: wire_field_def hd_append)
  have "split_on (CHR '':'') ?f = [k, SP # v]"
    using assms split_on_append [of "CHR '':''" k "SP # v"] by (simp add: wire_field_def split_on_no_sep)
  then have "header_field ?f = Ret (k, v)"
    using assms by (simp add: header_field_def wire_field_def TrimSpace_SP)
  moreover note parse_line [OF lf] ends
  ultimately show ?thesis
    by (subst parse_headers.simps) simp
qed

lemma parse_headers_write:
  "\<forall>k \<in> set ks. wire_field k (the (m k)) \<Longrightarrow>
     parse_headers (write_headers ks m @ rest) hs =
       parse_headers rest (copy_keys m ks hs)"
proof (induction ks arbitrary: hs)
  case Nil
  then show ?case by (simp add: write_headers_def)
next
  case (Cons k ks)
  then show ?case
    using parse_headers_line [of k "the (m k)" "write_headers ks m @ rest" hs]
    by (simp add: write_headers_def)
qed

lemma wire_field_content_length: "wire_field ''Content-Length'' (Itoa n)"
proof -
  have "TrimSpace ''Content-Length'' = ''Content-Length''" by code_simp
  moreover have "c \<in> set (Itoa n) \<Longrightarrow> c \<noteq> CHR '':'' \<and> c \<noteq> LF" for c
    using Itoa_chars digit_chars by fastforce
  ultimately show ?thesis by (auto simp: wire_field_def TrimSpace_Itoa)
qed

lemma parse_message:
  assumes "range_order ks m" and "\<forall>k \<in> dom m. wire_field k (the (m k))"
    and "''Content-Length'' \<notin> dom m" and "int (length b) \<le> max_alloc"
  shows "res_bind (parse_headers (write_headers ks m @ content_length b @ crlf @ b @ rest) Map.empty)
      (\<lambda>(hs, p). res_bind (parse_body hs p) (\<lambda>(b, p). f hs b p)) = f (received m b) b rest"
proof -
  let ?tail = "content_length b @ crlf @ b @ rest"
  have "\<forall>k \<in> set ks. wire_field k (the (m k))" using assms(1,2) by (simp add: range_order_def)
  then have "parse_headers (write_headers ks m @ ?tail) Map.empty = parse_headers ?tail m"
    using copy_keys_range_order [OF assms(1)] by (simp add: parse_headers_write)
  also have "\<dots> = Ret (received m b, b @ rest)"
    using parse_headers_line [OF wire_field_content_length, of _ "crlf @ b @ rest" m]
    by (simp add: content_length_def received_def parse_headers_end)
  finally have h: "parse_headers (write_headers ks m @ ?tail) Map.empty = Ret (received m b, b @ rest)" .
  have "int64_range (int (length b))" using assms(4) by (simp add: int64_range_def max_alloc_def)
  then have "parse_body (received m b) (b @ rest) = Ret (b, rest)"
    using assms(3,4) by (cases "b = []") (simp_all add: parse_body_def received_def Atoi_Itoa domIff)
  with h show ?thesis by simp
qed

lemma parse_request_write:
  assumes "range_order ks (rq_Headers q)" and "wire_request q"
  shows "parse_request (writeRequest ks q @ rest) =
    Ret (q\<lparr>rq_Headers := received (rq_Headers q) (rq_Body q)\<rparr>, rest)"
proof -
  let ?m = "ToUpper (Method_String (rq_Method q))"
  let ?f = "?m @ SP # rq_URI q @ SP # rq_protocol q"
  let ?rest = "write_headers ks (rq_Headers q) @ content_length (rq_Body q) @ crlf @ rq_Body q @ rest"
  have m: "rq_Method q \<in> {0..11} - {Redirect}" and u: "wire_token (rq_URI q)"
    and p: "wire_token (rq_protocol q)"
    using assms(2) by (simp_all add: wire_request_def)
  have lf: "LF \<notin> set ?f" using method_token(3) [OF m] u p by (auto simp: wire_token_def)
  have "CR \<notin> set (rq_protocol q)" using p by (simp add: wire_token_def)
  then have ends: "hd ?f \<noteq> CR \<and> last ?f \<noteq> CR"
    using method_token(4,5) [OF m] by (auto simp: last_append dest: last_in_set)
  have "split_on SP ?f = [?m, rq_URI q, rq_protocol q]"
    using method_token(2) [OF m] u p by (simp add: split_on_append split_on_no_sep wire_token_def)
  moreover have "getMethod ?m = Ret (rq_Method q)"
    using m by (simp add: getMethod_Ret methods_iff method_token(1))
  moreover note parse_line(2) [OF lf ends]
  ultimately have "request_line (?f @ crlf) = Ret (rq_Method q, rq_URI q, rq_protocol q)"
    by (simp add: request_line_def Let_def)
  moreover have "cut_line (?f @ crlf @ ?rest) = Some (?f @ crlf, ?rest)"
    using lf ends by (rule parse_line(1))
  moreover have "writeRequest ks q @ rest = ?f @ crlf @ ?rest" by (simp add: writeRequest_def)
  ultimately have "parse_request (writeRequest ks q @ rest) =
      res_bind (parse_headers ?rest Map.empty) (\<lambda>(hs, p2). res_bind (parse_body hs p2) (\<lambda>(b, p3).
        Ret (\<lparr>rq_Method = rq_Method q, rq_URI = rq_URI q, rq_protocol = rq_protocol q,
              rq_Headers = hs, rq_Body = b\<rparr>, p3)))"
    by (simp add: parse_request_def)
  also have "\<dots> = Ret (q\<lparr>rq_Headers := received (rq_Headers q) (rq_Body q)\<rparr>, rest)"
    using assms by (subst parse_message) (simp_all add: wire_request_def)
  finally show ?thesis .
qed

lemma status_tokens:
  "list_all (\<lambda>nm. nm \<noteq> [] \<and> SP \<notin> set nm \<and> LF \<notin> set nm \<and> CR \<notin> set nm) (map fst status_consts)"
  by code_simp

lemma status_token:
  assumes "st \<in> snd ` set status_consts"
  shows "Status_String st \<noteq> []" "wire_token (Status_String st)" "int64_range st"
proof -
  obtain nm where nm: "(nm, st) \<in> set status_consts" using assms by auto
  have "Status_String st = (if nm = ''MovedTemp'' then ''MovedPermanently'' else nm)"
    using Status_String_consts nm by (simp only: map_eq_conv) fastforce
  moreover have "nm \<noteq> []" "wire_token nm"
    using status_tokens nm unfolding list_all_iff by (force simp: wire_token_def)+
  ultimately show "Status_String st \<noteq> []" "wire_token (Status_String st)"
    by (auto simp: wire_token_def)
  have "list_all (\<lambda>(nm, n). int64_range n) status_consts" by code_simp
  with nm show "int64_range st" unfolding list_all_iff by fastforce
qed

lemma parse_response_write:
  assumes "range_order ks (rs_Headers q)" and "wire_response q"
  shows "parse_response (writeResponse ks q @ rest) =
    Ret (q\<lparr>rs_Headers := received (rs_Headers q) (rs_Body q)\<rparr>, rest)"
proof -
  let ?st = "Status_String (rs_Status q)"
  let ?f = "rs_protocol q @ SP # Itoa (rs_Status q) @ SP # ?st"
  let ?rest = "write_headers ks (rs_Headers q) @ content_length (rs_Body q) @ crlf @ rs_Body q @ rest"
  have s: "rs_Status q \<in> snd ` set status_consts" and p: "wire_token (rs_protocol q)"
    using assms(2) by (simp_all add: wire_response_def)
  have num: "wire_token (Itoa (rs_Status q))"
    using Itoa_chars digit_chars unfolding wire_token_def by fastforce
  have lf: "LF \<notin> set ?f" using status_token(2) [OF s] p num by (auto simp: wire_token_def)
  have ends: "hd ?f \<noteq> CR \<and> last ?f \<noteq> CR"
    using status_token(1,2) [OF s] p
    by (cases "rs_protocol q") (auto simp: last_append wire_token_def dest: last_in_set)
  have "split_on SP ?f = [rs_protocol q, Itoa (rs_Status q), ?st]"
    using status_token(2) [OF s] p num by (simp add: split_on_append split_on_no_sep wire_token_def)
  moreover have "getStatus (rs_Status q) = Ret (rs_Status q)"
    using s by (simp add: getStatus_def statuses_dom)
  moreover note parse_line(2) [OF lf ends]
  ultimately have "status_line (?f @ crlf) = Ret (rs_protocol q, rs_Status q)"
    using status_token(3) [OF s] by (simp add: status_line_def Let_def Atoi_Itoa)
  moreover have "cut_line (?f @ crlf @ ?rest) = Some (?f @ crlf, ?rest)"
    using lf ends by (rule parse_line(1))
  moreover have "writeResponse ks q @ rest = ?f @ crlf @ ?rest" by (simp add: writeResponse_def)
  ultimately have "parse_response (writeResponse ks q @ rest) =
      res_bind (parse_headers ?rest Map.empty) (\<lambda>(hs, p2). res_bind (parse_body hs p2) (\<lambda>(b, p3).
        Ret (\<lparr>rs_Headers = hs, rs_Body = b, rs_Status = rs_Status q,
              rs_protocol = rs_protocol q\<rparr>, p3)))"
    by (simp add: parse_response_def)
  also have "\<dots> = Ret (q\<lparr>rs_Headers := received (rs_Headers q) (rs_Body q)\<rparr>, rest)"
    using assms by (subst parse_message) (simp_all add: wire_response_def)
  finally show ?thesis .
qed

section \<open>Reading a message from a connection\<close>

text \<open>
  What the server and the client rely on when they read a message: the buffered reader
  \<open>rd\<close> is an implementation of a parser on the plain string of bytes, and \<open>recv\<close> runs it on
  the segments of a connection with a fresh buffer. \<open>put\<close> is the matching writer: what it
  puts in front of any other bytes is parsed as \<open>seen\<close> of the message, and those bytes remain.
\<close>

locale stream_reader =
  fixes rd :: "bufio \<Rightarrow> ('m \<times> bufio) res"
    and parse :: "string \<Rightarrow> ('m \<times> string) res"
    and recv :: "string list \<Rightarrow> ('m \<times> string list) res"
  assumes refines: "map_res (apsnd pending) (rd r) = parse (pending r)"
    and recv_def: "recv segs = res_bind (rd ([], segs)) (\<lambda>(m, r). Ret (m, snd r))"
begin

lemma recv_parse: "map_res fst (recv segs) = map_res fst (parse (concat segs))"
proof -
  have "map_res fst (recv segs) = map_res fst (map_res (apsnd pending) (rd ([], segs)))"
    by (cases "rd ([], segs)") (auto simp: recv_def)
  then show ?thesis by (simp add: refines pending_def)
qed

lemma recv_Ret:
  assumes "parse (concat segs) = Ret (m, p)"
  shows "\<exists>left. recv segs = Ret (m, left) \<and> length (concat left) \<le> length p"
proof -
  have "map_res (apsnd pending) (rd ([], segs)) = Ret (m, p)"
    using assms by (simp add: refines pending_def)
  then obtain r where r: "rd ([], segs) = Ret (m, r)" "pending r = p"
    by (cases "rd ([], segs)") auto
  then have "length (concat (snd r)) \<le> length p" by (auto simp: pending_def)
  with r(1) show ?thesis by (simp add: recv_def)
qed

lemma recv_fails:
  "parse (concat segs) = Panic e \<Longrightarrow> recv segs = Panic e"
  "parse (concat segs) = Exit e \<Longrightarrow> recv segs = Exit e"
  "parse (concat segs) = Err e \<Longrightarrow> recv segs = Err e"
  using recv_parse [of segs] by (cases "recv segs"; auto)+

end

locale stream_codec = stream_reader rd parse recv
  for rd :: "bufio \<Rightarrow> ('m \<times> bufio) res" and parse recv +
  fixes put :: "string list \<Rightarrow> 'm \<Rightarrow> string"
    and hdrs :: "'m \<Rightarrow> (string \<rightharpoonup> string)"
    and wire :: "'m \<Rightarrow> bool"
    and seen :: "'m \<Rightarrow> 'm"
  assumes parse_put: "range_order ks (hdrs m) \<Longrightarrow> wire m \<Longrightarrow> parse (put ks m @ rest) = Ret (seen m, rest)"
begin

lemma recv_put:
  assumes "range_order ks (hdrs m)" and "wire m" and "concat segs = put ks m"
  shows "\<exists>left. recv segs = Ret (seen m, left) \<and> concat left = []"
  using recv_Ret [of segs "seen m" "[]"] parse_put [OF assms(1,2), of "[]"] assms(3) by simp

end

interpretation requests: stream_codec read_request parse_request readRequest writeRequest rq_Headers
  wire_request "\<lambda>q. q\<lparr>rq_Headers := received (rq_Headers q) (rq_Body q)\<rparr>"
  by unfold_locales (simp_all add: read_request_refines readRequest_def parse_request_write)

interpretation responses: stream_codec read_response parse_response readResponse writeResponse
  rs_Headers wire_response "\<lambda>p. p\<lparr>rs_Headers := received (rs_Headers p) (rs_Body p)\<rparr>"
  by unfold_locales (simp_all add: read_response_refines readResponse_def parse_response_write)

text \<open>
  A read that the buffer alone can serve leaves the connection's segments untouched.
\<close>

lemma read_string_frame:
  "read_string acc buf [] = Some (l, r) \<Longrightarrow> read_string acc buf ss = Some (l, (fst r, ss))"
proof (induction acc buf "[] :: string list" rule: read_string.induct)
  case (1 acc buf)
  then show ?case
    by (auto simp: read_string.simps [of acc buf] split: option.splits if_splits)
qed

lemma read_full_frame:
  "read_full k acc buf [] = Some (l, r) \<Longrightarrow> read_full k acc buf ss = Some (l, (fst r, ss))"
proof (induction k acc buf "[] :: string list" rule: read_full.induct)
  case (1 k acc buf)
  then show ?case by (auto simp: read_full.simps [of k acc buf] split: if_splits)
qed

lemma read_headers_frame:
  "read_headers (buf, []) hs = Ret (hs', r) \<Longrightarrow> read_headers (buf, ss) hs = Ret (hs', (fst r, ss))"
proof (induction "length buf" arbitrary: buf hs rule: less_induct)
  case less
  then obtain l b r1 where l: "read_string [] buf [] = Some (l, (b, r1))"
    by (auto simp: read_headers.simps [of "(buf, [])"] split: option.splits)
  have frame: "read_string [] buf ss' = Some (l, (b, ss'))" for ss'
    using read_string_frame [OF l] by simp
  have "cut_line buf = Some (l, b)"
    using read_string_refines [of "[]" buf "[]"] frame [of "[]"]
    by (cases "cut_line buf") (auto simp: pending_def)
  then have shorter: "length b < length buf" by (simp add: cut_line_parts)
  show ?case
  proof (cases "trim_set {CR, LF} l = []")
    case True
    with less.prems frame show ?thesis by (auto simp: read_headers.simps [of "(buf, _)"])
  next
    case False
    with less.prems frame [of "[]"] obtain k v where
      kv: "header_field (trim_set {CR, LF} l) = Ret (k, v)" "read_headers (b, []) (hs(k \<mapsto> v)) = Ret (hs', r)"
      by (auto simp: read_headers.simps [of "(buf, [])"] res_bind_Ret_iff)
    with less.hyps [OF shorter kv(2)] frame [of ss] False show ?thesis
      by (simp add: read_headers.simps [of "(buf, ss)"])
  qed
qed

lemma read_body_frame:
  assumes "read_body hs (buf, []) = Ret (b, r)"
  shows "read_body hs (buf, ss) = Ret (b, (fst r, ss))"
proof (cases "hs ''Content-Length''")
  case None
  with assms show ?thesis by (auto simp: read_body_def)
next
  case (Some v)
  show ?thesis
  proof (cases "read_full (nat (fst (Atoi v))) [] buf []")
    case None
    with assms Some show ?thesis by (auto simp: read_body_def Let_def split: if_splits)
  next
    case full: (Some a)
    then have "read_full (nat (fst (Atoi v))) [] buf ss = Some (fst a, (fst (snd a), ss))"
      using read_full_frame [of _ "[]" buf "fst a" "snd a"] by simp
    with full assms Some show ?thesis by (auto simp: read_body_def Let_def split: if_splits)
  qed
qed

lemma read_string_one_segment:
  "length s \<le> bufsize \<Longrightarrow> s \<noteq> [] \<Longrightarrow> read_string [] [] (s # ss) = read_string [] s ss"
  by (simp add: read_string.simps [of "[]" "[]"] fill_def bufsize_def)

lemma read_request_frame:
  assumes "read_request (buf, []) = Ret (q, r)"
  shows "read_request (buf, ss) = Ret (q, (fst r, ss))"
proof -
  obtain l r1 h hs r2 b where
    *: "read_string [] buf [] = Some (l, r1)" "request_line l = Ret h"
      "read_headers r1 Map.empty = Ret (hs, r2)" "read_body hs r2 = Ret (b, r)"
      "q = \<lparr>rq_Method = fst h, rq_URI = fst (snd h), rq_protocol = snd (snd h), rq_Headers = hs,
            rq_Body = b\<rparr>"
    using assms by (auto simp: read_request_def res_bind_Ret_iff split: option.splits)
  have s1: "read_string [] buf ss' = Some (l, (fst r1, ss'))" for ss'
    using *(1) by (rule read_string_frame)
  then have r1: "r1 = (fst r1, [])" using *(1) by (metis option.inject prod.inject)
  have s2: "read_headers (fst r1, ss') Map.empty = Ret (hs, (fst r2, ss'))" for ss'
    using *(3) r1 by (metis read_headers_frame)
  then have r2: "r2 = (fst r2, [])" using *(3) r1 by (metis res.inject(1) prod.inject)
  have "read_body hs (fst r2, ss) = Ret (b, (fst r, ss))"
    using *(4) r2 by (metis read_body_frame)
  with s1 s2 *(2,5) show ?thesis by (simp add: read_request_def case_prod_unfold)
qed

lemma readRequest_one_segment:
  assumes "length s \<le> bufsize" and "parse_request s = Ret (q, p)"
  shows "readRequest (s # ss) = Ret (q, ss)"
proof -
  have "s \<noteq> []" using assms(2) by (auto simp: parse_request_def)
  then have one: "read_request ([], s # ss') = read_request (s, ss')" for ss'
    using read_string_one_segment [OF assms(1)] by (simp add: read_request_def)
  have "map_res (apsnd pending) (read_request (s, [])) = Ret (q, p)"
    using assms(2) by (simp add: read_request_refines pending_def)
  then obtain r where "read_request (s, []) = Ret (q, r)"
    by (cases "read_request (s, [])") auto
  then have "read_request (s, ss) = Ret (q, (fst r, ss))" by (rule read_request_frame)
  with one show ?thesis by (simp add: readRequest_def)
qed

section \<open>Properties\<close>

text \<open>
  Sample messages, for the witnesses below: a \<^verbatim>\<open>SET_PARAMETER\<close> request with a body, and the
  answer to it.
\<close>

definition sample_request :: request where
  "sample_request =
     \<lparr>rq_Method = Set_Parameter, rq_URI = ''rtsp://10.0.0.7/1'', rq_protocol = ''RTSP/1.0'',
      rq_Headers = [''CSeq'' \<mapsto> ''3'', ''Content-Type'' \<mapsto> ''text/parameters''],
      rq_Body = ''volume: 0''\<rparr>"

definition sample_response :: response where
  "sample_response =
     \<lparr>rs_Headers = [''CSeq'' \<mapsto> ''3''], rs_Body = [], rs_Status = Ok, rs_protocol = ''RTSP/1.0''\<rparr>"

lemma sample_request_wire:
  "range_order [''CSeq'', ''Content-Type''] (rq_Headers sample_request)" "wire_request sample_request"
proof -
  show "range_order [''CSeq'', ''Content-Type''] (rq_Headers sample_request)"
    by (auto simp: range_order_def sample_request_def)
  have "wire_field ''CSeq'' ''3''" "wire_field ''Content-Type'' ''text/parameters''" by code_simp+
  then show "wire_request sample_request"
    by (simp add: wire_request_def sample_request_def method_defs wire_token_def max_alloc_def)
qed

lemma sample_response_wire:
  "range_order [''CSeq''] (rs_Headers sample_response)" "wire_response sample_response"
proof -
  show "range_order [''CSeq''] (rs_Headers sample_response)"
    by (auto simp: range_order_def sample_response_def)
  have "wire_field ''CSeq'' ''3''" by code_simp
  then show "wire_response sample_response"
    by (simp add: wire_response_def sample_response_def status_defs status_consts_def wire_token_def
        max_alloc_def)
qed

text \<open>
  C9. A request that \<^verbatim>\<open>writeRequest\<close> puts on a connection, with its headers visited in any
  order and its bytes cut into segments in any way, is read back by \<^verbatim>\<open>readRequest\<close> unchanged:
  same method, URI, protocol, headers (plus the \<^verbatim>\<open>Content-Length\<close> of a non-empty body) and
  body, and nothing of it is left on the connection. The method has to be one of the table
  and the header fields must hold no colon, newline or outer white space.
\<close>

theorem request_roundtrip:
  assumes "range_order ks (rq_Headers q)" and "wire_request q" and "concat segs = writeRequest ks q"
  shows "\<exists>left. readRequest segs = Ret (q\<lparr>rq_Headers := received (rq_Headers q) (rq_Body q)\<rparr>, left)
    \<and> concat left = []"
  using assms by (rule requests.recv_put)

theorem request_roundtrip_witness:
  "let w = writeRequest [''CSeq'', ''Content-Type''] sample_request in
   \<exists>left. readRequest [take 10 w, drop 10 w] =
     Ret (sample_request\<lparr>rq_Headers := received (rq_Headers sample_request) ''volume: 0''\<rparr>, left)
     \<and> concat left = []"
  using request_roundtrip [OF sample_request_wire,
      of "[take 10 (writeRequest [''CSeq'', ''Content-Type''] sample_request),
           drop 10 (writeRequest [''CSeq'', ''Content-Type''] sample_request)]"]
  by (simp add: sample_request_def)

text \<open>
  C10. A response that \<^verbatim>\<open>writeResponse\<close> puts on a connection is read back by \<^verbatim>\<open>readResponse\<close>
  unchanged, for every status of the table, every order of the headers and every cut of the
  bytes into segments.
\<close>

theorem response_roundtrip:
  assumes "range_order ks (rs_Headers q)" and "wire_response q" and "concat segs = writeResponse ks q"
  shows "\<exists>left. readResponse segs = Ret (q\<lparr>rs_Headers := received (rs_Headers q) (rs_Body q)\<rparr>, left)
    \<and> concat left = []"
  using assms by (rule responses.recv_put)

theorem response_roundtrip_witness:
  "\<exists>left. readResponse [writeResponse [''CSeq''] sample_response] =
     Ret (sample_response\<lparr>rs_Headers := received (rs_Headers sample_response) []\<rparr>, left)
     \<and> concat left = []"
  using response_roundtrip [OF sample_response_wire,
      of "[writeResponse [''CSeq''] sample_response]"]
  by (simp add: sample_response_def)

text \<open>
  C11. How the network cuts the bytes into segments, and how the reader's 4096-byte buffer
  fills, does not change what is parsed: the request or response, or the failure, that comes
  out is that of the parser on the plain string of bytes.
\<close>

theorem reading_ignores_segmentation:
  "map_res fst (readRequest segs) = map_res fst (parse_request (concat segs))
   \<and> map_res fst (readResponse segs) = map_res fst (parse_response (concat segs))"
  by (simp add: requests.recv_parse responses.recv_parse)

text \<open>
  Bytes that arrive in the same segment behind a request (a second, pipelined request, for
  instance) are lost: the reader that fetched them is dropped when \<^verbatim>\<open>readRequest\<close> returns,
  and the connection has nothing left to deliver.
\<close>

theorem pipelined_bytes_are_lost:
  assumes "range_order ks (rq_Headers q)" and "wire_request q"
    and "length (writeRequest ks q @ rest) \<le> 4096"
  shows "readRequest [writeRequest ks q @ rest] =
    Ret (q\<lparr>rq_Headers := received (rq_Headers q) (rq_Body q)\<rparr>, [])"
  using assms(3) by (intro readRequest_one_segment [OF _ parse_request_write [OF assms(1,2)]])
    (simp add: bufsize_def)

theorem pipelined_bytes_are_lost_witness:
  "let w = writeRequest [''CSeq'', ''Content-Type''] sample_request in
   readRequest [w @ w] =
     Ret (sample_request\<lparr>rq_Headers := received (rq_Headers sample_request) ''volume: 0''\<rparr>, [])"
proof -
  have "length (writeRequest [''CSeq'', ''Content-Type''] sample_request) \<le> 200" by code_simp
  then show ?thesis
    using pipelined_bytes_are_lost [OF sample_request_wire,
        of "writeRequest [''CSeq'', ''Content-Type''] sample_request"]
    by (simp add: sample_request_def)
qed

text \<open>
  The length a request announces is trusted: a \<^verbatim>\<open>Content-Length\<close> below 0 (or beyond the
  address space) makes \<^verbatim>\<open>readRequest\<close> panic, and a body that stops short of it ends the whole
  process through \<^verbatim>\<open>log.Fatal\<close>, not just the connection.
\<close>

theorem bad_body_length_is_fatal:
  assumes "cut_line (concat segs) = Some (l, p1)" and "request_line l = Ret h"
    and "parse_headers p1 Map.empty = Ret (hs, p2)" and "hs ''Content-Length'' = Some cl"
  shows "(fst (Atoi cl) < 0 \<or> max_alloc < fst (Atoi cl) \<longrightarrow>
      readRequest segs = Panic ''runtime error: makeslice: len out of range'')
    \<and> (int (length p2) < fst (Atoi cl) \<and> fst (Atoi cl) \<le> max_alloc \<longrightarrow>
      readRequest segs = Exit (if p2 = [] then ''EOF'' else ''unexpected EOF''))"
proof -
  have "parse_request (concat segs) = res_bind (parse_body hs p2) (\<lambda>(b, p3).
      Ret (\<lparr>rq_Method = fst h, rq_URI = fst (snd h), rq_protocol = snd (snd h), rq_Headers = hs,
            rq_Body = b\<rparr>, p3))"
    using assms by (simp add: parse_request_def case_prod_unfold)
  then show ?thesis
    using assms(4) by (auto simp: parse_body_def Let_def intro!: requests.recv_fails)
qed

theorem bad_body_length_is_fatal_witness:
  "readRequest [''PLAY * RTSP/1.0'' @ crlf @ ''Content-Length: -1'' @ crlf @ crlf] =
     Panic ''runtime error: makeslice: len out of range''"
proof -
  let ?p1 = "''Content-Length: -1'' @ crlf @ crlf"
  have "cut_line (concat [''PLAY * RTSP/1.0'' @ crlf @ ?p1]) = Some (''PLAY * RTSP/1.0'' @ crlf, ?p1)"
    by code_simp
  moreover have "request_line (''PLAY * RTSP/1.0'' @ crlf) = Ret (Play, ''*'', ''RTSP/1.0'')"
    by code_simp
  moreover have "parse_headers ?p1 Map.empty = Ret ([''Content-Length'' \<mapsto> ''-1''], [])"
    using parse_headers_line [OF wire_field_content_length [of "- 1"], of crlf Map.empty]
      parse_headers_end [of "[]"] by (simp add: Itoa_def show_dec.simps digit_def decimal_digits_def)
  moreover have "fst (Atoi ''-1'') < 0" by code_simp
  ultimately show ?thesis
    using bad_body_length_is_fatal [of "[''PLAY * RTSP/1.0'' @ crlf @ ?p1]"] by (simp del: append.simps)
qed

end
