(* ===== verification/Rtsp_Server.thy ===== *)
theory Rtsp_Server
  imports Rtsp_Parser
begin

text \<open>
  The two ends of an RTSP connection: \<^verbatim>\<open>rtsp/server.go\<close> and \<^verbatim>\<open>rtsp/client.go\<close>.

  A handler is a function that may change the state of the program behind the server (\<open>'s\<close>)
  and fills in the response it is given. The server's connection loop \<open>serve\<close> reads requests
  from the connection's segments until the stream ends or a request cannot be read; it yields
  the responses it wrote, how it ended, and the state. Writing an answer may fail, which ends the
  process. \<open>ord\<close> picks the order in which a response's headers are visited.

  The client is its sequence number, a 64-bit integer that wraps around; its peer is any
  function from the bytes sent to the segments that come back.
\<close>

section \<open>The server\<close>

type_synonym 's handler = "request \<Rightarrow> response \<Rightarrow> string \<Rightarrow> string \<Rightarrow> ('s, response) proc"

record 's server =
  sv_port :: int
  sv_handlers :: "rtsp_method \<rightharpoonup> 's handler"

definition NewServer :: "int \<Rightarrow> 's server" where
  "NewServer port = \<lparr>sv_port = port, sv_handlers = Map.empty\<rparr>"

definition AddHandler :: "rtsp_method \<Rightarrow> 's handler \<Rightarrow> 's server \<Rightarrow> 's server" where
  "AddHandler m h sv = sv\<lparr>sv_handlers := (sv_handlers sv)(m \<mapsto> h)\<rparr>"

text \<open>A look-up in a Go map of strings: a missing key reads as the empty string.\<close>

definition get :: "(string \<rightharpoonup> string) \<Rightarrow> string \<Rightarrow> string" where
  "get m k = (case m k of None \<Rightarrow> [] | Some v \<Rightarrow> v)"

text \<open>The response a handler starts from: the request's protocol and sequence number.\<close>

definition initial_response :: "request \<Rightarrow> response" where
  "initial_response q =
     NewResponse\<lparr>rs_protocol := rq_protocol q,
       rs_Headers := [''CSeq'' \<mapsto> get (rq_Headers q) ''CSeq'']\<rparr>"

lemma parse_headers_shrinks: "parse_headers p hs = Ret (hs', p') \<Longrightarrow> length p' < length p"
proof (induction p hs rule: parse_headers.induct)
  case (1 p hs)
  then obtain l p1 where l: "cut_line p = Some (l, p1)"
    by (auto simp: parse_headers.simps [of p] split: option.splits)
  then have less: "length p1 < length p" by (simp add: cut_line_parts)
  show ?case
  proof (cases "trim_set {CR, LF} l = []")
    case True
    with "1.prems" l less show ?thesis by (simp add: parse_headers.simps [of p])
  next
    case False
    with "1.prems" l obtain k v where "parse_headers p1 (hs(k \<mapsto> v)) = Ret (hs', p')"
      by (auto simp: parse_headers.simps [of p] res_bind_Ret_iff)
    then have "length p' < length p1" using "1.IH" [OF l refl refl False] by metis
    with less show ?thesis by simp
  qed
qed

lemma parse_body_shrinks: "parse_body hs p = Ret (b, p') \<Longrightarrow> length p' \<le> length p"
  by (auto simp: parse_body_def Let_def split: option.splits if_splits)

lemma parse_request_shrinks:
  assumes "parse_request p = Ret (q, p')"
  shows "length p' < length p"
proof -
  obtain l p1 hs p2 b where *: "cut_line p = Some (l, p1)" "parse_headers p1 Map.empty = Ret (hs, p2)"
    "parse_body hs p2 = Ret (b, p')"
    using assms by (auto simp: parse_request_def res_bind_Ret_iff split: option.splits)
  have "length p1 < length p" using *(1) by (simp add: cut_line_parts)
  with parse_headers_shrinks [OF *(2)] parse_body_shrinks [OF *(3)] show ?thesis by linarith
qed

lemma readRequest_shrinks:
  assumes "readRequest segs = Ret (q, segs')"
  shows "length (concat segs') < length (concat segs)"
proof -
  obtain p where p: "parse_request (concat segs) = Ret (q, p)"
    using requests.recv_parse [of segs] assms by (cases "parse_request (concat segs)") auto
  then have "length (concat segs') \<le> length p"
    using requests.recv_Ret [OF p] assms by auto
  with parse_request_shrinks [OF p] show ?thesis by simp
qed

text \<open>
  The connection loop. A request whose method has no handler is skipped without an answer; a
  request that cannot be read closes the connection; a handler that panics (or a request that
  makes the reader panic or exit) takes the process down, and one that blocks keeps the connection
  for ever. \<open>wr k\<close> is the error, if any, of the \<open>k\<close>-th answer that is written; it ends the process.
\<close>

function serve :: "(rtsp_method \<rightharpoonup> 's handler) \<Rightarrow> ((string \<rightharpoonup> string) \<Rightarrow> string list) \<Rightarrow>
    string \<Rightarrow> string \<Rightarrow> (nat \<Rightarrow> string option) \<Rightarrow> string list \<Rightarrow> 's \<Rightarrow> string list \<times> unit res \<times> 's" where
  "serve handlers ord localAddr remoteAddr wr segs s =
     (case readRequest segs of
        Err e \<Rightarrow> ([], Ret (), s)
      | Panic e \<Rightarrow> ([], Panic e, s)
      | Exit e \<Rightarrow> ([], Exit e, s)
      | Hang \<Rightarrow> ([], Hang, s)
      | Ret (q, segs') \<Rightarrow>
          (case handlers (rq_Method q) of
             None \<Rightarrow> serve handlers ord localAddr remoteAddr wr segs' s
           | Some h \<Rightarrow>
               (case h q (initial_response q) localAddr remoteAddr s of
                  (Ret resp, s') \<Rightarrow>
                    (case wr 0 of
                       Some e \<Rightarrow> ([], Exit e, s')
                     | None \<Rightarrow>
                         (case serve handlers ord localAddr remoteAddr (\<lambda>k. wr (k + 1)) segs' s' of
                            (out, r, s'') \<Rightarrow> (writeResponse (ord (rs_Headers resp)) resp # out, r, s'')))
                | (Err e, s') \<Rightarrow> ([], Err e, s')
                | (Panic e, s') \<Rightarrow> ([], Panic e, s')
                | (Exit e, s') \<Rightarrow> ([], Exit e, s')
                | (Hang, s') \<Rightarrow> ([], Hang, s'))))"
  by pat_completeness auto
termination serve
  by (relation "measure (\<lambda>(handlers, ord, la, ra, wr, segs, s). length (concat segs))")
    (auto dest: readRequest_shrinks)

text \<open>A peer that takes every answer.\<close>

abbreviation all_written :: "nat \<Rightarrow> string option" where
  "all_written \<equiv> (\<lambda>k. None)"

declare serve.simps [simp del]

section \<open>The client\<close>

record client =
  cl_seq :: "64 word"

text \<open>\<open>dial\<close> is the outcome of connecting.\<close>

definition fresh_client :: client where
  "fresh_client = \<lparr>cl_seq = 1\<rparr>"

definition NewClient :: "unit res \<Rightarrow> client res" where
  "NewClient dial = map_res (\<lambda>conn. fresh_client) dial"

text \<open>The request as \<^verbatim>\<open>Send\<close> puts it on the wire.\<close>

definition stamped :: "client \<Rightarrow> request \<Rightarrow> request" where
  "stamped c q =
     q\<lparr>rq_Headers := (rq_Headers q)(''CSeq'' \<mapsto> Itoa (sint (cl_seq c)),
         ''User-Agent'' \<mapsto> ''Bobcaygeon/1.0'')\<rparr>"

definition Send :: "((string \<rightharpoonup> string) \<Rightarrow> string list) \<Rightarrow> (string \<Rightarrow> ('p, string list) proc) \<Rightarrow>
    request \<Rightarrow> (client \<times> 'p, response) proc" where
  "Send ord peer q = (\<lambda>(c, p).
     let c' = c\<lparr>cl_seq := cl_seq c + 1\<rparr> in
     (case peer (writeRequest (ord (rq_Headers (stamped c q))) (stamped c q)) p of
        (Ret segs, p') \<Rightarrow> (map_res fst (readResponse segs), (c', p'))
      | (Err e, p') \<Rightarrow> (Err e, (c', p'))
      | (Panic e, p') \<Rightarrow> (Panic e, (c', p'))
      | (Exit e, p') \<Rightarrow> (Exit e, (c', p'))
      | (Hang, p') \<Rightarrow> (Hang, (c', p'))))"

text \<open>
  A peer that is a server of this package on its own connection: the bytes arrive in one piece
  and the answers come back. A request that is passed over leaves the client waiting; one that
  cannot be read closes the connection.
\<close>

definition server_peer :: "(rtsp_method \<rightharpoonup> 's handler) \<Rightarrow> ((string \<rightharpoonup> string) \<Rightarrow> string list) \<Rightarrow>
    string \<Rightarrow> string \<Rightarrow> string \<Rightarrow> ('s, string list) proc" where
  "server_peer handlers ord localAddr remoteAddr bytes s =
     (case serve handlers ord localAddr remoteAddr all_written [bytes] s of
        (out, Ret _, s') \<Rightarrow>
          (if out \<noteq> [] then Ret out else if is_ret (readRequest [bytes]) then Hang else Err ''EOF'', s')
      | (out, Err e, s') \<Rightarrow> (Err e, s')
      | (out, Panic e, s') \<Rightarrow> (Err ''EOF'', s')
      | (out, Exit e, s') \<Rightarrow> (Err ''EOF'', s')
      | (out, Hang, s') \<Rightarrow> (Hang, s'))"

section \<open>What the connection loop computes\<close>

text \<open>
  The loop's specification, on a list of requests: every request with a handler is answered, in
  order, each handler running in the state the previous one left; the others are passed over.
\<close>

primrec handle_all :: "(rtsp_method \<rightharpoonup> 's handler) \<Rightarrow> string \<Rightarrow> string \<Rightarrow> request list \<Rightarrow> 's \<Rightarrow>
    response list \<times> unit res \<times> 's" where
  "handle_all handlers la ra [] s = ([], Ret (), s)"
| "handle_all handlers la ra (q # qs) s =
     (case handlers (rq_Method q) of
        None \<Rightarrow> handle_all handlers la ra qs s
      | Some h \<Rightarrow>
          (case h q (initial_response q) la ra s of
             (Ret resp, s') \<Rightarrow>
               (case handle_all handlers la ra qs s' of (out, r, s'') \<Rightarrow> (resp # out, r, s''))
           | (Err e, s') \<Rightarrow> ([], Err e, s')
           | (Panic e, s') \<Rightarrow> ([], Panic e, s')
           | (Exit e, s') \<Rightarrow> ([], Exit e, s')
           | (Hang, s') \<Rightarrow> ([], Hang, s')))"

definition carries :: "string \<Rightarrow> request \<Rightarrow> bool" where
  "carries seg q \<longleftrightarrow> length seg \<le> bufsize \<and> map_res fst (parse_request seg) = Ret q"

lemma readRequest_carried: "carries seg q \<Longrightarrow> readRequest (seg # segs) = Ret (q, segs)"
  by (cases "parse_request seg") (auto simp: carries_def intro: readRequest_one_segment)

lemma readRequest_closed: "readRequest [] = Err ''EOF''"
  by (rule requests.recv_fails) (simp add: parse_request_def)

lemma serve_carried:
  assumes "list_all2 carries segs qs"
  shows "serve handlers ord la ra all_written segs s =
    apfst (map (\<lambda>p. writeResponse (ord (rs_Headers p)) p)) (handle_all handlers la ra qs s)"
  using assms
proof (induction segs qs arbitrary: s rule: list_all2_induct)
  case Nil
  then show ?case by (simp add: serve.simps [of _ _ _ _ _ "[]"] readRequest_closed)
next
  case (Cons seg segs q qs)
  then show ?case
    by (auto simp: serve.simps [of _ _ _ _ _ "seg # segs"] readRequest_carried
        split: option.splits prod.splits res.splits)
qed

text \<open>One request on a connection, of any length and cut in any way.\<close>

lemma serve_empty:
  assumes "concat segs = []"
  shows "serve handlers ord la ra all_written segs s = ([], Ret (), s)"
proof -
  have "readRequest segs = Err ''EOF''" by (rule requests.recv_fails) (simp only: assms, simp add: parse_request_def)
  then show ?thesis by (simp add: serve.simps [of _ _ _ _ _ segs])
qed

lemma serve_one:
  assumes "range_order ks (rq_Headers q)" and "wire_request q" and "concat segs = writeRequest ks q"
    and "r = q\<lparr>rq_Headers := received (rq_Headers q) (rq_Body q)\<rparr>"
    and "handlers (rq_Method q) = Some h" and "h r (initial_response r) la ra s = (Ret resp, s')"
  shows "serve handlers ord la ra all_written segs s = ([writeResponse (ord (rs_Headers resp)) resp], Ret (), s')"
proof -
  obtain left where "readRequest segs = Ret (r, left)" "concat left = []"
    using requests.recv_put [OF assms(1-3)] assms(4) by auto
  then show ?thesis using assms(4-6) by (simp add: serve.simps [of _ _ _ _ _ segs] serve_empty)
qed

lemma Send_served:
  assumes "range_order (ord (rq_Headers (stamped c q))) (rq_Headers (stamped c q))" and "wire_request (stamped c q)"
    and "handlers (rq_Method q) = Some h"
    and "r = (stamped c q)\<lparr>rq_Headers := received (rq_Headers (stamped c q)) (rq_Body q)\<rparr>"
    and "h r (initial_response r) la ra s = (Ret resp, s')"
    and "range_order (ord' (rs_Headers resp)) (rs_Headers resp)" and "wire_response resp"
  shows "Send ord (server_peer handlers ord' la ra) q (c, s) =
    (Ret (resp\<lparr>rs_Headers := received (rs_Headers resp) (rs_Body resp)\<rparr>), (c\<lparr>cl_seq := cl_seq c + 1\<rparr>, s'))"
proof -
  define w where "w = writeRequest (ord (rq_Headers (stamped c q))) (stamped c q)"
  have "serve handlers ord' la ra all_written [w] s = ([writeResponse (ord' (rs_Headers resp)) resp], Ret (), s')"
  proof (rule serve_one [OF assms(1,2)])
    show "r = (stamped c q)\<lparr>rq_Headers := received (rq_Headers (stamped c q)) (rq_Body (stamped c q))\<rparr>"
      "handlers (rq_Method (stamped c q)) = Some h"
      using assms(3,4) by (simp_all add: stamped_def)
  qed (simp_all add: w_def assms(5))
  moreover have "\<exists>left. readResponse [writeResponse (ord' (rs_Headers resp)) resp] =
      Ret (resp\<lparr>rs_Headers := received (rs_Headers resp) (rs_Body resp)\<rparr>, left) \<and> concat left = []"
    using assms(6,7) by (rule responses.recv_put) simp
  ultimately show ?thesis by (auto simp: Send_def server_peer_def Let_def simp flip: w_def)
qed

section \<open>Properties\<close>

text \<open>
  Requests that arrive one per segment are handled as a list: the server's read loop writes
  exactly the responses of the handlers, in the order of the requests and serialised with
  \<^verbatim>\<open>writeResponse\<close>, passes over the requests whose method has no handler, and leaves the state
  that running the handlers one after the other leaves. (The segments have to fit the reader's
  buffer; what a segment carries is what the parser reads from its bytes.)
\<close>

theorem serve_handles_in_order:
  assumes "list_all2 (\<lambda>seg q. length seg \<le> 4096 \<and> map_res fst (parse_request seg) = Ret q) segs qs"
  shows "serve handlers ord la ra all_written segs s =
    (case handle_all handlers la ra qs s of
       (out, r, s') \<Rightarrow> (map (\<lambda>p. writeResponse (ord (rs_Headers p)) p) out, r, s'))"
proof -
  have "list_all2 carries segs qs"
    using assms by (rule list.rel_mono_strong) (simp add: carries_def bufsize_def)
  then show ?thesis by (simp add: serve_carried apfst_def map_prod_def split: prod.splits)
qed

text \<open>A handler for the samples below: it answers 200 and counts the bytes it was sent.\<close>

definition count_handler :: "nat handler" where
  "count_handler q resp la ra n = (Ret (resp\<lparr>rs_Status := Ok\<rparr>), n + length (rq_Body q))"

lemma sample_carried:
  "carries (writeRequest [''CSeq'', ''Content-Type''] sample_request)
     (sample_request\<lparr>rq_Headers := received (rq_Headers sample_request) (rq_Body sample_request)\<rparr>)"
proof -
  have "length (writeRequest [''CSeq'', ''Content-Type''] sample_request) \<le> 200" by code_simp
  then show ?thesis
    using requests.parse_put [OF sample_request_wire, of "[]"] by (simp add: carries_def bufsize_def)
qed

theorem serve_handles_in_order_witness:
  "let w = writeRequest [''CSeq'', ''Content-Type''] sample_request in
   snd (serve [Set_Parameter \<mapsto> count_handler] (\<lambda>_. [''CSeq'']) ''a'' ''b'' all_written [w, w] 0) = (Ret (), 18)"
proof -
  define w where "w = writeRequest [''CSeq'', ''Content-Type''] sample_request"
  define r where "r = sample_request
    \<lparr>rq_Headers := received (rq_Headers sample_request) (rq_Body sample_request)\<rparr>"
  have "length w \<le> 4096 \<and> map_res fst (parse_request w) = Ret r"
    using sample_carried by (simp add: carries_def bufsize_def w_def r_def)
  moreover have "rq_Method r = Set_Parameter" "length (rq_Body r) = 9"
    by (simp_all add: r_def sample_request_def)
  ultimately show ?thesis
    unfolding w_def [symmetric] Let_def
    by (simp add: serve_handles_in_order [of "[w, w]" "[r, r]"] count_handler_def)
qed

text \<open>
  C12. One round trip between this package's client and server: a request that \<^verbatim>\<open>Send\<close> stamps
  with the client's sequence number reaches the handler of its method as sent (with
  \<^verbatim>\<open>CSeq\<close> and \<^verbatim>\<open>User-Agent\<close> set), the handler's response comes back as \<^verbatim>\<open>Send\<close>'s result, the
  handler has run exactly once, and the client's sequence number has advanced by one (modulo
  2 to the 64). The iteration orders are any orders of the headers, and the body may be longer than
  the reader's buffer.
\<close>

theorem send_reaches_handler:
  assumes "range_order (ord (rq_Headers (stamped c q))) (rq_Headers (stamped c q))"
    and "wire_request (stamped c q)"
    and "handlers (rq_Method q) = Some h"
    and "r = (stamped c q)\<lparr>rq_Headers := received (rq_Headers (stamped c q)) (rq_Body q)\<rparr>"
    and "h r (initial_response r) la ra s = (Ret resp, s')"
    and "range_order (ord' (rs_Headers resp)) (rs_Headers resp)" and "wire_response resp"
  shows "Send ord (server_peer handlers ord' la ra) q (c, s) =
    (Ret (resp\<lparr>rs_Headers := received (rs_Headers resp) (rs_Body resp)\<rparr>),
     (c\<lparr>cl_seq := cl_seq c + 1\<rparr>, s'))"
  using assms by (rule Send_served)

definition sample_order :: "(string \<rightharpoonup> string) \<Rightarrow> string list" where
  "sample_order m = filter (\<lambda>k. m k \<noteq> None) [''CSeq'', ''Content-Type'', ''User-Agent'']"

definition ok_handler :: "nat handler" where
  "ok_handler q resp la ra n = (Ret sample_response, n + length (rq_Body q))"

theorem send_reaches_handler_witness:
  "Send sample_order (server_peer [Set_Parameter \<mapsto> ok_handler] sample_order ''a'' ''b'')
     sample_request (fresh_client, 5) =
   (Ret (sample_response\<lparr>rs_Headers := received (rs_Headers sample_response) []\<rparr>),
    (fresh_client\<lparr>cl_seq := 2\<rparr>, 14))"
proof -
  have hs: "rq_Headers (stamped fresh_client sample_request) = [''CSeq'' \<mapsto> ''1'',
      ''Content-Type'' \<mapsto> ''text/parameters'', ''User-Agent'' \<mapsto> ''Bobcaygeon/1.0'']"
    by (rule ext)
      (simp add: stamped_def fresh_client_def sample_request_def Itoa_def show_dec.simps digit_def
        decimal_digits_def)
  have rest: "rq_Method (stamped fresh_client sample_request) = Set_Parameter"
    "rq_URI (stamped fresh_client sample_request) = ''rtsp://10.0.0.7/1''"
    "rq_protocol (stamped fresh_client sample_request) = ''RTSP/1.0''"
    "rq_Body (stamped fresh_client sample_request) = ''volume: 0''"
    by (simp_all add: stamped_def sample_request_def)
  have order: "sample_order (rq_Headers (stamped fresh_client sample_request)) =
      [''CSeq'', ''Content-Type'', ''User-Agent'']"
    by (simp add: hs sample_order_def)
  let ?q = "stamped fresh_client sample_request"
  have "range_order (sample_order (rq_Headers ?q)) (rq_Headers ?q)"
    unfolding order unfolding hs by (auto simp: range_order_def)
  moreover have "wire_field ''CSeq'' ''1''" "wire_field ''Content-Type'' ''text/parameters''"
    "wire_field ''User-Agent'' ''Bobcaygeon/1.0''" by code_simp+
  then have "wire_request ?q"
    by (simp add: wire_request_def hs rest method_defs wire_token_def max_alloc_def)
  moreover have "sample_order (rs_Headers sample_response) = [''CSeq'']"
    by (simp add: sample_order_def sample_response_def)
  moreover have "rq_Method sample_request = Set_Parameter" "rs_Body sample_response = []"
    "cl_seq fresh_client + 1 = 2"
    by (simp_all add: sample_request_def sample_response_def fresh_client_def)
  ultimately show ?thesis
    using send_reaches_handler [OF _ _ _ refl, of sample_order fresh_client sample_request
        "[Set_Parameter \<mapsto> ok_handler]" ok_handler "''a''" "''b''" 5 sample_response 14 sample_order]
      sample_response_wire order rest
    by (simp add: ok_handler_def)
qed

end
