(* ===== verification/Handshake.thy ===== *)
theory Handshake
  imports Rtsp_Server Session
begin

text \<open>
  The client's side of an AirPlay session: the handshake of \<^verbatim>\<open>raop/client.go\<close>, a state machine of
  four requests, OPTIONS, ANNOUNCE, SETUP and RECORD, each of which has to be answered with status
  200 before the next is sent.

  The connection (\<open>env\<close>) fixes the peer, the order in which headers and attributes are visited,
  the time, and the two addresses. The state functions change the client's sequence number, the
  peer and the session.
\<close>

record 'p env =
  ev_ord :: "(string \<rightharpoonup> string) \<Rightarrow> string list"
  ev_peer :: "string \<Rightarrow> ('p, string list) proc"
  ev_now :: int
  ev_local :: string
  ev_remote :: string

type_synonym 'p world = "(client \<times> 'p) \<times> session"

datatype state_fn = Initial | Announcing | SettingUp | Recording

section \<open>The state functions\<close>

text \<open>Send a request and insist on status 200.\<close>

definition send_ok :: "'p env \<Rightarrow> request \<Rightarrow> ('p world, response) proc" where
  "send_ok env q = (\<lambda>(cp, session).
     case Send (ev_ord env) (ev_peer env) q cp of
       (Ret resp, cp') \<Rightarrow>
         (if rs_Status resp \<noteq> Ok then Err (''Non-ok status returned: '' @ Status_String (rs_Status resp))
          else Ret resp, (cp', session))
     | (Err e, cp') \<Rightarrow> (Err e, (cp', session))
     | (Panic e, cp') \<Rightarrow> (Panic e, (cp', session))
     | (Exit e, cp') \<Rightarrow> (Exit e, (cp', session))
     | (Hang, cp') \<Rightarrow> (Hang, (cp', session)))"

definition get_session :: "('p world, session) proc" where
  "get_session w = (Ret (snd w), w)"

definition put_session :: "session \<Rightarrow> ('p world, unit) proc" where
  "put_session s w = (Ret (), (fst w, s))"

definition initial_fn :: "'p env \<Rightarrow> ('p world, state_fn option) proc" where
  "initial_fn env =
     bindP (send_ok env (NewRequest\<lparr>rq_Method := Options, rq_URI := ''*''\<rparr>))
       (\<lambda>_. retP (Some Announcing))"

text \<open>The description that ANNOUNCE fills in and sends.\<close>

definition announced :: "'p env \<Rightarrow> session_description \<Rightarrow> session_description" where
  "announced env sd =
     sd\<lparr>sd_Origin := \<lparr>or_Username = ''bcp'', or_SessionID = Itoa (ev_now env), or_SessionVersion = ''0'',
          or_NetType = ''IN'', or_AddrType = ''IP4'', or_UnicastAddress = ev_local env\<rparr>,
        sd_ConnectData := \<lparr>cd_NetType = ''IN'', cd_AddrType = ''IP4'', cd_ConnectionAddress = ev_local env\<rparr>,
        sd_Timing := \<lparr>ti_StartTime = 0, ti_StopTime = 0\<rparr>,
        sd_MediaDescription := [\<lparr>md_Media = ''audio'', md_Port = ''0'', md_Proto = ''RTP/AVP'', md_Fmt = ''96''\<rparr>],
        sd_Attributes := [''rtpmap'' \<mapsto> ''96 AppleLossless'']\<rparr>"

definition announce_request :: "'p env \<Rightarrow> session_description \<Rightarrow> request" where
  "announce_request env sd =
     NewRequest\<lparr>rq_Method := Announce,
       rq_URI := ''rtsp://'' @ ev_local env @ ''/'' @ Itoa (ev_now env),
       rq_Headers := [''Content-Type'' \<mapsto> ''application/sdp''],
       rq_Body := Write (ev_ord env (sd_Attributes sd)) sd\<rparr>"

definition announce_fn :: "'p env \<Rightarrow> ('p world, state_fn option) proc" where
  "announce_fn env =
     bindP get_session (\<lambda>session.
       let session' = session\<lparr>se_Description := announced env (se_Description session)\<rparr> in
       bindP (put_session session') (\<lambda>_.
       bindP (send_ok env (announce_request env (se_Description session'))) (\<lambda>_.
       retP (Some SettingUp))))"

text \<open>The value after the equals sign, when a part of the transport header names the port.\<close>

definition port_in :: "string \<Rightarrow> string \<Rightarrow> int \<Rightarrow> int res" where
  "port_in name part old =
     (if contains name part
      then res_bind (index (split_on (CHR ''='') part) 1) (\<lambda>v. Ret (fst (Atoi v)))
      else Ret old)"

primrec setup_ports :: "string list \<Rightarrow> int \<times> int \<times> int \<Rightarrow> (int \<times> int \<times> int) res" where
  "setup_ports [] ports = Ret ports"
| "setup_ports (part # parts) ports =
     (case ports of (controlPort, timingPort, serverPort) \<Rightarrow>
        res_bind (port_in ''control_port'' part controlPort) (\<lambda>c.
        res_bind (port_in ''timing_port'' part timingPort) (\<lambda>t.
        res_bind (port_in ''server_port'' part serverPort) (\<lambda>d.
        setup_ports parts (c, t, d)))))"

definition session_uri :: "'p env \<Rightarrow> session \<Rightarrow> string" where
  "session_uri env session =
     ''rtsp://'' @ ev_local env @ ''/'' @ or_SessionID (sd_Origin (se_Description session))"

definition setup_request :: "'p env \<Rightarrow> session \<Rightarrow> request" where
  "setup_request env session =
     NewRequest\<lparr>rq_Method := Setup, rq_URI := session_uri env session,
       rq_Headers := [''Transport'' \<mapsto>
         ''RTP/AVP/UDP;unicast;interleaved=0-1;mode=record;control_port=8888;timing_port=8889'']\<rparr>"

definition setup_fn :: "'p env \<Rightarrow> ('p world, state_fn option) proc" where
  "setup_fn env =
     bindP get_session (\<lambda>session.
     bindP (send_ok env (setup_request env session)) (\<lambda>resp.
     bindP (liftR (setup_ports (split_on (CHR '';'') (get (rs_Headers resp) ''Transport'')) (0, 0, 0)))
       (\<lambda>(controlPort, timingPort, serverPort).
     bindP (put_session (session\<lparr>se_RemotePorts :=
         \<lparr>ps_Address = ev_remote env, ps_Control = controlPort, ps_Timing = timingPort,
          ps_Data = serverPort\<rparr>\<rparr>)) (\<lambda>_.
     retP (Some Recording)))))"

definition record_request :: "'p env \<Rightarrow> session \<Rightarrow> request" where
  "record_request env session = NewRequest\<lparr>rq_Method := Record, rq_URI := session_uri env session\<rparr>"

definition record_fn :: "'p env \<Rightarrow> ('p world, state_fn option) proc" where
  "record_fn env =
     bindP get_session (\<lambda>session.
     bindP (send_ok env (record_request env session)) (\<lambda>_. retP None))"

section \<open>The state machine\<close>

fun state_proc :: "'p env \<Rightarrow> state_fn \<Rightarrow> ('p world, state_fn option) proc" where
  "state_proc env Initial = initial_fn env"
| "state_proc env Announcing = announce_fn env"
| "state_proc env SettingUp = setup_fn env"
| "state_proc env Recording = record_fn env"

text \<open>How many states are left; it drives the termination of the handshake loop.\<close>

fun states_left :: "state_fn \<Rightarrow> nat" where
  "states_left Initial = 3"
| "states_left Announcing = 2"
| "states_left SettingUp = 1"
| "states_left Recording = 0"

lemma bindP_Ret_cases:
  "bindP m f s = (Ret b, s') \<Longrightarrow> \<exists>a t. m s = (Ret a, t) \<and> f a t = (Ret b, s')"
  by (auto simp: bindP_def split: prod.splits res.splits)

lemma state_proc_next:
  "state_proc env st w = (Ret (Some st'), w') \<Longrightarrow> states_left st' < states_left st"
  by (cases st)
    (auto simp: initial_fn_def announce_fn_def setup_fn_def record_fn_def Let_def get_session_def put_session_def
      split: prod.splits dest!: bindP_Ret_cases)

text \<open>The loop of \<^verbatim>\<open>EstablishSession\<close> around \<^verbatim>\<open>transistion\<close>.\<close>

function handshake :: "'p env \<Rightarrow> state_fn \<Rightarrow> 'p world \<Rightarrow> unit res \<times> 'p world" where
  "handshake env st w =
     (case state_proc env st w of
        (Ret None, w') \<Rightarrow> (Ret (), w')
      | (Ret (Some st'), w') \<Rightarrow> handshake env st' w'
      | (Err e, w') \<Rightarrow> (Err e, w')
      | (Panic e, w') \<Rightarrow> (Panic e, w')
      | (Exit e, w') \<Rightarrow> (Exit e, w')
      | (Hang, w') \<Rightarrow> (Hang, w'))"
  by pat_completeness auto
termination handshake
  by (relation "measure (\<lambda>(env, st, w). states_left st)") (auto dest: state_proc_next [OF sym])

declare handshake.simps [simp del]

text \<open>\<open>conn\<close> is the outcome of dialling the peer.\<close>

definition EstablishSession :: "'p env \<Rightarrow> unit res \<Rightarrow> ('p, session) proc" where
  "EstablishSession env conn p =
     (case NewClient conn of
        Ret client \<Rightarrow>
          (let session = NewSession NewSessionDescription None;
               session' = session\<lparr>se_RemotePorts := (se_RemotePorts session)\<lparr>ps_Address := ev_remote env\<rparr>\<rparr> in
           case handshake env Initial ((client, p), session') of
             (r, ((c, p'), s)) \<Rightarrow> (map_res (\<lambda>_. s) r, p'))
      | Err e \<Rightarrow> (Err e, p)
      | Panic e \<Rightarrow> (Panic e, p)
      | Exit e \<Rightarrow> (Exit e, p)
      | Hang \<Rightarrow> (Hang, p))"

section \<open>Successful handshakes\<close>

lemma bindP_Ret_iff:
  "bindP m f s = (Ret b, s') \<longleftrightarrow> (\<exists>a t. m s = (Ret a, t) \<and> f a t = (Ret b, s'))"
  by (auto simp: bindP_def split: prod.splits res.splits)

lemma send_ok_iff:
  "send_ok env q (cp, s) = (Ret r, w) \<longleftrightarrow>
     (\<exists>cp'. Send (ev_ord env) (ev_peer env) q cp = (Ret r, cp') \<and> rs_Status r = Ok \<and> w = (cp', s))"
  by (auto simp: send_ok_def split: prod.splits res.splits if_splits)

lemma handshake_iff:
  "handshake env st w = (Ret (), w') \<longleftrightarrow>
     state_proc env st w = (Ret None, w')
     \<or> (\<exists>st' t. state_proc env st w = (Ret (Some st'), t) \<and> handshake env st' t = (Ret (), w'))"
  by (subst handshake.simps) (auto split: prod.splits res.splits option.splits)

lemma state_iffs:
  "initial_fn env (cp, s) = (Ret o', w) \<longleftrightarrow>
     (\<exists>r cp'. Send (ev_ord env) (ev_peer env) (NewRequest\<lparr>rq_Method := Options, rq_URI := ''*''\<rparr>) cp = (Ret r, cp')
       \<and> rs_Status r = Ok \<and> w = (cp', s) \<and> o' = Some Announcing)"
  "announce_fn env (cp, s) = (Ret o', w) \<longleftrightarrow>
     (\<exists>r cp'. Send (ev_ord env) (ev_peer env) (announce_request env (announced env (se_Description s))) cp = (Ret r, cp')
       \<and> rs_Status r = Ok \<and> w = (cp', s\<lparr>se_Description := announced env (se_Description s)\<rparr>)
       \<and> o' = Some SettingUp)"
  "setup_fn env (cp, s) = (Ret o', w) \<longleftrightarrow>
     (\<exists>r cp' c t d. Send (ev_ord env) (ev_peer env) (setup_request env s) cp = (Ret r, cp')
       \<and> rs_Status r = Ok
       \<and> setup_ports (split_on (CHR '';'') (get (rs_Headers r) ''Transport'')) (0, 0, 0) = Ret (c, t, d)
       \<and> w = (cp', s\<lparr>se_RemotePorts := \<lparr>ps_Address = ev_remote env, ps_Control = c, ps_Timing = t, ps_Data = d\<rparr>\<rparr>)
       \<and> o' = Some Recording)"
  "record_fn env (cp, s) = (Ret o', w) \<longleftrightarrow>
     (\<exists>r cp'. Send (ev_ord env) (ev_peer env) (record_request env s) cp = (Ret r, cp')
       \<and> rs_Status r = Ok \<and> w = (cp', s) \<and> o' = None)"
  by (auto simp: initial_fn_def announce_fn_def setup_fn_def record_fn_def bindP_Ret_iff send_ok_iff
      get_session_def put_session_def liftR_def Let_def)

text \<open>The loop, state by state.\<close>

lemma handshake_recording:
  "handshake env Recording (cp, s) = (Ret (), w) \<longleftrightarrow>
     (\<exists>r cp'. Send (ev_ord env) (ev_peer env) (record_request env s) cp = (Ret r, cp')
       \<and> rs_Status r = Ok \<and> w = (cp', s))"
  by (subst handshake_iff) (auto simp: state_iffs)

lemma handshake_setting_up:
  "handshake env SettingUp (cp, s) = (Ret (), w) \<longleftrightarrow>
     (\<exists>r cp' c t d. Send (ev_ord env) (ev_peer env) (setup_request env s) cp = (Ret r, cp')
       \<and> rs_Status r = Ok
       \<and> setup_ports (split_on (CHR '';'') (get (rs_Headers r) ''Transport'')) (0, 0, 0) = Ret (c, t, d)
       \<and> handshake env Recording (cp', s\<lparr>se_RemotePorts :=
            \<lparr>ps_Address = ev_remote env, ps_Control = c, ps_Timing = t, ps_Data = d\<rparr>\<rparr>) = (Ret (), w))"
  by (subst handshake_iff) (auto simp: state_iffs)

lemma handshake_announcing:
  "handshake env Announcing (cp, s) = (Ret (), w) \<longleftrightarrow>
     (\<exists>r cp'. Send (ev_ord env) (ev_peer env) (announce_request env (announced env (se_Description s))) cp = (Ret r, cp')
       \<and> rs_Status r = Ok
       \<and> handshake env SettingUp (cp', s\<lparr>se_Description := announced env (se_Description s)\<rparr>) = (Ret (), w))"
  by (subst handshake_iff) (auto simp: state_iffs)

lemma handshake_initial:
  "handshake env Initial (cp, s) = (Ret (), w) \<longleftrightarrow>
     (\<exists>r cp'. Send (ev_ord env) (ev_peer env) (NewRequest\<lparr>rq_Method := Options, rq_URI := ''*''\<rparr>) cp = (Ret r, cp')
       \<and> rs_Status r = Ok \<and> handshake env Announcing (cp', s) = (Ret (), w))"
  by (subst handshake_iff) (auto simp: state_iffs)

section \<open>Properties\<close>

text \<open>
  \<^verbatim>\<open>EstablishSession\<close> succeeds exactly when OPTIONS, ANNOUNCE, SETUP and RECORD, sent in this
  order on one connection, are each answered with status 200 and the ports of SETUP's answer
  parse; the session it returns carries the announced description and the peer's address and
  ports as that answer gave them.
\<close>

theorem establish_session_iff:
  fixes env :: "'p env"
  defines "send \<equiv> Send (ev_ord env) (ev_peer env)"
  defines "s1 \<equiv> NewSession (announced env NewSessionDescription) None"
  shows "EstablishSession env (Ret ()) p = (Ret s, p') \<longleftrightarrow>
    (\<exists>r1 r2 r3 r4 w1 w2 w3 c4 c t d.
       send (NewRequest\<lparr>rq_Method := Options, rq_URI := ''*''\<rparr>) (fresh_client, p) = (Ret r1, w1)
       \<and> rs_Status r1 = Ok
       \<and> send (announce_request env (announced env NewSessionDescription)) w1 = (Ret r2, w2)
       \<and> rs_Status r2 = Ok
       \<and> send (setup_request env s1) w2 = (Ret r3, w3) \<and> rs_Status r3 = Ok
       \<and> setup_ports (split_on (CHR '';'') (get (rs_Headers r3) ''Transport'')) (0, 0, 0) = Ret (c, t, d)
       \<and> send (record_request env s1) w3 = (Ret r4, (c4, p')) \<and> rs_Status r4 = Ok
       \<and> s = s1\<lparr>se_RemotePorts := \<lparr>ps_Address = ev_remote env, ps_Control = c, ps_Timing = t, ps_Data = d\<rparr>\<rparr>)"
  (is "_ \<longleftrightarrow> ?rhs")
proof -
  let ?s0 = "(NewSession NewSessionDescription None)
    \<lparr>se_RemotePorts := no_ports\<lparr>ps_Address := ev_remote env\<rparr>\<rparr>"
  have e: "EstablishSession env (Ret ()) p = (Ret s, p') \<longleftrightarrow>
      (\<exists>c. handshake env Initial ((fresh_client, p), ?s0) = (Ret (), ((c, p'), s)))"
    by (auto simp: EstablishSession_def NewClient_def NewSession_def Let_def map_res_Ret_iff split: prod.splits)
  have uri: "session_uri env (s1\<lparr>se_RemotePorts := x\<rparr>) = session_uri env s1" for x
    by (simp add: session_uri_def)
  then have req: "setup_request env (s1\<lparr>se_RemotePorts := x\<rparr>) = setup_request env s1"
    "record_request env (s1\<lparr>se_RemotePorts := x\<rparr>) = record_request env s1" for x
    by (simp_all add: setup_request_def record_request_def)
  have s1: "?s0\<lparr>se_Description := announced env NewSessionDescription\<rparr> =
      s1\<lparr>se_RemotePorts := no_ports\<lparr>ps_Address := ev_remote env\<rparr>\<rparr>"
    "se_Description ?s0 = NewSessionDescription"
    by (simp_all add: s1_def NewSession_def)
  let ?sR = "\<lambda>c t d. s1\<lparr>se_RemotePorts := \<lparr>ps_Address = ev_remote env, ps_Control = c, ps_Timing = t, ps_Data = d\<rparr>\<rparr>"
  have upd: "s1\<lparr>se_RemotePorts := x, se_RemotePorts := y\<rparr> = s1\<lparr>se_RemotePorts := y\<rparr>" for x y
    by simp
  have setting_up: "handshake env SettingUp (w2, s1\<lparr>se_RemotePorts := x\<rparr>) = (Ret (), ((c4, p'), s)) \<longleftrightarrow>
      (\<exists>r3 w3 c t d r4. send (setup_request env s1) w2 = (Ret r3, w3) \<and> rs_Status r3 = Ok
        \<and> setup_ports (split_on (CHR '';'') (get (rs_Headers r3) ''Transport'')) (0, 0, 0) = Ret (c, t, d)
        \<and> send (record_request env s1) w3 = (Ret r4, (c4, p')) \<and> rs_Status r4 = Ok \<and> s = ?sR c t d)" for w2 x c4
    unfolding handshake_setting_up handshake_recording upd req send_def by blast
  show ?thesis
    unfolding e handshake_initial handshake_announcing s1 setting_up unfolding send_def by blast
qed

end
