(* ===== verification/Cluster.thy ===== *)
theory Cluster
  imports Prelude
begin

text \<open>
  Cluster membership: \<^verbatim>\<open>cluster/cluster.go\<close>. The membership protocol is a library; what the code
  sees of it is the list of member nodes and three notifications. A node carries its metadata in
  encoded form; the model keeps what decoding it yields, \<open>None\<close> for bytes that do not decode, for
  which \<^verbatim>\<open>DecodeNodeMeta\<close> ends the process. Discovery takes the outcomes of the resolver and of browsing,
  and the entries that arrive before the time-out as a list.
\<close>

section \<open>Nodes\<close>

type_synonym node_type = int

definition Music :: node_type where "Music = 0"
definition Mgmt :: node_type where "Mgmt = 1"
definition Frontend :: node_type where "Frontend = 2"

lemmas node_type_defs = Music_def Mgmt_def Frontend_def

record node_meta =
  nm_RtspPort :: int
  nm_APIPort :: int
  nm_RaftPort :: int
  nm_NodeType :: node_type

record node =
  nd_Name :: string
  nd_Addr :: string
  nd_Meta :: "node_meta option"

definition DecodeNodeMeta :: "node_meta option \<Rightarrow> node_meta res" where
  "DecodeNodeMeta meta = (case meta of None \<Rightarrow> Exit ''gob'' | Some m \<Rightarrow> Ret m)"

text \<open>\<^verbatim>\<open>Delegate.NodeMeta\<close>: what a node broadcasts about itself.\<close>

definition NodeMeta :: "node_meta \<Rightarrow> node_meta option" where
  "NodeMeta metaData = Some metaData"

section \<open>Filtering\<close>

text \<open>\<open>filter_members\<close> is the loop of \<^verbatim>\<open>FilterMembers\<close>; \<open>nodes\<close> is the result so far.\<close>

primrec filter_members :: "node_type \<Rightarrow> node list \<Rightarrow> node list \<Rightarrow> node list res" where
  "filter_members memberType [] nodes = Ret nodes"
| "filter_members memberType (member # members) nodes =
     res_bind (DecodeNodeMeta (nd_Meta member)) (\<lambda>meta.
       filter_members memberType members
         (if nm_NodeType meta = memberType then nodes @ [member] else nodes))"

definition FilterMembers :: "node_type \<Rightarrow> node list \<Rightarrow> node list res" where
  "FilterMembers memberType members = filter_members memberType members []"

primrec filter_members_by :: "(node \<Rightarrow> bool) \<Rightarrow> node list \<Rightarrow> node list \<Rightarrow> node list" where
  "filter_members_by f [] nodes = nodes"
| "filter_members_by f (member # members) nodes =
     filter_members_by f members (if f member then nodes @ [member] else nodes)"

definition FilterMembersByFn :: "(node \<Rightarrow> bool) \<Rightarrow> node list \<Rightarrow> node list" where
  "FilterMembersByFn f members = filter_members_by f members []"

section \<open>Notifications\<close>

text \<open>A party interested in membership changes, over a shared state.\<close>

record 's event_delegate =
  ed_Join :: "node \<Rightarrow> ('s, unit) proc"
  ed_Leave :: "node \<Rightarrow> ('s, unit) proc"
  ed_Update :: "node \<Rightarrow> ('s, unit) proc"

text \<open>\<^verbatim>\<open>EventDelegate\<close> passes every notification on to all its delegates, in order.\<close>

definition NewEventDelegate :: "'s event_delegate list \<Rightarrow> 's event_delegate" where
  "NewEventDelegate eventDelegates =
     \<lparr>ed_Join = (\<lambda>node. for_each (\<lambda>d. ed_Join d node) eventDelegates),
      ed_Leave = (\<lambda>node. for_each (\<lambda>d. ed_Leave d node) eventDelegates),
      ed_Update = (\<lambda>node. for_each (\<lambda>d. ed_Update d node) eventDelegates)\<rparr>"

section \<open>Discovery\<close>

record service_entry =
  en_Instance :: string
  en_AddrIPv4 :: "string list"
  en_Port :: int

text \<open>What the discovery library makes of one search.\<close>

record discovery =
  di_resolver :: "unit res"
  di_browse :: "service_entry list res"

text \<open>An error that is passed to \<^verbatim>\<open>log.Fatal\<close> or to \<^verbatim>\<open>panic\<close>, behind a prefix.\<close>

fun fatal_res :: "string \<Rightarrow> 'a res \<Rightarrow> 'a res" where
  "fatal_res prefix (Err e) = Exit (prefix @ e)"
| "fatal_res prefix r = r"

fun panic_res :: "string \<Rightarrow> 'a res \<Rightarrow> 'a res" where
  "panic_res prefix (Err e) = Panic (prefix @ e)"
| "panic_res prefix r = r"

text \<open>
  \<^verbatim>\<open>SearchForCluster\<close>: the first entry with an IPv4 address among those that arrive in time; when there
  is no resolver, or browsing cannot be started, the process ends.
\<close>

definition SearchForCluster :: "discovery \<Rightarrow> service_entry option res" where
  "SearchForCluster d =
     res_bind (fatal_res ''Failed to initialize resolver: '' (di_resolver d)) (\<lambda>resolver.
     res_bind (fatal_res ''Failed to browse: '' (di_browse d)) (\<lambda>results.
       Ret (find (\<lambda>e. en_AddrIPv4 e \<noteq> []) results)))"

section \<open>Filtering against the specification\<close>

lemma filter_members_by_eq: "filter_members_by f members nodes = nodes @ filter f members"
  by (induction members arbitrary: nodes) auto

lemma FilterMembersByFn_eq [simp]: "FilterMembersByFn f members = filter f members"
  by (simp add: FilterMembersByFn_def filter_members_by_eq)

definition has_type :: "node_type \<Rightarrow> node \<Rightarrow> bool" where
  "has_type t n \<longleftrightarrow> (case nd_Meta n of None \<Rightarrow> False | Some m \<Rightarrow> nm_NodeType m = t)"

lemma filter_members_eq:
  "list_all (\<lambda>n. nd_Meta n \<noteq> None) members \<Longrightarrow>
   filter_members t members nodes = Ret (nodes @ filter (has_type t) members)"
  by (induction members arbitrary: nodes) (auto simp: has_type_def DecodeNodeMeta_def)

lemma FilterMembers_eq:
  "list_all (\<lambda>n. nd_Meta n \<noteq> None) members \<Longrightarrow>
   FilterMembers t members = Ret (filter (has_type t) members)"
  by (simp add: FilterMembers_def filter_members_eq)

lemma filter_members_exit:
  "\<not> list_all (\<lambda>n. nd_Meta n \<noteq> None) members \<Longrightarrow> filter_members t members nodes = Exit ''gob''"
  by (induction members arbitrary: nodes) (auto simp: DecodeNodeMeta_def split: option.splits)

section \<open>Properties\<close>

text \<open>
  \<^verbatim>\<open>FilterMembers\<close> returns the members of the requested type in the order of the member list,
  and nothing else, when every member's metadata decodes; a single member whose metadata does not
  decode ends the whole process, whatever type was asked for.
\<close>

theorem FilterMembers_selects:
  "FilterMembers t members =
    (if list_all (\<lambda>n. nd_Meta n \<noteq> None) members
     then Ret (filter (\<lambda>n. \<exists>m. nd_Meta n = Some m \<and> nm_NodeType m = t) members)
     else Exit ''gob'')"
proof -
  have "has_type t = (\<lambda>n. \<exists>m. nd_Meta n = Some m \<and> nm_NodeType m = t)"
    by (auto simp: has_type_def fun_eq_iff split: option.splits)
  then show ?thesis
    by (simp add: FilterMembers_def filter_members_exit filter_members_eq)
qed

end
