(* ===== verification/Forwarding.thy ===== *)
theory Forwarding
  imports Player Handshake Cluster
begin

text \<open>
  The forwarding player of \<^verbatim>\<open>player/forwarding/forwardingPlayer.go\<close>: a player that passes packets,
  volume, track and artwork on to the sessions it holds with other speakers.

  Most of its work is done in goroutines. An operation changes the player's own fields at once and
  appends the goroutine it starts to \<open>fw_tasks\<close>; \<open>run_task\<close> is what such a goroutine does when it
  runs, and \<open>fstep\<close> interleaves operations and pending goroutines in every order. Each goroutine
  runs in one step, which reads the session table at one moment, as the code does under its lock.

  A forwarding player is used through a pointer: \<open>None\<close> in \<open>fw_player\<close> is the nil pointer, on which
  every method panics as soon as it touches a field.
\<close>

section \<open>Sessions\<close>

record client_session =
  cs_session :: session
  cs_rtspPort :: int

type_synonym session_map = "string \<rightharpoonup> client_session"

definition addSession :: "string \<Rightarrow> 'a \<Rightarrow> (string \<rightharpoonup> 'a) \<Rightarrow> (string \<rightharpoonup> 'a)" where
  "addSession name session sm = sm(name \<mapsto> session)"

definition removeSession :: "string \<Rightarrow> (string \<rightharpoonup> 'a) \<Rightarrow> (string \<rightharpoonup> 'a)" where
  "removeSession name sm = sm(name := None)"

definition removeAll :: "(string \<rightharpoonup> 'a) \<Rightarrow> (string \<rightharpoonup> 'a)" where
  "removeAll sm = Map.empty"

text \<open>\<open>ks\<close> is the order in which the table is visited.\<close>

definition getSessions :: "string list \<Rightarrow> (string \<rightharpoonup> 'a) \<Rightarrow> 'a list" where
  "getSessions ks sm = map (\<lambda>k. the (sm k)) ks"

text \<open>
  What the users of a session table rely on; the AirPlay server has a table of its own with the
  same operations.
\<close>

locale session_table =
  fixes add :: "string \<Rightarrow> 's \<Rightarrow> 'm \<Rightarrow> 'm"
    and remove :: "string \<Rightarrow> 'm \<Rightarrow> 'm"
    and lookup :: "'m \<Rightarrow> string \<Rightarrow> 's option"
  assumes lookup_add: "lookup (add k s m) k' = (if k' = k then Some s else lookup m k')"
    and lookup_remove: "lookup (remove k m) k' = (if k' = k then None else lookup m k')"
begin

lemma lookup_remove_all: "lookup (fold remove ks m) k = (if k \<in> set ks then None else lookup m k)"
  by (induction ks arbitrary: m) (auto simp: lookup_remove)

end

interpretation forwarding_sessions: session_table addSession removeSession "\<lambda>m. m"
  by unfold_locales (simp_all add: addSession_def removeSession_def)

section \<open>The player\<close>

datatype task =
    InitSession string string int
  | ForwardVolume float64
  | ForwardTrack string string string
  | ForwardArt string
  | ForwardPacket string

record fplayer =
  fp_volume :: float64
  fp_isMuted :: bool
  fp_sessions :: session_map
  fp_currentTrack :: track

record fworld =
  fw_player :: "fplayer option"
  fw_tasks :: "task list"

text \<open>
  \<^verbatim>\<open>NewPlayer\<close> as it stands returns a nil player and no error, because the line that creates one is
  commented out. \<open>working_player\<close> is a player that is not nil, for the samples of this development.
\<close>

definition NewPlayer :: "fplayer option res" where
  "NewPlayer = Ret None"

definition working_player :: fplayer where
  "working_player =
     \<lparr>fp_volume = Fin 1, fp_isMuted = False, fp_sessions = Map.empty, fp_currentTrack = no_track\<rparr>"

definition deref :: "(fplayer \<Rightarrow> 'a res \<times> fplayer) \<Rightarrow> (fworld, 'a) proc" where
  "deref f w =
     (case fw_player w of
        None \<Rightarrow> (Panic nil_deref, w)
      | Some p \<Rightarrow> (case f p of (r, p') \<Rightarrow> (r, w\<lparr>fw_player := Some p'\<rparr>)))"

definition spawn :: "task \<Rightarrow> (fworld, unit) proc" where
  "spawn t w = (Ret (), w\<lparr>fw_tasks := fw_tasks w @ [t]\<rparr>)"

text \<open>
  Adding a session only starts a goroutine; decoding the node's metadata comes first and may end
  the process.
\<close>

definition AddSessionForNode :: "node \<Rightarrow> (fworld, unit) proc" where
  "AddSessionForNode node =
     bindP (liftR (DecodeNodeMeta (nd_Meta node))) (\<lambda>meta.
       if nm_NodeType meta = Music
       then spawn (InitSession (nd_Name node) (nd_Addr node) (nm_RtspPort meta))
       else retP ())"

definition RemoveSessionForNode :: "node \<Rightarrow> (fworld, unit) proc" where
  "RemoveSessionForNode node =
     bindP (liftR (DecodeNodeMeta (nd_Meta node))) (\<lambda>meta.
       if nm_NodeType meta = Music
       then deref (\<lambda>p. (Ret (), p\<lparr>fp_sessions := removeSession (nd_Name node) (fp_sessions p)\<rparr>))
       else retP ())"

definition RemoveAllSessions :: "(fworld, unit) proc" where
  "RemoveAllSessions = deref (\<lambda>q. (Ret (), q\<lparr>fp_sessions := removeAll (fp_sessions q)\<rparr>))"

definition fNotifyJoin :: "node \<Rightarrow> (fworld, unit) proc" where
  "fNotifyJoin node = AddSessionForNode node"

definition fNotifyLeave :: "node \<Rightarrow> (fworld, unit) proc" where
  "fNotifyLeave node = RemoveSessionForNode node"

definition fNotifyUpdate :: "node \<Rightarrow> (fworld, unit) proc" where
  "fNotifyUpdate node = retP ()"

definition fSetVolume :: "float64 \<Rightarrow> (fworld, unit) proc" where
  "fSetVolume volume =
     seqP (deref (\<lambda>p. (Ret (), p\<lparr>fp_volume := volume\<rparr>))) (spawn (ForwardVolume volume))"

definition fSetMute :: "bool \<Rightarrow> (fworld, unit) proc" where
  "fSetMute isMuted = deref (\<lambda>q. (Ret (), q\<lparr>fp_isMuted := isMuted\<rparr>))"

definition fGetIsMuted :: "(fworld, bool) proc" where
  "fGetIsMuted = deref (\<lambda>q. (Ret (fp_isMuted q), q))"

definition fSetTrack :: "string \<Rightarrow> string \<Rightarrow> string \<Rightarrow> (fworld, unit) proc" where
  "fSetTrack album artist title =
     seqP (deref (\<lambda>p. (Ret (), p\<lparr>fp_currentTrack :=
         (fp_currentTrack p)\<lparr>tr_Album := album, tr_Artist := artist, tr_Title := title\<rparr>\<rparr>)))
       (spawn (ForwardTrack album artist title))"

definition fSetAlbumArt :: "string \<Rightarrow> (fworld, unit) proc" where
  "fSetAlbumArt artwork =
     seqP (deref (\<lambda>p. (Ret (), p\<lparr>fp_currentTrack := (fp_currentTrack p)\<lparr>tr_Artwork := artwork\<rparr>\<rparr>)))
       (spawn (ForwardArt artwork))"

definition fGetTrack :: "(fworld, track) proc" where
  "fGetTrack = deref (\<lambda>q. (Ret (fp_currentTrack q), q))"

text \<open>
  \<^verbatim>\<open>Play\<close> starts the goroutine that reads the session's packets; \<open>fPlay_packet\<close> is what it does for
  one packet (playing it locally is commented out): it starts a goroutine that forwards it.
\<close>

definition fPlay :: "session \<Rightarrow> (fworld, unit) proc" where
  "fPlay session = retP ()"

definition fPlay_packet :: "string \<Rightarrow> (fworld, unit) proc" where
  "fPlay_packet pkt = seqP (deref (\<lambda>p. (Ret (), p))) (spawn (ForwardPacket pkt))"

definition forwarding_player_ops :: "fworld player_ops" where
  "forwarding_player_ops =
     \<lparr>pl_Play = fPlay, pl_SetVolume = fSetVolume, pl_SetMute = fSetMute, pl_GetIsMuted = fGetIsMuted,
      pl_SetTrack = fSetTrack, pl_SetAlbumArt = fSetAlbumArt, pl_GetTrack = fGetTrack\<rparr>"

text \<open>A non-nil forwarding player is a player.\<close>

lemma deref_Some [simp]:
  "fw_player w = Some p \<Longrightarrow> deref f w = (case f p of (r, p') \<Rightarrow> (r, w\<lparr>fw_player := Some p'\<rparr>))"
  by (simp add: deref_def)

lemma deref_None [simp]:
  "fw_player w = None \<Longrightarrow> deref f w = (Panic nil_deref, w)"
  by (simp add: deref_def)

lemmas fplayer_op_defs =
  fPlay_def fSetVolume_def fSetMute_def fGetIsMuted_def fSetTrack_def fSetAlbumArt_def fGetTrack_def
  spawn_def seqP_def bindP_def liftR_def

interpretation forwarding_player: player forwarding_player_ops "\<lambda>w. fw_player w \<noteq> None"
  "\<lambda>w. case fw_player w of None \<Rightarrow> False | Some p \<Rightarrow> fp_isMuted p"
  by unfold_locales (auto simp: forwarding_player_ops_def fplayer_op_defs)

section \<open>The goroutines\<close>

text \<open>
  What the goroutines meet outside: for each speaker, by address and port, the outcome of the
  attempts to establish a session (\<open>nt_establish\<close>, by attempt), of opening a data connection
  (\<open>nt_dial\<close>) and of connecting to its RTSP port, which gives the local address (\<open>nt_connect\<close>);
  the answer to a control request (\<open>nt_send\<close>); the time.
\<close>

record net =
  nt_establish :: "string \<Rightarrow> int \<Rightarrow> nat \<Rightarrow> session res"
  nt_dial :: "string \<Rightarrow> int \<Rightarrow> unit res"
  nt_connect :: "string \<Rightarrow> int \<Rightarrow> string option"
  nt_send :: "string \<Rightarrow> int \<Rightarrow> request \<Rightarrow> response res"
  nt_now :: int

text \<open>The retry loop of \<^verbatim>\<open>initSession\<close>: \<open>r\<close> is the outcome so far, \<open>left\<close> the retries left.\<close>

fun retry :: "(nat \<Rightarrow> session res) \<Rightarrow> nat \<Rightarrow> nat \<Rightarrow> session res \<Rightarrow> session res" where
  "retry est left i (Err e) = (if left = 0 then Err e else retry est (left - 1) (i + 1) (est (i + 1)))"
| "retry est left i r = r"

definition initSession :: "net \<Rightarrow> string \<Rightarrow> string \<Rightarrow> int \<Rightarrow> (fworld, unit) proc" where
  "initSession net nodeName ip port w =
     (case retry (nt_establish net ip port) 3 0 (nt_establish net ip port 0) of
        Ret session \<Rightarrow>
          (case StartSending (nt_dial net) session of
             Ret session' \<Rightarrow>
               deref (\<lambda>p. (Ret (), p\<lparr>fp_sessions :=
                 addSession nodeName \<lparr>cs_session = session', cs_rtspPort = port\<rparr> (fp_sessions p)\<rparr>)) w
           | Err e \<Rightarrow> (Exit e, w)
           | Panic e \<Rightarrow> (Panic e, w)
           | Exit e \<Rightarrow> (Exit e, w)
           | Hang \<Rightarrow> (Hang, w))
      | Err e \<Rightarrow> (Ret (), w)
      | Panic e \<Rightarrow> (Panic e, w)
      | Exit e \<Rightarrow> (Exit e, w)
      | Hang \<Rightarrow> (Hang, w))"

text \<open>\<^verbatim>\<open>fmt.Sprintf("%f", x)\<close>: six decimals, the last one rounded to nearest.\<close>

definition pad6 :: "string \<Rightarrow> string" where
  "pad6 s = replicate (6 - length s) (CHR ''0'') @ s"

fun format_f :: "float64 \<Rightarrow> string" where
  "format_f (Fin x) =
     (let n = round_even (\<bar>x\<bar> * 1000000) in
      (if x < 0 then ''-'' else []) @ Itoa (n div 1000000) @ ''.'' @ pad6 (Itoa (n mod 1000000)))"
| "format_f PosInf = ''+Inf''"
| "format_f NegInf = ''-Inf''"
| "format_f NaN = ''NaN''"

definition parameter_request :: "net \<Rightarrow> string \<Rightarrow> string \<Rightarrow> string \<Rightarrow> request" where
  "parameter_request net localAddress contentType body =
     NewRequest\<lparr>rq_Method := Set_Parameter,
       rq_URI := ''rtsp://'' @ localAddress @ ''/'' @ Itoa (nt_now net),
       rq_Headers := [''Content-Type'' \<mapsto> contentType], rq_Body := body\<rparr>"

text \<open>What leaves the player: a control request or a data packet, with address and port.\<close>

datatype out_msg = Control string int request | Data string int string

text \<open>
  The loop of the control goroutines over the sessions: a speaker that cannot be reached is
  skipped, a request that fails ends the process.
\<close>

primrec forward_all :: "net \<Rightarrow> (string \<Rightarrow> request res) \<Rightarrow> client_session list \<Rightarrow> out_msg list \<times> unit res" where
  "forward_all net build [] = ([], Ret ())"
| "forward_all net build (s # ss) =
     (let address = ps_Address (se_RemotePorts (cs_session s)); port = cs_rtspPort s in
      case nt_connect net address port of
        None \<Rightarrow> forward_all net build ss
      | Some localAddress \<Rightarrow>
          (case build localAddress of
             Err e \<Rightarrow> forward_all net build ss
           | Panic e \<Rightarrow> ([], Panic e)
           | Exit e \<Rightarrow> ([], Exit e)
           | Hang \<Rightarrow> ([], Hang)
           | Ret req \<Rightarrow>
               (case nt_send net address port req of
                  Ret resp \<Rightarrow> apfst (\<lambda>out. Control address port req # out) (forward_all net build ss)
                | Err e \<Rightarrow> ([Control address port req], Exit e)
                | Panic e \<Rightarrow> ([Control address port req], Panic e)
                | Exit e \<Rightarrow> ([Control address port req], Exit e)
                | Hang \<Rightarrow> ([Control address port req], Hang))))"

text \<open>The request a control goroutine builds; \<open>dord\<close> is the order of the track's fields.\<close>

fun task_request :: "net \<Rightarrow> string list \<Rightarrow> task \<Rightarrow> string \<Rightarrow> request res" where
  "task_request net dord (ForwardVolume v) localAddress =
     Ret (parameter_request net localAddress ''text/parameters'' (''volume: '' @ format_f (prepareVolume v)))"
| "task_request net dord (ForwardTrack album artist title) localAddress =
     res_bind (EncodeDaap dord [''daap.songalbum'' \<mapsto> DString album, ''dmap.itemname'' \<mapsto> DString title,
       ''daap.songartist'' \<mapsto> DString artist])
       (\<lambda>body. Ret (parameter_request net localAddress ''application/x-dmap-tagged'' body))"
| "task_request net dord (ForwardArt artwork) localAddress =
     Ret (parameter_request net localAddress ''image/jpeg'' artwork)"
| "task_request net dord _ localAddress = Err ''no request''"

text \<open>
  One goroutine, run to its end: what it sends, how it ends, and the state it leaves. \<open>ks\<close> is the
  order in which the session table is visited, \<open>dord\<close> that of the track's fields.
\<close>

fun run_task :: "net \<Rightarrow> string list \<Rightarrow> string list \<Rightarrow> task \<Rightarrow> fworld \<Rightarrow> out_msg list \<times> unit res \<times> fworld" where
  "run_task net ks dord (InitSession name ip port) w = ([], initSession net name ip port w)"
| "run_task net ks dord (ForwardPacket pkt) w =
     (case fw_player w of
        None \<Rightarrow> ([], Panic nil_deref, w)
      | Some p \<Rightarrow>
          (map (\<lambda>s. Data (ps_Address (se_RemotePorts (cs_session s))) (ps_Data (se_RemotePorts (cs_session s))) pkt)
             (getSessions ks (fp_sessions p)), Ret (), w))"
| "run_task net ks dord t w =
     (case fw_player w of
        None \<Rightarrow> ([], Panic nil_deref, w)
      | Some p \<Rightarrow>
          (case forward_all net (task_request net dord t) (getSessions ks (fp_sessions p)) of
             (out, r) \<Rightarrow> (out, r, w)))"

section \<open>Interleavings\<close>

text \<open>
  The operations that other components call, and a step of the whole: an operation, or one of the
  goroutines that have been started. The step also tells how it ended.
\<close>

datatype fop = Join node | Leave node | RemoveAll | Volume float64 | Mute bool
  | TrackInfo string string string | Art string | Packet string

fun do_fop :: "fop \<Rightarrow> (fworld, unit) proc" where
  "do_fop (Join n) = AddSessionForNode n"
| "do_fop (Leave n) = RemoveSessionForNode n"
| "do_fop RemoveAll = RemoveAllSessions"
| "do_fop (Volume v) = fSetVolume v"
| "do_fop (Mute b) = fSetMute b"
| "do_fop (TrackInfo album artist title) = fSetTrack album artist title"
| "do_fop (Art a) = fSetAlbumArt a"
| "do_fop (Packet p) = fPlay_packet p"

inductive fstep :: "net \<Rightarrow> fworld \<Rightarrow> unit res \<Rightarrow> fworld \<Rightarrow> bool" for net where
  step_op: "do_fop op' w = (r, w') \<Longrightarrow> fstep net w r w'"
| step_task: "fw_tasks w = ts @ t # us \<Longrightarrow>
    run_task net ks dord t (w\<lparr>fw_tasks := ts @ us\<rparr>) = (out, r, w') \<Longrightarrow> fstep net w r w'"

inductive_cases fstepE: "fstep net w r w'"

inductive freach :: "net \<Rightarrow> fworld \<Rightarrow> fworld \<Rightarrow> bool" for net w where
  reach_refl: "freach net w w"
| reach_step: "freach net w w' \<Longrightarrow> fstep net w' r w'' \<Longrightarrow> freach net w w''"

text \<open>
  The invariant: a player that is there stays there, and every session in its table has an open
  data connection, which is what sending a packet to it needs.
\<close>

definition sessions_open :: "fworld \<Rightarrow> bool" where
  "sessions_open w \<longleftrightarrow>
     (\<exists>p. fw_player w = Some p \<and> (\<forall>k s. fp_sessions p k = Some s \<longrightarrow> se_dataConn (cs_session s)))"

lemma sessions_openI [intro]:
  "fw_player w = Some p \<Longrightarrow> (\<And>k s. fp_sessions p k = Some s \<Longrightarrow> se_dataConn (cs_session s)) \<Longrightarrow> sessions_open w"
  by (auto simp: sessions_open_def)

lemma sessions_open_tasks [simp]: "sessions_open (w\<lparr>fw_tasks := ts\<rparr>) = sessions_open w"
  by (simp add: sessions_open_def)

lemma keeps_deref:
  assumes "\<And>p. \<forall>k s. fp_sessions p k = Some s \<longrightarrow> se_dataConn (cs_session s) \<Longrightarrow>
    \<forall>k s. fp_sessions (snd (f p)) k = Some s \<longrightarrow> se_dataConn (cs_session s)"
  shows "keeps sessions_open (deref f)"
  using assms by (intro keepsI) (auto simp: sessions_open_def split: prod.splits)

lemma keeps_spawn [intro]: "keeps sessions_open (spawn t)"
  by (intro keepsI) (simp add: spawn_def)

lemma do_fop_keeps_open: "keeps sessions_open (do_fop op')"
  by (cases op')
    (auto simp: AddSessionForNode_def RemoveSessionForNode_def RemoveAllSessions_def fSetVolume_def
      fSetMute_def fSetTrack_def fSetAlbumArt_def fPlay_packet_def removeSession_def removeAll_def
      intro!: keeps_bindP keeps_seqP keeps_deref keeps_spawn keeps_liftR split: if_splits)

lemma StartSending_open: "StartSending dial s = Ret s' \<Longrightarrow> se_dataConn s'"
  by (auto simp: StartSending_def res_bind_Ret_iff)

lemma initSession_keeps_open: "keeps sessions_open (initSession net name ip port)"
  by (intro keepsI)
    (auto simp: initSession_def sessions_open_def addSession_def dest: StartSending_open
      split: res.splits if_splits)

lemma run_task_keeps_open: "sessions_open w \<Longrightarrow> sessions_open (snd (snd (run_task net ks dord t w)))"
  using keepsD [OF initSession_keeps_open]
  by (cases t) (auto split: option.splits prod.splits)

lemma fstep_keeps_open: "fstep net w r w' \<Longrightarrow> sessions_open w \<Longrightarrow> sessions_open w'"
proof (induction rule: fstep.induct)
  case (step_op op' w r w')
  then show ?case using keepsD [OF do_fop_keeps_open, of w op'] by simp
next
  case (step_task w ts t us ks dord out r w')
  then show ?case using run_task_keeps_open [of "w\<lparr>fw_tasks := ts @ us\<rparr>"] by (metis sessions_open_tasks snd_conv)
qed

section \<open>The goroutines' results\<close>

text \<open>The retry loop returns the first attempt that does not fail, or the last failure.\<close>

lemma retry_stop: "(\<forall>e. r \<noteq> Err e) \<Longrightarrow> retry est n i r = r"
  by (cases r) auto

lemma retry_finds:
  assumes "\<And>j. i \<le> j \<Longrightarrow> j < k \<Longrightarrow> \<exists>e. est j = Err e" and "\<forall>e. est k \<noteq> Err e" and "i \<le> k" and "k - i \<le> n"
  shows "retry est n i (est i) = est k"
  using assms
proof (induction n arbitrary: i)
  case 0
  then show ?case by (simp add: retry_stop)
next
  case (Suc n)
  show ?case
  proof (cases "i = k")
    case True
    with Suc.prems show ?thesis by (simp add: retry_stop)
  next
    case False
    with Suc.prems obtain e where "est i = Err e" by (metis le_neq_implies_less le_refl)
    with Suc False show ?thesis by (simp add: le_neq_implies_less)
  qed
qed

lemma forward_all_reachable:
  assumes "\<And>s. s \<in> set ss \<Longrightarrow> nt_connect net (ps_Address (se_RemotePorts (cs_session s))) (cs_rtspPort s) = Some local"
    and "\<And>s. s \<in> set ss \<Longrightarrow> is_ret (nt_send net (ps_Address (se_RemotePorts (cs_session s))) (cs_rtspPort s) req)"
    and "build local = Ret req"
  shows "forward_all net build ss =
    (map (\<lambda>s. Control (ps_Address (se_RemotePorts (cs_session s))) (cs_rtspPort s) req) ss, Ret ())"
  using assms(1,2)
proof (induction ss)
  case (Cons s ss)
  then obtain resp where "nt_send net (ps_Address (se_RemotePorts (cs_session s))) (cs_rtspPort s) req = Ret resp"
    by (metis is_ret.elims(2) list.set_intros(1))
  with Cons assms(3) show ?case by (simp add: Let_def)
qed simp

section \<open>Properties\<close>

text \<open>
  C15. Whatever operations are called on the forwarding player and in whatever order its goroutines
  run in between, also when one of them fails: the player stays there and every session in its
  table has its data connection open, so forwarding a packet never meets a session that cannot
  send.
\<close>

theorem forwarding_sessions_stay_open:
  assumes "freach net w w'" and "sessions_open w"
  shows "sessions_open w'"
  using assms
proof (induction rule: freach.induct)
  case (reach_step w' r w'')
  then show ?case using fstep_keeps_open by blast
qed

definition sample_net :: net where
  "sample_net =
     \<lparr>nt_establish = (\<lambda>ip port i. if i < 2 then Err ''refused'' else Ret (NewSession NewSessionDescription None)),
      nt_dial = (\<lambda>ip port. Ret ()), nt_connect = (\<lambda>ip port. Some ''10.0.0.1''),
      nt_send = (\<lambda>ip port q. Ret NewResponse), nt_now = 77\<rparr>"

definition music_node :: "string \<Rightarrow> node" where
  "music_node name =
     \<lparr>nd_Name = name, nd_Addr = ''10.0.0.7'',
      nd_Meta = Some \<lparr>nm_RtspPort = 5000, nm_APIPort = 7777, nm_RaftPort = 0, nm_NodeType = Music\<rparr>\<rparr>"

theorem forwarding_sessions_stay_open_witness:
  "sessions_open (snd (do_fop (Join (music_node ''den'')) \<lparr>fw_player = Some working_player, fw_tasks = []\<rparr>))"
proof (rule forwarding_sessions_stay_open)
  show "freach sample_net \<lparr>fw_player = Some working_player, fw_tasks = []\<rparr>
      (snd (do_fop (Join (music_node ''den'')) \<lparr>fw_player = Some working_player, fw_tasks = []\<rparr>))"
    by (rule reach_step [OF reach_refl step_op]) (rule prod.collapse [symmetric])
  show "sessions_open \<lparr>fw_player = Some working_player, fw_tasks = []\<rparr>"
    by (simp add: sessions_open_def working_player_def)
qed

text \<open>
  \<^verbatim>\<open>initSession\<close> makes up to four attempts to establish a session: if the first attempt to
  succeed is the \<open>k\<close>-th (counted from 0, \<open>k\<close> at most 3) and the data connection opens, the session
  is in the table under the node's name, with the speaker's RTSP port; if all four attempts fail
  nothing changes and nothing fails.
\<close>

theorem initSession_retries:
  assumes "fw_player w = Some p"
  shows "(k \<le> 3 \<and> (\<forall>j<k. \<exists>e. nt_establish net ip port j = Err e) \<and> nt_establish net ip port k = Ret s
      \<and> nt_dial net (ps_Address (se_RemotePorts s)) (ps_Data (se_RemotePorts s)) = Ret () \<longrightarrow>
      initSession net name ip port w = (Ret (), w\<lparr>fw_player := Some (p\<lparr>fp_sessions :=
        (fp_sessions p)(name \<mapsto> \<lparr>cs_session = s\<lparr>se_dataConn := True\<rparr>, cs_rtspPort = port\<rparr>)\<rparr>)\<rparr>))
    \<and> ((\<forall>j\<le>3. \<exists>e. nt_establish net ip port j = Err e) \<longrightarrow> initSession net name ip port w = (Ret (), w))"
proof -
  let ?est = "nt_establish net ip port"
  have "retry ?est 3 0 (?est 0) = Ret s"
    if "k \<le> 3" "\<forall>j<k. \<exists>e. ?est j = Err e" "?est k = Ret s"
    using retry_finds [of 0 k ?est 3] that by simp
  moreover have "\<exists>e. retry ?est 3 0 (?est 0) = Err e" if all: "\<forall>j\<le>3. \<exists>e. ?est j = Err e"
  proof -
    obtain e0 e1 e2 e3 where "?est 0 = Err e0" "?est 1 = Err e1" "?est 2 = Err e2" "?est 3 = Err e3"
      using all [rule_format, of 0] all [rule_format, of 1] all [rule_format, of 2]
        all [rule_format, of 3] by auto
    then show ?thesis by (simp add: numeral_3_eq_3 numeral_2_eq_2)
  qed
  ultimately show ?thesis
    using assms by (auto simp: initSession_def StartSending_def addSession_def)
qed

theorem initSession_retries_witness:
  "\<exists>p. fw_player (snd (initSession sample_net ''den'' ''10.0.0.7'' 5000 \<lparr>fw_player = Some working_player, fw_tasks = []\<rparr>)) = Some p
     \<and> fp_sessions p ''den'' \<noteq> None"
proof -
  have "\<forall>j<2. \<exists>e. nt_establish sample_net ''10.0.0.7'' 5000 j = Err e"
    "nt_establish sample_net ''10.0.0.7'' 5000 2 = Ret (NewSession NewSessionDescription None)"
    "\<And>a n. nt_dial sample_net a n = Ret ()"
    by (simp_all add: sample_net_def)
  then show ?thesis
    using initSession_retries [of "\<lparr>fw_player = Some working_player, fw_tasks = []\<rparr>" working_player 2 sample_net
        "''10.0.0.7''" 5000 "NewSession NewSessionDescription None" "''den''"] by simp
qed

text \<open>
  Volume, track and artwork reach every speaker of the session table: when all of them can be
  reached, the goroutine sends each exactly one SET_PARAMETER with the body of the change, whatever
  the order in which the table is visited, and the state is unchanged.
\<close>

theorem changes_reach_every_speaker:
  assumes "fw_player w = Some p" and "range_order ks (fp_sessions p)"
    and "t \<in> {ForwardVolume v, ForwardArt a, ForwardTrack album artist title}"
    and "\<And>ip port. nt_connect net ip port = Some local"
    and "task_request net dord t local = Ret req" and "\<And>ip port. is_ret (nt_send net ip port req)"
  shows "\<exists>out. run_task net ks dord t w = (out, Ret (), w)
    \<and> set out = {Control (ps_Address (se_RemotePorts (cs_session s))) (cs_rtspPort s) req |s. s \<in> ran (fp_sessions p)}
    \<and> length out = card (dom (fp_sessions p))"
proof -
  have "run_task net ks dord t w =
      (map (\<lambda>s. Control (ps_Address (se_RemotePorts (cs_session s))) (cs_rtspPort s) req)
        (getSessions ks (fp_sessions p)), Ret (), w)"
    using assms forward_all_reachable [of "getSessions ks (fp_sessions p)" net local req "task_request net dord t"]
    by auto
  moreover have "set (getSessions ks (fp_sessions p)) = ran (fp_sessions p)"
    using range_orderD [OF assms(2)] by (force simp: getSessions_def ran_def)
  moreover have "length (getSessions ks (fp_sessions p)) = card (dom (fp_sessions p))"
    using range_orderD [OF assms(2)] by (metis distinct_card getSessions_def length_map)
  ultimately show ?thesis by auto
qed

theorem changes_reach_every_speaker_witness:
  "\<exists>p out. fw_player (snd (initSession sample_net ''den'' ''10.0.0.7'' 5000
      \<lparr>fw_player = Some working_player, fw_tasks = []\<rparr>)) = Some p
    \<and> run_task sample_net [''den''] [] (ForwardVolume (Fin 1)) \<lparr>fw_player = Some p, fw_tasks = []\<rparr> =
      (out, Ret (), \<lparr>fw_player = Some p, fw_tasks = []\<rparr>) \<and> length out = 1"
proof -
  define p where "p = working_player\<lparr>fp_sessions := [''den'' \<mapsto>
    \<lparr>cs_session = (NewSession NewSessionDescription None)\<lparr>se_dataConn := True\<rparr>, cs_rtspPort = 5000\<rparr>]\<rparr>"
  have init: "fw_player (snd (initSession sample_net ''den'' ''10.0.0.7'' 5000
      \<lparr>fw_player = Some working_player, fw_tasks = []\<rparr>)) = Some p"
    by (simp add: initSession_def sample_net_def numeral_3_eq_3 StartSending_def p_def addSession_def
        working_player_def)
  have "\<exists>out. run_task sample_net [''den''] [] (ForwardVolume (Fin 1)) \<lparr>fw_player = Some p, fw_tasks = []\<rparr> =
      (out, Ret (), \<lparr>fw_player = Some p, fw_tasks = []\<rparr>)
    \<and> set out = {Control (ps_Address (se_RemotePorts (cs_session s))) (cs_rtspPort s)
        (parameter_request sample_net ''10.0.0.1'' ''text/parameters''
          (''volume: '' @ format_f (prepareVolume (Fin 1)))) |s. s \<in> ran (fp_sessions p)}
    \<and> length out = card (dom (fp_sessions p))"
    by (rule changes_reach_every_speaker [where v = "Fin 1"])
      (simp_all add: p_def range_order_def sample_net_def)
  moreover have "card (dom (fp_sessions p)) = 1" by (simp add: p_def)
  ultimately show ?thesis using init by auto
qed

text \<open>
  C38. Removing a node does not cancel a session that is still being established: when a music node
  joins and leaves before the goroutine of its join has run, that goroutine still adds the session
  afterwards, and the player goes on forwarding to a node that has left.
\<close>

theorem late_session_survives_removal:
  assumes "nd_Meta n = Some m" and "nm_NodeType m = Music" and "fw_player w = Some p" and "fw_tasks w = []"
    and "nt_establish net (nd_Addr n) (nm_RtspPort m) 0 = Ret s"
    and "nt_dial net (ps_Address (se_RemotePorts s)) (ps_Data (se_RemotePorts s)) = Ret ()"
  shows "\<exists>w' p'. freach net w w' \<and> fw_tasks w' = [] \<and> fw_player w' = Some p'
    \<and> fst (do_fop (Join n) w) = Ret () \<and> fst (do_fop (Leave n) (snd (do_fop (Join n) w))) = Ret ()
    \<and> run_task net ks dord (InitSession (nd_Name n) (nd_Addr n) (nm_RtspPort m))
        ((snd (do_fop (Leave n) (snd (do_fop (Join n) w))))\<lparr>fw_tasks := []\<rparr>) = ([], Ret (), w')
    \<and> fp_sessions p' (nd_Name n) \<noteq> None"
proof -
  let ?w1 = "snd (do_fop (Join n) w)" and ?t = "InitSession (nd_Name n) (nd_Addr n) (nm_RtspPort m)"
  let ?w2 = "snd (do_fop (Leave n) ?w1)"
  have j: "do_fop (Join n) w = (Ret (), w\<lparr>fw_tasks := [?t]\<rparr>)"
    using assms(1,2,4) by (simp add: AddSessionForNode_def fplayer_op_defs DecodeNodeMeta_def)
  have l: "do_fop (Leave n) ?w1 = (Ret (), w\<lparr>fw_tasks := [?t],
      fw_player := Some (p\<lparr>fp_sessions := removeSession (nd_Name n) (fp_sessions p)\<rparr>)\<rparr>)"
    using assms(1-3) j by (simp add: RemoveSessionForNode_def fplayer_op_defs DecodeNodeMeta_def)
  define w' where "w' = snd (initSession net (nd_Name n) (nd_Addr n) (nm_RtspPort m) (?w2\<lparr>fw_tasks := []\<rparr>))"
  have run: "run_task net ks dord ?t (?w2\<lparr>fw_tasks := []\<rparr>) = ([], Ret (), w')"
    and p': "\<exists>p'. fw_player w' = Some p' \<and> fp_sessions p' (nd_Name n) \<noteq> None" and "fw_tasks w' = []"
    using assms(5,6) l by (simp_all add: w'_def initSession_def StartSending_def addSession_def)
  have "freach net w ?w2"
    using j l by (metis reach_refl reach_step step_op snd_conv)
  moreover have "fstep net ?w2 (Ret ()) w'"
    using l run by (intro step_task [of ?w2 "[]" ?t "[]"]) simp_all
  ultimately have "freach net w w'" by (rule reach_step)
  with j l run p' \<open>fw_tasks w' = []\<close> show ?thesis by auto
qed

theorem late_session_survives_removal_witness:
  "\<exists>w' p'. freach (sample_net\<lparr>nt_establish := \<lambda>_ _ _. Ret (NewSession NewSessionDescription None)\<rparr>)
      \<lparr>fw_player = Some working_player, fw_tasks = []\<rparr> w'
    \<and> fw_tasks w' = [] \<and> fw_player w' = Some p' \<and> fp_sessions p' ''den'' \<noteq> None"
proof -
  let ?net = "sample_net\<lparr>nt_establish := \<lambda>_ _ _. Ret (NewSession NewSessionDescription None)\<rparr>"
  let ?m = "\<lparr>nm_RtspPort = 5000, nm_APIPort = 7777, nm_RaftPort = 0, nm_NodeType = Music\<rparr>"
  have "nd_Name (music_node ''den'') = ''den''" by (simp add: music_node_def)
  then show ?thesis
    using late_session_survives_removal [of "music_node ''den''" ?m
        "\<lparr>fw_player = Some working_player, fw_tasks = []\<rparr>" working_player ?net
        "NewSession NewSessionDescription None" "[]" "[]"]
    by (auto simp: music_node_def sample_net_def)
qed

text \<open>
  The player the program starts with is a nil pointer: \<^verbatim>\<open>NewPlayer\<close> returns no player and no
  error, and every operation that touches the player's fields, volume, mute, track, artwork, the
  queries and the removal of sessions, panics.
\<close>

theorem new_player_panics:
  fixes w :: fworld
  defines "nil \<equiv> Panic nil_deref"
  assumes "NewPlayer = Ret (fw_player w)"
  shows "fst (fSetVolume v w) = nil \<and> fst (fSetMute b w) = nil \<and> fst (fSetTrack al ar ti w) = nil
    \<and> fst (fSetAlbumArt a w) = nil \<and> fst (fPlay_packet pkt w) = nil \<and> fst (RemoveAllSessions w) = nil
    \<and> fst (fGetIsMuted w) = Panic nil_deref
    \<and> fst (fGetTrack w) = Panic nil_deref"
proof -
  have "fw_player w = None" using assms(2) by (simp add: NewPlayer_def)
  then show ?thesis
    by (simp add: nil_def fplayer_op_defs fPlay_packet_def RemoveAllSessions_def)
qed

theorem new_player_panics_witness:
  "fst (fSetVolume (Fin 1) \<lparr>fw_player = None, fw_tasks = []\<rparr>) =
     Panic nil_deref"
  using new_player_panics [of "\<lparr>fw_player = None, fw_tasks = []\<rparr>" "Fin 1"] by (simp add: NewPlayer_def)

end
