(* ===== verification/Airplay.thy ===== *)
theory Airplay
  imports Forwarding
begin

text \<open>
  The AirPlay server of \<^verbatim>\<open>raop/airplay.go\<close> with its DACP client (\<^verbatim>\<open>raop/dacp.go\<close>): the table of
  sessions by remote address, the advertisement of the service, and the RTSP handlers.

  The server's state holds the state of the player behind it, which is used through the methods of
  \<open>player_ops\<close>. The host (\<open>host\<close>) is what the server meets outside: its network interfaces, the
  outcome of registering the service and of opening a socket, what discovery finds in
  time, HTTP, the RSA functions, the parsing of addresses, \<^verbatim>\<open>strconv.ParseFloat\<close> with 32 bits
  (\<open>ho_parse_float\<close>), and the order in which a map is visited.
\<close>

section \<open>Hosts\<close>

record interface =
  if_up :: bool
  if_hw :: string

record host =
  ho_interfaces :: "interface list"
  ho_register :: "string \<Rightarrow> unit res"
  ho_listen :: "string res"
  ho_discovery :: discovery
  ho_http :: "string \<Rightarrow> string \<Rightarrow> unit res"
  ho_oaep :: "string \<Rightarrow> string res"
  ho_sign :: "string \<Rightarrow> string res"
  ho_parse_ip :: "string \<Rightarrow> string"
  ho_parse_float :: "string \<Rightarrow> float64 res"
  ho_methods :: "string list"

text \<open>\<^verbatim>\<open>getMacAddr\<close>: the first interface that is up and has a hardware address.\<close>

definition getMacAddr :: "host \<Rightarrow> string" where
  "getMacAddr h =
     (case find (\<lambda>i. if_up i \<and> if_hw i \<noteq> []) (ho_interfaces h) of None \<Rightarrow> [] | Some i \<Rightarrow> if_hw i)"

definition hex_digits :: string where
  "hex_digits = ''0123456789abcdef''"

definition hex_byte :: "char \<Rightarrow> string" where
  "hex_byte c = [hex_digits ! (of_char c div 16), hex_digits ! (of_char c mod 16)]"

text \<open>\<^verbatim>\<open>HardwareAddr.String\<close>.\<close>

definition mac_string :: "string \<Rightarrow> string" where
  "mac_string mac = join '':'' (map hex_byte mac)"

section \<open>DACP\<close>

record dacp_client =
  dc_dacpID :: string
  dc_activeRemote :: string
  dc_ipAddress :: string
  dc_port :: int

definition newDacpClient :: "string \<Rightarrow> int \<Rightarrow> string \<Rightarrow> string \<Rightarrow> dacp_client" where
  "newDacpClient ipAddress port dacpID activeRemote =
     \<lparr>dc_dacpID = dacpID, dc_activeRemote = activeRemote, dc_ipAddress = ipAddress, dc_port = port\<rparr>"

text \<open>Without a resolver, or when browsing cannot be started, the process ends.\<close>

definition DiscoverDacpClient :: "host \<Rightarrow> string \<Rightarrow> string \<Rightarrow> dacp_client option res" where
  "DiscoverDacpClient h dacpID activeRemote =
     res_bind (fatal_res ''Failed to initialize resolver: '' (di_resolver (ho_discovery h))) (\<lambda>resolver.
     res_bind (fatal_res ''Failed to browse: '' (di_browse (ho_discovery h))) (\<lambda>results.
       Ret (case find (\<lambda>e. en_AddrIPv4 e \<noteq> [] \<and> en_Instance e = ''iTunes_Ctrl_'' @ dacpID) results of
          None \<Rightarrow> None
        | Some entry \<Rightarrow> Some (newDacpClient (hd (en_AddrIPv4 entry)) (en_Port entry) dacpID activeRemote))))"

definition executeMethod :: "host \<Rightarrow> dacp_client \<Rightarrow> string \<Rightarrow> unit res" where
  "executeMethod h d m =
     ho_http h (''http://'' @ dc_ipAddress d @ '':'' @ Itoa (dc_port d) @ ''/ctrl-int/1/'' @ m)
       (dc_activeRemote d)"

definition dacp_Play :: "host \<Rightarrow> dacp_client \<Rightarrow> unit res" where
  "dacp_Play h d = executeMethod h d ''play''"

definition dacp_Pause :: "host \<Rightarrow> dacp_client \<Rightarrow> unit res" where
  "dacp_Pause h d = executeMethod h d ''pause''"

definition dacp_PlayPause :: "host \<Rightarrow> dacp_client \<Rightarrow> unit res" where
  "dacp_PlayPause h d = executeMethod h d ''playpause''"

definition dacp_Stop :: "host \<Rightarrow> dacp_client \<Rightarrow> unit res" where
  "dacp_Stop h d = executeMethod h d ''stop''"

definition dacp_Next :: "host \<Rightarrow> dacp_client \<Rightarrow> unit res" where
  "dacp_Next h d = executeMethod h d ''nextitem''"

section \<open>The server\<close>

record airplay_session =
  as_session :: session
  as_client :: "dacp_client option"

record 'p airplay =
  ap_port :: int
  ap_name :: string
  ap_rtspServer :: "int option"
  ap_advertised :: "string option"
  ap_sessions :: "string \<rightharpoonup> airplay_session"
  ap_player :: 'p

definition NewAirplayServer :: "int \<Rightarrow> string \<Rightarrow> 'p \<Rightarrow> 'p airplay" where
  "NewAirplayServer port name p =
     \<lparr>ap_port = port, ap_name = name, ap_rtspServer = None, ap_advertised = None, ap_sessions = Map.empty, ap_player = p\<rparr>"

text \<open>The session table of this package.\<close>

definition as_addSession :: "string \<Rightarrow> 'a \<Rightarrow> (string \<rightharpoonup> 'a) \<Rightarrow> (string \<rightharpoonup> 'a)" where
  "as_addSession address s sm = sm(address \<mapsto> s)"

definition as_removeSession :: "string \<Rightarrow> (string \<rightharpoonup> 'a) \<Rightarrow> (string \<rightharpoonup> 'a)" where
  "as_removeSession address sm = sm(address := None)"

definition as_getSession :: "(string \<rightharpoonup> 'a) \<Rightarrow> string \<Rightarrow> 'a option" where
  "as_getSession sm address = sm address"

definition as_getSessions :: "string list \<Rightarrow> (string \<rightharpoonup> 'a) \<Rightarrow> 'a list" where
  "as_getSessions ks sm = map (\<lambda>k. the (sm k)) ks"

interpretation airplay_sessions: session_table as_addSession as_removeSession as_getSession
  by unfold_locales (simp_all add: as_addSession_def as_removeSession_def as_getSession_def)

section \<open>Advertising\<close>

text \<open>The advertised name; a failing registration ends the process.\<close>

definition serviceName :: "host \<Rightarrow> string \<Rightarrow> string" where
  "serviceName h name = filter (\<lambda>c. c \<noteq> CHR '':'') (mac_string (getMacAddr h)) @ ''@'' @ name"

definition initAdvertise :: "host \<Rightarrow> ('p airplay, unit) proc" where
  "initAdvertise h a =
     (case ho_register h (serviceName h (ap_name a)) of
        Ret _ \<Rightarrow> (Ret (), a\<lparr>ap_advertised := Some (serviceName h (ap_name a))\<rparr>)
      | Err e \<Rightarrow> (Exit e, a)
      | Panic e \<Rightarrow> (Panic e, a)
      | Exit e \<Rightarrow> (Exit e, a)
      | Hang \<Rightarrow> (Hang, a))"

definition ToggleAdvertise :: "host \<Rightarrow> bool \<Rightarrow> ('p airplay, unit) proc" where
  "ToggleAdvertise h shouldAdvertise a =
     (if \<not> shouldAdvertise then
        (if ap_advertised a = None then (Ret (), a) else (Ret (), a\<lparr>ap_advertised := None\<rparr>))
      else if ap_advertised a \<noteq> None then (Ret (), a)
      else initAdvertise h a)"

definition ChangeName :: "host \<Rightarrow> string \<Rightarrow> ('p airplay, unit) proc" where
  "ChangeName h newName a =
     (if TrimSpace newName = [] then (Err ''New name must be non-empty'', a)
      else
        let a' = a\<lparr>ap_name := TrimSpace newName\<rparr> in
        if ap_advertised a' \<noteq> None then initAdvertise h (a'\<lparr>ap_advertised := None\<rparr>)
        else (Ret (), a'))"

section \<open>Closing sessions\<close>

definition closeSession :: "host \<Rightarrow> string \<Rightarrow> ('p airplay, unit) proc" where
  "closeSession h remoteAddress a =
     (case as_getSession (ap_sessions a) remoteAddress of
        None \<Rightarrow> (Ret (), a)
      | Some as \<Rightarrow>
          (case (case as_client as of None \<Rightarrow> Ret () | Some d \<Rightarrow> dacp_Stop h d) of
             Ret _ \<Rightarrow>
               (case close_and_wait (as_session as) of
                  Ret _ \<Rightarrow> (Ret (), a\<lparr>ap_sessions := as_removeSession remoteAddress (ap_sessions a)\<rparr>)
                | Err e \<Rightarrow> (Err e, a)
                | Panic e \<Rightarrow> (Panic e, a)
                | Exit e \<Rightarrow> (Exit e, a)
                | Hang \<Rightarrow> (Hang, a))
           | Err e \<Rightarrow> (Exit e, a)
           | Panic e \<Rightarrow> (Panic e, a)
           | Exit e \<Rightarrow> (Exit e, a)
           | Hang \<Rightarrow> (Hang, a)))"

text \<open>\<open>ks\<close> is the order in which the table is visited; a session is closed by the address in its
  remote ports.\<close>

definition closeAllSessions :: "host \<Rightarrow> string list \<Rightarrow> ('p airplay, unit) proc" where
  "closeAllSessions h ks a =
     for_each (\<lambda>as. closeSession h (ps_Address (se_RemotePorts (as_session as))))
       (as_getSessions ks (ap_sessions a)) a"

section \<open>Handlers\<close>

definition handleOptions :: "host \<Rightarrow> 'p airplay handler" where
  "handleOptions h req resp localAddress remoteAddress =
     (let resp' = resp\<lparr>rs_Status := Ok,
            rs_Headers := (rs_Headers resp)(''Public'' \<mapsto> join '' '' (GetMethods (ho_methods h)))\<rparr> in
      case rq_Headers req ''Apple-Challenge'' of
        None \<Rightarrow> retP resp'
      | Some appleChallenge \<Rightarrow>
          (let answer = (\<lambda>s. retP (resp'\<lparr>rs_Headers := (rs_Headers resp')(''Apple-Response'' \<mapsto> s)\<rparr>)) in
           case generateChallengeResponse (ho_parse_ip h) (ho_sign h) appleChallenge (getMacAddr h) localAddress of
             Ret s \<Rightarrow> answer s
           | Err e \<Rightarrow> answer []
           | Panic e \<Rightarrow> liftR (Panic e)
           | Exit e \<Rightarrow> liftR (Exit e)
           | Hang \<Rightarrow> liftR Hang))"

text \<open>The decrypter an announcement asks for; \<open>Err\<close> is answered with status 500.\<close>

definition announced_decrypter :: "host \<Rightarrow> session_description \<Rightarrow> AesDecrypter option res" where
  "announced_decrypter h description =
     (case sd_Attributes description ''rsaaeskey'' of
        None \<Rightarrow> Ret None
      | Some key \<Rightarrow>
          res_bind (aeskeyFromRsa (ho_oaep h) key) (\<lambda>aesKey'.
          res_bind (DecodeString (base64pad (get (sd_Attributes description) ''aesiv''))) (\<lambda>aesIv'.
          Ret (Some (NewAesDecrypter aesKey' aesIv')))))"

text \<open>A failing step that the handler answers with a status instead of passing it on.\<close>

definition or_status :: "rtsp_status \<Rightarrow> response \<Rightarrow> 'a res \<Rightarrow> ('a \<Rightarrow> ('s, response) proc) \<Rightarrow> ('s, response) proc" where
  "or_status st resp r f =
     (case r of
        Ret x \<Rightarrow> f x
      | Err e \<Rightarrow> retP (resp\<lparr>rs_Status := st\<rparr>)
      | Panic e \<Rightarrow> liftR (Panic e)
      | Exit e \<Rightarrow> liftR (Exit e)
      | Hang \<Rightarrow> liftR Hang)"

definition add_session :: "string \<Rightarrow> airplay_session \<Rightarrow> ('p airplay, unit) proc" where
  "add_session address s a = (Ret (), a\<lparr>ap_sessions := as_addSession address s (ap_sessions a)\<rparr>)"

definition handleAnnounce :: "host \<Rightarrow> string list \<Rightarrow> 'p airplay handler" where
  "handleAnnounce h ks req resp localAddress remoteAddress =
     (if get (rq_Headers req) ''Content-Type'' = ''application/sdp'' then
        or_status BadRequest resp (Parse (rq_Body req)) (\<lambda>description.
        bindP (closeAllSessions h ks) (\<lambda>_.
        or_status InternalServerError resp (announced_decrypter h description) (\<lambda>decoder.
        bindP (liftR (DiscoverDacpClient h (get (rq_Headers req) ''DACP-ID'')
              (get (rq_Headers req) ''Active-Remote''))) (\<lambda>dacpClient.
        or_status InternalServerError resp (InitReceive (ho_listen h) (NewSession description decoder)) (\<lambda>s.
        bindP (add_session remoteAddress \<lparr>as_session = s, as_client = dacpClient\<rparr>) (\<lambda>_.
        retP (resp\<lparr>rs_Status := Ok\<rparr>)))))))
      else retP (resp\<lparr>rs_Status := Ok\<rparr>))"

definition localTimingPort :: int where "localTimingPort = 6002"
definition localControlPort :: int where "localControlPort = 6001"

primrec transport_ports :: "string list \<Rightarrow> int \<times> int \<Rightarrow> (int \<times> int) res" where
  "transport_ports [] ports = Ret ports"
| "transport_ports (part # parts) ports =
     res_bind (port_in ''control_port'' part (fst ports)) (\<lambda>c.
     res_bind (port_in ''timing_port'' part (snd ports)) (\<lambda>t.
     transport_ports parts (c, t)))"

definition transport_text :: "int \<Rightarrow> string" where
  "transport_text dataPort =
     ''RTP/AVP/UDP;unicast;mode=record;server_port='' @ Itoa dataPort @ '';control_port='' @
     Itoa localControlPort @ '';timing_port='' @ Itoa localTimingPort"

definition handleSetup :: "'p airplay handler" where
  "handleSetup req resp localAddress remoteAddress a =
     (let transport = rq_Headers req ''Transport'' in
      case (case transport of
              None \<Rightarrow> Ret None
            | Some t \<Rightarrow> map_res Some (transport_ports (split_on (CHR '';'') t) (0, 0))) of
        Ret ports \<Rightarrow>
          (case as_getSession (ap_sessions a) remoteAddress of
             None \<Rightarrow> (Panic nil_deref, a)
           | Some as \<Rightarrow>
               (let s = as_session as;
                    s1 = (case ports of None \<Rightarrow> s
                          | Some (c, t) \<Rightarrow> s\<lparr>se_RemotePorts := (se_RemotePorts s)
                              \<lparr>ps_Address := remoteAddress, ps_Control := c, ps_Timing := t\<rparr>\<rparr>);
                    s2 = s1\<lparr>se_LocalPorts := (se_LocalPorts s1)
                          \<lparr>ps_Control := localControlPort, ps_Timing := localTimingPort\<rparr>\<rparr> in
                (Ret (resp\<lparr>rs_Status := Ok,
                   rs_Headers := (rs_Headers resp)(''Transport'' \<mapsto> transport_text (ps_Data (se_LocalPorts s2)),
                     ''Session'' \<mapsto> ''1'', ''Audio-Jack-Status'' \<mapsto> ''connected'')\<rparr>),
                 a\<lparr>ap_sessions := (ap_sessions a)(remoteAddress \<mapsto> as\<lparr>as_session := s2\<rparr>)\<rparr>)))
      | Err e \<Rightarrow> (Err e, a)
      | Panic e \<Rightarrow> (Panic e, a)
      | Exit e \<Rightarrow> (Exit e, a)
      | Hang \<Rightarrow> (Hang, a))"

text \<open>Calling a method of the player.\<close>

definition on_player :: "('p, 'a) proc \<Rightarrow> ('p airplay, 'a) proc" where
  "on_player m a = (case m (ap_player a) of (r, p) \<Rightarrow> (r, a\<lparr>ap_player := p\<rparr>))"

definition handleRecord :: "'p player_ops \<Rightarrow> 'p airplay handler" where
  "handleRecord ops req resp localAddress remoteAddress a =
     (case as_getSession (ap_sessions a) remoteAddress of
        None \<Rightarrow> (Panic nil_deref, a)
      | Some as \<Rightarrow>
          (case StartReceiving (as_session as) of
             Ret s \<Rightarrow>
               bindP (on_player (pl_Play ops s)) (\<lambda>_. retP
                 (resp\<lparr>rs_Status := Ok, rs_Headers := (rs_Headers resp)(''Audio-Latency'' \<mapsto> ''2205'')\<rparr>))
                 (a\<lparr>ap_sessions := (ap_sessions a)(remoteAddress \<mapsto> as\<lparr>as_session := s\<rparr>)\<rparr>)
           | Err e \<Rightarrow> (Ret (resp\<lparr>rs_Status := InternalServerError\<rparr>), a)
           | Panic e \<Rightarrow> (Panic e, a)
           | Exit e \<Rightarrow> (Exit e, a)
           | Hang \<Rightarrow> (Hang, a)))"

text \<open>\<open>val.(string)\<close> of an optional entry, with the empty string as default.\<close>

definition daap_string :: "daap_map \<Rightarrow> string \<Rightarrow> string res" where
  "daap_string m k =
     (case m k of
        None \<Rightarrow> Ret []
      | Some (DString s) \<Rightarrow> Ret s
      | Some (DByte b) \<Rightarrow> Panic ''interface conversion: interface {} is uint8, not string'')"

definition handlSetParameter :: "host \<Rightarrow> 'p player_ops \<Rightarrow> 'p airplay handler" where
  "handlSetParameter h ops req resp localAddress remoteAddress =
     (let contentType = get (rq_Headers req) ''Content-Type'';
          done = retP (resp\<lparr>rs_Status := Ok\<rparr>) in
      if contentType = ''application/x-dmap-tagged'' then
        bindP (liftR (parseDaap (rq_Body req))) (\<lambda>daapData.
        bindP (liftR (daap_string daapData ''daap.songalbum'')) (\<lambda>album.
        bindP (liftR (daap_string daapData ''daap.songartist'')) (\<lambda>artist.
        bindP (liftR (daap_string daapData ''dmap.itemname'')) (\<lambda>title.
        bindP (on_player (pl_SetTrack ops album artist title)) (\<lambda>_. done)))))
      else if contentType = ''image/jpeg'' then
        bindP (on_player (pl_SetAlbumArt ops (rq_Body req))) (\<lambda>_. done)
      else if contentType = ''text/parameters'' then
        (if contains ''volume'' (rq_Body req) then
           bindP (liftR (index (split_str ''volume:'' (rq_Body req)) 1)) (\<lambda>part.
           or_status BadRequest resp (ho_parse_float h (TrimSpace part)) (\<lambda>vol.
             let set_volume = bindP (on_player (pl_SetVolume ops (normalizeVolume vol))) (\<lambda>_. done) in
             case rq_Headers req ''X-BCG-Muted'' of
               None \<Rightarrow> set_volume
             | Some val \<Rightarrow>
                 if val = ''muted'' then bindP (on_player (pl_SetMute ops True)) (\<lambda>_. done)
                 else bindP (on_player (pl_SetMute ops False)) (\<lambda>_. set_volume)))
         else done)
      else done)"

definition handlFlush :: "'p airplay handler" where
  "handlFlush req resp localAddress remoteAddress = retP (resp\<lparr>rs_Status := Ok\<rparr>)"

definition handleTeardown :: "host \<Rightarrow> 'p airplay handler" where
  "handleTeardown h req resp localAddress remoteAddress =
     bindP (closeSession h remoteAddress) (\<lambda>_. retP (resp\<lparr>rs_Status := Ok\<rparr>))"

section \<open>Starting and stopping\<close>

text \<open>The handler table that \<^verbatim>\<open>Start\<close> gives to the RTSP server it creates.\<close>

definition airplay_handlers :: "host \<Rightarrow> string list \<Rightarrow> 'p player_ops \<Rightarrow> int \<Rightarrow> 'p airplay server" where
  "airplay_handlers h ks ops port =
     AddHandler Teardown (handleTeardown h)
     (AddHandler Flush handlFlush
     (AddHandler Set_Parameter (handlSetParameter h ops)
     (AddHandler Record (handleRecord ops)
     (AddHandler Setup handleSetup
     (AddHandler Announce (handleAnnounce h ks)
     (AddHandler Options (handleOptions h) (NewServer port)))))))"

text \<open>
  \<^verbatim>\<open>Start\<close> runs in a goroutine of its own, next to \<^verbatim>\<open>Stop\<close>, so that both are given by their steps. The
  RTSP server that \<^verbatim>\<open>Start\<close> creates is kept as its port, its handlers being \<open>airplay_handlers\<close>;
  \<open>listen\<close> is the outcome of opening its socket. Once it serves, \<^verbatim>\<open>Start\<close> waits for \<^verbatim>\<open>Stop\<close>.
\<close>

datatype start_phase = Advertising bool | Creating | Listening | Serving | Stopped

definition create_server :: "('p airplay, unit) proc" where
  "create_server a = (Ret (), a\<lparr>ap_rtspServer := Some (ap_port a)\<rparr>)"

fun start_turn :: "host \<Rightarrow> unit res \<Rightarrow> start_phase \<Rightarrow> (('p airplay, unit) proc \<times> start_phase) option" where
  "start_turn h listen (Advertising advertise) = Some (if advertise then initAdvertise h else retP (), Creating)"
| "start_turn h listen Creating = Some (create_server, Listening)"
| "start_turn h listen Listening = Some (liftR (fatal_res ''Error listening:'' listen), Serving)"
| "start_turn h listen Serving = None"
| "start_turn h listen Stopped = None"

text \<open>\<^verbatim>\<open>Start\<close> up to the point where it serves.\<close>

definition airplay_Start :: "host \<Rightarrow> unit res \<Rightarrow> bool \<Rightarrow> ('p airplay, unit) proc" where
  "airplay_Start h listen advertise =
     bindP (if advertise then initAdvertise h else retP ()) (\<lambda>_.
     bindP create_server (\<lambda>_.
       liftR (fatal_res ''Error listening:'' listen)))"

lemma airplay_Start_turns:
  "airplay_Start h listen advertise a =
     (case map (\<lambda>st. fst (the (start_turn h listen st))) [Advertising advertise, Creating, Listening] of
        [p, q, r] \<Rightarrow> bindP p (\<lambda>_. bindP q (\<lambda>_. r)) a)"
  by (simp add: airplay_Start_def)

text \<open>
  \<^verbatim>\<open>Stop\<close>: closing the sessions, then the signal to the RTSP server, a nil pointer before \<^verbatim>\<open>Start\<close> has
  created it, which is sent when \<^verbatim>\<open>Start\<close> is there to receive it (\<open>None\<close> while it is not), and the
  end of the registration.
\<close>

datatype stop_phase = Closing_Sessions | Signalling_Server | Ending_Registration | Stop_Done

definition end_registration :: "('p airplay, unit) proc" where
  "end_registration a = (Ret (), a\<lparr>ap_advertised := None\<rparr>)"

fun stop_turn :: "host \<Rightarrow> string list \<Rightarrow> start_phase \<Rightarrow> 'p airplay \<Rightarrow> stop_phase \<Rightarrow>
    (('p airplay, unit) proc \<times> start_phase \<times> stop_phase) option" where
  "stop_turn h ks st a Closing_Sessions = Some (closeAllSessions h ks, st, Signalling_Server)"
| "stop_turn h ks st a Signalling_Server =
     (if ap_rtspServer a = None then Some (liftR (Panic nil_deref), st, Signalling_Server)
      else if st = Serving then Some (retP (), Stopped, Ending_Registration)
      else None)"
| "stop_turn h ks st a Ending_Registration = Some (end_registration, st, Stop_Done)"
| "stop_turn h ks st a Stop_Done = None"

text \<open>\<^verbatim>\<open>Stop\<close> as a whole, for a server that serves.\<close>

definition airplay_Stop :: "host \<Rightarrow> string list \<Rightarrow> ('p airplay, unit) proc" where
  "airplay_Stop h ks =
     bindP (closeAllSessions h ks) (\<lambda>_.
     bindP (\<lambda>a. (if ap_rtspServer a = None then Panic nil_deref else Ret (), a)) (\<lambda>_.
       end_registration))"

section \<open>The advertised name\<close>

text \<open>The invariant of advertising: what is advertised is the current name.\<close>

definition advert_ok :: "host \<Rightarrow> 'p airplay \<Rightarrow> bool" where
  "advert_ok h a \<longleftrightarrow> ap_advertised a \<in> {None, Some (serviceName h (ap_name a))}"

lemma keeps_initAdvertise: "keeps (advert_ok h) (initAdvertise h)"
  by (intro keepsI) (auto simp: initAdvertise_def advert_ok_def split: res.splits)

lemma keeps_ToggleAdvertise: "keeps (advert_ok h) (ToggleAdvertise h b)"
  using keepsD [OF keeps_initAdvertise]
  by (intro keepsI) (auto simp: ToggleAdvertise_def advert_ok_def)

lemma keeps_ChangeName: "keeps (advert_ok h) (ChangeName h n)"
  by (intro keepsI)
    (auto simp: ChangeName_def advert_ok_def Let_def initAdvertise_def split: res.splits)

lemma ToggleAdvertise_eq:
  assumes "\<And>n. ho_register h n = Ret ()" and "advert_ok h a"
  shows "ToggleAdvertise h b a =
    (Ret (), a\<lparr>ap_advertised := if b then Some (serviceName h (ap_name a)) else None\<rparr>)"
  using assms by (auto simp: ToggleAdvertise_def initAdvertise_def advert_ok_def)

lemma ChangeName_eq:
  assumes "\<And>n. ho_register h n = Ret ()" and "advert_ok h a"
  shows "ChangeName h n a =
    (if TrimSpace n = [] then (Err ''New name must be non-empty'', a)
     else (Ret (), a\<lparr>ap_name := TrimSpace n,
       ap_advertised := map_option (\<lambda>_. serviceName h (TrimSpace n)) (ap_advertised a)\<rparr>))"
  using assms by (auto simp: ChangeName_def initAdvertise_def advert_ok_def Let_def)

section \<open>Sessions\<close>

lemma add_session_eq:
  "add_session address s a = (Ret (), a\<lparr>ap_sessions := (ap_sessions a)(address \<mapsto> s)\<rparr>)"
  by (simp add: add_session_def as_addSession_def)

lemma closeSession_none: "ap_sessions a address = None \<Longrightarrow> closeSession h address a = (Ret (), a)"
  by (simp add: closeSession_def as_getSession_def)

text \<open>A session that was never set up has no remote address, so it is not found again.\<close>

lemma closeAllSessions_not_set_up:
  assumes "ap_sessions a [] = None"
    and "\<And>k s. ap_sessions a k = Some s \<Longrightarrow> ps_Address (se_RemotePorts (as_session s)) = []"
    and "set ks \<subseteq> dom (ap_sessions a)"
  shows "closeAllSessions h ks a = (Ret (), a)"
proof -
  let ?f = "\<lambda>as. closeSession h (ps_Address (se_RemotePorts (as_session as)))"
  have "for_each ?f ss a = (Ret (), a)" if "\<And>s. s \<in> set ss \<Longrightarrow> ps_Address (se_RemotePorts (as_session s)) = []" for ss
    using that by (induction ss) (simp_all add: bindP_def closeSession_none assms(1))
  moreover have "ps_Address (se_RemotePorts (as_session s)) = []" if "s \<in> set (as_getSessions ks (ap_sessions a))" for s
    using that assms(2,3) by (fastforce simp: as_getSessions_def)
  ultimately show ?thesis unfolding closeAllSessions_def by blast
qed

lemma or_status_Ret:
  assumes "or_status st resp r f s = (Ret x, s')" and "rs_Status x \<noteq> st"
  obtains y where "r = Ret y" "f y s = (Ret x, s')"
  using assms by (auto simp: or_status_def liftR_def split: res.splits)

text \<open>What a successful announcement leaves behind.\<close>

lemma handleAnnounce_Ok:
  assumes "handleAnnounce h ks req resp la ra a = (Ret r, a')" and "rs_Status r = Ok"
    and "get (rq_Headers req) ''Content-Type'' = ''application/sdp''"
  obtains as a1 where "closeAllSessions h ks a = (Ret (), a1)"
    "a' = a1\<lparr>ap_sessions := (ap_sessions a1)(ra \<mapsto> as)\<rparr>"
    "se_dataConn (as_session as)" "se_receivers (as_session as) = 0"
    "ps_Address (se_RemotePorts (as_session as)) = []"
    "DiscoverDacpClient h (get (rq_Headers req) ''DACP-ID'') (get (rq_Headers req) ''Active-Remote'') = Ret (as_client as)"
proof -
  have "rs_Status r \<noteq> BadRequest" "rs_Status r \<noteq> InternalServerError" using assms(2) by (simp_all add: status_defs)
  note failed = this
  obtain description where "bindP (closeAllSessions h ks) (\<lambda>_.
      or_status InternalServerError resp (announced_decrypter h description) (\<lambda>decoder.
      bindP (liftR (DiscoverDacpClient h (get (rq_Headers req) ''DACP-ID'') (get (rq_Headers req) ''Active-Remote''))) (\<lambda>dacpClient.
      or_status InternalServerError resp (InitReceive (ho_listen h) (NewSession description decoder)) (\<lambda>s.
      bindP (add_session ra \<lparr>as_session = s, as_client = dacpClient\<rparr>) (\<lambda>_. retP (resp\<lparr>rs_Status := Ok\<rparr>)))))) a = (Ret r, a')"
    using assms(1,3) failed(1) by (auto simp: handleAnnounce_def elim!: or_status_Ret)
  then obtain a1 decoder where 1: "closeAllSessions h ks a = (Ret (), a1)"
    and "bindP (liftR (DiscoverDacpClient h (get (rq_Headers req) ''DACP-ID'') (get (rq_Headers req) ''Active-Remote''))) (\<lambda>dacpClient.
      or_status InternalServerError resp (InitReceive (ho_listen h) (NewSession description decoder)) (\<lambda>s.
      bindP (add_session ra \<lparr>as_session = s, as_client = dacpClient\<rparr>) (\<lambda>_. retP (resp\<lparr>rs_Status := Ok\<rparr>)))) a1 = (Ret r, a')"
    using failed(2) by (auto simp: bindP_Ret_iff elim!: or_status_Ret)
  then obtain c s where "DiscoverDacpClient h (get (rq_Headers req) ''DACP-ID'') (get (rq_Headers req) ''Active-Remote'') = Ret c"
    "InitReceive (ho_listen h) (NewSession description decoder) = Ret s"
    "a' = a1\<lparr>ap_sessions := (ap_sessions a1)(ra \<mapsto> \<lparr>as_session = s, as_client = c\<rparr>)\<rparr>"
    using failed(2) by (auto simp: bindP_Ret_iff liftR_def add_session_eq elim!: or_status_Ret)
  with 1 show thesis
    by (intro that [of a1 "\<lparr>as_session = s, as_client = c\<rparr>"])
      (auto simp: InitReceive_def NewSession_def no_ports_def res_bind_Ret_iff)
qed

lemma handleTeardown_outcome:
  assumes "ap_sessions a ra = Some as" and "as_client as = None" and "se_dataConn (as_session as)"
  shows "handleTeardown h req resp la ra a =
    (if se_receivers (as_session as) = 0 then (Hang, a)
     else if se_receivers (as_session as) = 1
     then (Ret (resp\<lparr>rs_Status := Ok\<rparr>), a\<lparr>ap_sessions := (ap_sessions a)(ra := None)\<rparr>)
     else (Panic ''close of closed channel'', a))"
  using assms
  by (simp add: handleTeardown_def closeSession_def as_getSession_def close_and_wait_eq bindP_def
      as_removeSession_def)

lemma handleRecord_counts:
  assumes "ap_sessions a ra = Some as" and "se_dataConn (as_session as)" and "\<And>s p. pl_Play ops s p = (Ret (), p)"
  shows "\<exists>r. handleRecord ops req resp la ra a = (Ret r, a\<lparr>ap_sessions := (ap_sessions a)(ra \<mapsto>
    as\<lparr>as_session := (as_session as)\<lparr>se_receivers := se_receivers (as_session as) + 1\<rparr>\<rparr>)\<rparr>)"
  using assms by (simp add: handleRecord_def as_getSession_def StartReceiving_def on_player_def bindP_def)

section \<open>Parameters\<close>

text \<open>What SET_PARAMETER does to any player that keeps the laws of the interface.\<close>

context player
begin

lemma volume_request:
  assumes "ok (ap_player a)" and "rq_Headers req ''Content-Type'' = Some ''text/parameters''"
    and "contains ''volume'' (rq_Body req)" and "split_str ''volume:'' (rq_Body req) = pre # part # rest"
    and "ho_parse_float h (TrimSpace part) = Ret vol" and "rq_Headers req ''X-BCG-Muted'' = None"
  shows "\<exists>p'. pl_SetVolume ops (normalizeVolume vol) (ap_player a) = (Ret (), p') \<and> muted p' = muted (ap_player a)
    \<and> handlSetParameter h ops req resp la ra a = (Ret (resp\<lparr>rs_Status := Ok\<rparr>), a\<lparr>ap_player := p'\<rparr>)"
  using set_volume [OF assms(1), of "normalizeVolume vol"] assms
  by (auto simp: handlSetParameter_def get_def Let_def bindP_def liftR_def or_status_def index_def on_player_def)

lemma mute_request:
  assumes "ok (ap_player a)" and "rq_Headers req ''Content-Type'' = Some ''text/parameters''"
    and "contains ''volume'' (rq_Body req)" and "split_str ''volume:'' (rq_Body req) = pre # part # rest"
    and "ho_parse_float h (TrimSpace part) = Ret vol" and "rq_Headers req ''X-BCG-Muted'' = Some ''muted''"
  shows "\<exists>p'. pl_SetMute ops True (ap_player a) = (Ret (), p')
    \<and> handlSetParameter h ops req resp la ra a = (Ret (resp\<lparr>rs_Status := Ok\<rparr>), a\<lparr>ap_player := p'\<rparr>)"
  using set_mute [OF assms(1), of True] assms
  by (auto simp: handlSetParameter_def get_def Let_def bindP_def liftR_def or_status_def index_def on_player_def)

lemma unmute_request:
  assumes "ok (ap_player a)" and "rq_Headers req ''Content-Type'' = Some ''text/parameters''"
    and "contains ''volume'' (rq_Body req)" and "split_str ''volume:'' (rq_Body req) = pre # part # rest"
    and "ho_parse_float h (TrimSpace part) = Ret vol" and "rq_Headers req ''X-BCG-Muted'' = Some val" and "val \<noteq> ''muted''"
  shows "\<exists>p1 p'. pl_SetMute ops False (ap_player a) = (Ret (), p1) \<and> pl_SetVolume ops (normalizeVolume vol) p1 = (Ret (), p')
    \<and> handlSetParameter h ops req resp la ra a = (Ret (resp\<lparr>rs_Status := Ok\<rparr>), a\<lparr>ap_player := p'\<rparr>)"
proof -
  obtain p1 p' where "pl_SetMute ops False (ap_player a) = (Ret (), p1)" "pl_SetVolume ops (normalizeVolume vol) p1 = (Ret (), p')"
    using set_mute [OF assms(1), of False] set_volume by blast
  with assms(2-7) show ?thesis
    by (simp add: handlSetParameter_def get_def Let_def bindP_def liftR_def or_status_def index_def on_player_def)
qed

lemma track_request:
  assumes "ok (ap_player a)" and "rq_Headers req ''Content-Type'' = Some ''application/x-dmap-tagged''"
    and "parseDaap (rq_Body req) = Ret m" and "daap_string m ''daap.songalbum'' = Ret album"
    and "daap_string m ''daap.songartist'' = Ret artist" and "daap_string m ''dmap.itemname'' = Ret title"
  shows "\<exists>p'. pl_SetTrack ops album artist title (ap_player a) = (Ret (), p') \<and> muted p' = muted (ap_player a)
    \<and> handlSetParameter h ops req resp la ra a = (Ret (resp\<lparr>rs_Status := Ok\<rparr>), a\<lparr>ap_player := p'\<rparr>)"
  using set_track [OF assms(1), of album artist title] assms
  by (auto simp: handlSetParameter_def get_def Let_def bindP_def liftR_def on_player_def)

end

text \<open>The body of a forwarded track, as the receiving server reads it.\<close>

lemma track_body:
  assumes "range_order dord [''daap.songalbum'' \<mapsto> DString album, ''dmap.itemname'' \<mapsto> DString title,
      ''daap.songartist'' \<mapsto> DString artist]"
    and "length album < 2 ^ 32" and "length artist < 2 ^ 32" and "length title < 2 ^ 32"
  shows "\<exists>body m. task_request net dord (ForwardTrack album artist title) local =
      Ret (parameter_request net local ''application/x-dmap-tagged'' body) \<and> parseDaap body = Ret m
    \<and> daap_string m ''daap.songalbum'' = Ret album \<and> daap_string m ''daap.songartist'' = Ret artist
    \<and> daap_string m ''dmap.itemname'' = Ret title"
proof -
  define m where "m = [''daap.songalbum'' \<mapsto> DString album, ''dmap.itemname'' \<mapsto> DString title,
    ''daap.songartist'' \<mapsto> DString artist]"
  have "\<forall>k v. m k = Some v \<longrightarrow> typed_item k v"
    using assms(2-4) by (auto simp: m_def typed_item_def split: if_splits)
  then have "res_bind (EncodeDaap dord m) parseDaap = Ret (kept_items m)"
    using assms(1) unfolding m_def by (intro EncodeDaap_parses)
  then obtain body where "EncodeDaap dord m = Ret body" "parseDaap body = Ret (kept_items m)"
    by (auto simp: res_bind_Ret_iff)
  moreover have "daap_string (kept_items m) ''daap.songalbum'' = Ret album"
    "daap_string (kept_items m) ''daap.songartist'' = Ret artist"
    "daap_string (kept_items m) ''dmap.itemname'' = Ret title"
    by (auto simp: daap_string_def kept_items_def m_def kept_def known_name_def)
  ultimately show ?thesis by (intro exI [of _ body] exI [of _ "kept_items m"]) (simp flip: m_def)
qed

section \<open>Properties\<close>


definition sample_host :: host where
  "sample_host =
     \<lparr>ho_interfaces = [\<lparr>if_up = True, if_hw = [CHR 0x0A, CHR 0x1B]\<rparr>], ho_register = (\<lambda>n. Ret ()),
      ho_listen = Ret ''[::]:49152'', ho_discovery = \<lparr>di_resolver = Ret (), di_browse = Ret []\<rparr>, ho_http = (\<lambda>u r. Ret ()), ho_oaep = Ret, ho_sign = Ret,
      ho_parse_ip = (\<lambda>s. s), ho_parse_float = (\<lambda>s. if s = ''-144.000000'' then Ret (Fin (-144)) else Ret (Fin 0)),
      ho_methods = []\<rparr>"


text \<open>
  SETUP and RECORD dereference the session of the peer's address without checking that there is
  one: from a host that has not announced a session, either of them takes the process down.
\<close>

theorem setup_and_record_need_announce:
  assumes "ap_sessions a ra = None" and "rq_Headers req ''Transport'' = None"
  shows "handleSetup req resp la ra a = (Panic nil_deref, a)
    \<and> handleRecord ops req resp la ra a = (Panic nil_deref, a)"
  using assms by (simp add: handleSetup_def handleRecord_def as_getSession_def)

theorem setup_and_record_need_announce_witness:
  "handleSetup NewRequest NewResponse ''a'' ''b'' (NewAirplayServer 5000 ''den'' NewLocalPlayer) =
     (Panic nil_deref, NewAirplayServer 5000 ''den'' NewLocalPlayer)"
  using setup_and_record_need_announce [of "NewAirplayServer 5000 ''den'' NewLocalPlayer" "''b''" NewRequest
      NewResponse "''a''"]
  by (simp add: NewAirplayServer_def NewRequest_def)

text \<open>RECORD \<open>n\<close> times, as the server's state changes.\<close>

primrec after_records :: "'p player_ops \<Rightarrow> request \<Rightarrow> response \<Rightarrow> string \<Rightarrow> string \<Rightarrow> nat \<Rightarrow> 'p airplay \<Rightarrow> 'p airplay" where
  "after_records ops q resp la ra 0 a = a"
| "after_records ops q resp la ra (Suc n) a = after_records ops q resp la ra n (snd (handleRecord ops q resp la ra a))"

lemma after_records_counts:
  assumes "ap_sessions a ra = Some as" and "se_dataConn (as_session as)" and "\<And>s p. pl_Play ops s p = (Ret (), p)"
  shows "ap_sessions (after_records ops q resp la ra n a) ra =
    Some (as\<lparr>as_session := (as_session as)\<lparr>se_receivers := se_receivers (as_session as) + n\<rparr>\<rparr>)"
  using assms(1,2)
proof (induction n arbitrary: a as)
  case (Suc n)
  let ?as = "as\<lparr>as_session := (as_session as)\<lparr>se_receivers := se_receivers (as_session as) + 1\<rparr>\<rparr>"
  have "ap_sessions (snd (handleRecord ops q resp la ra a)) ra = Some ?as"
    using handleRecord_counts [OF Suc.prems assms(3), of q resp la] by auto
  from Suc.IH [OF this] Suc.prems(2) show ?case by simp
qed simp

text \<open>
  C36. The life of a session ends well only in one way. After an announcement (with no remote control
  to stop) and \<open>n\<close> RECORDs, TEARDOWN closes the session's socket and waits for a receiver. Whatever the
  schedule of the \<open>n\<close> receivers: with \<open>n = 0\<close> nothing can happen any more and the handler waits for ever;
  with \<open>n = 1\<close> nothing panics, and everything stops only when the handler has been signalled,
  after which the session is removed; with two or more the process cannot come to rest but panics, possibly after the
  handler has returned. There are finitely many steps in each case.
\<close>

theorem teardown_after_records:
  assumes "handleAnnounce h ks req resp la ra a = (Ret r, a0)" and "rs_Status r = Ok"
    and "rq_Headers req ''Content-Type'' = Some ''application/sdp''"
    and "ho_discovery h = \<lparr>di_resolver = Ret (), di_browse = Ret []\<rparr>"
    and "\<And>s p. pl_Play ops s p = (Ret (), p)"
  shows "\<exists>as. ap_sessions (after_records ops q resp la ra n a0) ra = Some as \<and>
    wfp (\<lambda>y x. close_step x (Ret ()) y) \<and>
    (\<forall>x r y. close_step x r y \<longrightarrow> r = Ret () \<or> r = Panic ''close of closed channel'') \<and>
    (n = 0 \<longrightarrow> (\<nexists>r y. close_step (Close (as_session as)) r y) \<and> co_caller (Close (as_session as)) = Waits \<and>
       fst (handleTeardown h q resp la ra (after_records ops q resp la ra n a0)) = Hang) \<and>
    (n = 1 \<longrightarrow> (\<forall>x. close_runs (Close (as_session as)) x \<longrightarrow>
         (\<nexists>e y. close_step x (Panic e) y) \<and> ((\<nexists>r y. close_step x r y) \<longleftrightarrow> co_caller x = Returned)) \<and>
       handleTeardown h q resp la ra (after_records ops q resp la ra n a0) =
         (Ret (resp\<lparr>rs_Status := Ok\<rparr>), (after_records ops q resp la ra n a0)
            \<lparr>ap_sessions := (ap_sessions (after_records ops q resp la ra n a0))(ra := None)\<rparr>)) \<and>
    (2 \<le> n \<longrightarrow> (\<forall>x. close_runs (Close (as_session as)) x \<longrightarrow> (\<exists>r y. close_step x r y)) \<and>
       (\<exists>x. close_runs (Close (as_session as)) x \<and> co_caller x = Returned))"
proof -
  let ?a = "after_records ops q resp la ra n a0"
  obtain as0 where as0: "ap_sessions a0 ra = Some as0" "se_dataConn (as_session as0)"
    "se_receivers (as_session as0) = 0" "as_client as0 = None"
    by (rule handleAnnounce_Ok [OF assms(1,2)])
      (use assms(3,4) in \<open>auto simp: get_def DiscoverDacpClient_def\<close>)
  define as where "as = as0\<lparr>as_session := (as_session as0)\<lparr>se_receivers := n\<rparr>\<rparr>"
  have as: "ap_sessions ?a ra = Some as" "se_dataConn (as_session as)" "se_receivers (as_session as) = n" "as_client as = None"
    using after_records_counts [OF as0(1,2) assms(5), of q resp la n] as0 by (simp_all add: as_def)
  note closed = handleTeardown_outcome [OF as(1,4,2), of h q resp la, unfolded as(3)]
  show ?thesis
  proof (intro exI [of _ as] conjI impI allI)
    show "wfp (\<lambda>y x. close_step x (Ret ()) y)" by (rule close_step_terminates)
    show "r = Ret () \<or> r = Panic ''close of closed channel''" if "close_step x r y" for x r y
      using that by (cases rule: close_stepE) auto
    show "co_caller (Close (as_session as)) = Waits" using as(2) by (simp add: Close_def)
    show "\<nexists>r y. close_step (Close (as_session as)) r y" if "n = 0"
      using that no_receiver_hangs as(3) by blast
    show "fst (handleTeardown h q resp la ra ?a) = Hang" if "n = 0" using closed that by simp
    show "\<nexists>e y. close_step x (Panic e) y" "(\<nexists>r y. close_step x r y) \<longleftrightarrow> co_caller x = Returned"
      if "n = 1" "close_runs (Close (as_session as)) x" for x
      using one_receiver_returns [OF _ as(2) that(2)] as(3) that(1) by auto
    show "handleTeardown h q resp la ra ?a =
        (Ret (resp\<lparr>rs_Status := Ok\<rparr>), ?a\<lparr>ap_sessions := (ap_sessions ?a)(ra := None)\<rparr>)" if "n = 1"
      using closed that by simp
    show "\<exists>r y. close_step x r y" if "2 \<le> n" "close_runs (Close (as_session as)) x" for x
      using more_receivers_panic [OF _ that(2)] as(3) that(1) by simp
    show "\<exists>x. close_runs (Close (as_session as)) x \<and> co_caller x = Returned" if "2 \<le> n"
      using receiver_may_signal [OF _ as(2)] as(3) that by simp
  qed (rule as(1))
qed

definition sample_announce :: request where
  "sample_announce = NewRequest\<lparr>rq_Method := Announce, rq_Headers := [''Content-Type'' \<mapsto> ''application/sdp''],
     rq_Body := Write [''rtpmap''] sample_session\<rparr>"

lemma sample_announced:
  "\<exists>as. handleAnnounce sample_host [] sample_announce NewResponse ''a'' ''b'' (NewAirplayServer 5000 ''den'' p) =
     (Ret (NewResponse\<lparr>rs_Status := Ok\<rparr>), (NewAirplayServer 5000 ''den'' p)\<lparr>ap_sessions := [''b'' \<mapsto> as]\<rparr>)"
proof -
  have "rq_Headers sample_announce = [''Content-Type'' \<mapsto> ''application/sdp'']"
    "Parse (rq_Body sample_announce) = Ret sample_session"
    by (simp_all add: sample_announce_def Parse_Write [OF sample_session_wire])
  moreover have "sd_Attributes sample_session ''rsaaeskey'' = None" "ho_listen sample_host = Ret ''[::]:49152''"
    "DiscoverDacpClient sample_host d r = Ret None" for d r
    by (simp_all add: sample_session_def sample_host_def DiscoverDacpClient_def)
  ultimately show ?thesis
    by (simp add: handleAnnounce_def get_def or_status_def bindP_def closeAllSessions_def as_getSessions_def
        announced_decrypter_def InitReceive_def add_session_eq NewAirplayServer_def liftR_def, blast)
qed

theorem teardown_after_records_witness:
  "\<exists>a0 as. handleAnnounce sample_host [] sample_announce NewResponse ''a'' ''b''
      (NewAirplayServer 5000 ''den'' NewLocalPlayer) = (Ret (NewResponse\<lparr>rs_Status := Ok\<rparr>), a0)
    \<and> ap_sessions (after_records local_player_ops NewRequest NewResponse ''a'' ''b'' 2 a0) ''b'' = Some as
    \<and> (\<exists>x. close_runs (Close (as_session as)) x \<and> co_caller x = Returned)"
proof -
  obtain a0 where a0: "handleAnnounce sample_host [] sample_announce NewResponse ''a'' ''b''
      (NewAirplayServer 5000 ''den'' NewLocalPlayer) = (Ret (NewResponse\<lparr>rs_Status := Ok\<rparr>), a0)"
    using sample_announced [of NewLocalPlayer] by (elim exE) (rule that)
  have "rs_Status (NewResponse\<lparr>rs_Status := Ok\<rparr>) = Ok"
    "rq_Headers sample_announce ''Content-Type'' = Some ''application/sdp''"
    "ho_discovery sample_host = \<lparr>di_resolver = Ret (), di_browse = Ret []\<rparr>"
    "\<And>s p. pl_Play local_player_ops s p = (Ret (), p)"
    by (simp_all add: sample_announce_def sample_host_def local_player_ops_def)
  from teardown_after_records [OF a0 this, of NewRequest 2] a0 show ?thesis by auto
qed

text \<open>
  The server means to keep one session at a time, but a session is closed by the remote address
  that only SETUP fills in: announcements from two hosts, neither followed by SETUP, leave both
  sessions in the table, with their sockets open.
\<close>

theorem announced_sessions_pile_up:
  assumes "handleAnnounce h [] req resp la ra (NewAirplayServer port name p) = (Ret r, a1)" and "rs_Status r = Ok"
    and "handleAnnounce h [ra] req' resp la' ra' a1 = (Ret r', a2)" and "rs_Status r' = Ok"
    and "rq_Headers req ''Content-Type'' = Some ''application/sdp''"
    and "rq_Headers req' ''Content-Type'' = Some ''application/sdp''" and "ra \<noteq> []" and "ra \<noteq> ra'"
  shows "dom (ap_sessions a2) = {ra, ra'}"
proof -
  have get: "get (rq_Headers req) ''Content-Type'' = ''application/sdp''"
    "get (rq_Headers req') ''Content-Type'' = ''application/sdp''"
    using assms(5,6) by (simp_all add: get_def)
  obtain as where as: "ap_sessions a1 = [ra \<mapsto> as]" "ps_Address (se_RemotePorts (as_session as)) = []"
    by (rule handleAnnounce_Ok [OF assms(1,2) get(1)])
      (auto simp: closeAllSessions_def as_getSessions_def NewAirplayServer_def)
  have "closeAllSessions h [ra] a1 = (Ret (), a1)"
    using as assms(7) by (intro closeAllSessions_not_set_up) (auto split: if_splits)
  then obtain as' where "ap_sessions a2 = (ap_sessions a1)(ra' \<mapsto> as')"
    by (rule_tac handleAnnounce_Ok [OF assms(3,4) get(2)]) auto
  with as(1) show ?thesis by auto
qed

text \<open>
  The track of a zone's leader arrives at its members: the SET_PARAMETER that the leader's
  forwarding goroutine builds, handled by a member's server, sets exactly the album, artist and
  title (empty ones too) of the member's player and leaves its mute state alone. The request may
  carry any further headers; strings have to be shorter than 4 GiB.
\<close>

theorem forwarded_track_arrives:
  assumes "range_order dord [''daap.songalbum'' \<mapsto> DString album, ''dmap.itemname'' \<mapsto> DString title,
      ''daap.songartist'' \<mapsto> DString artist]"
    and "length album < 2 ^ 32" and "length artist < 2 ^ 32" and "length title < 2 ^ 32"
    and "task_request net dord (ForwardTrack album artist title) local = Ret sent"
    and "rq_Body req = rq_Body sent"
    and "rq_Headers req ''Content-Type'' = rq_Headers sent ''Content-Type''"
    and "fw_player (ap_player a) = Some p"
  shows "\<exists>a' p'. handlSetParameter h forwarding_player_ops req resp la ra a = (Ret (resp\<lparr>rs_Status := Ok\<rparr>), a')
    \<and> fw_player (ap_player a') = Some p' \<and> tr_Album (fp_currentTrack p') = album
    \<and> tr_Artist (fp_currentTrack p') = artist \<and> tr_Title (fp_currentTrack p') = title
    \<and> fp_isMuted p' = fp_isMuted p"
proof -
  obtain body m where track: "task_request net dord (ForwardTrack album artist title) local =
      Ret (parameter_request net local ''application/x-dmap-tagged'' body)" "parseDaap body = Ret m"
    "daap_string m ''daap.songalbum'' = Ret album" "daap_string m ''daap.songartist'' = Ret artist"
    "daap_string m ''dmap.itemname'' = Ret title"
    using track_body [OF assms(1-4)] by blast
  then have body: "parseDaap (rq_Body req) = Ret m"
    "rq_Headers req ''Content-Type'' = Some ''application/x-dmap-tagged''"
    using assms(5-7) by (auto simp: parameter_request_def)
  from forwarding_player.track_request [OF _ body(2,1) track(3-5), of a h resp la ra] assms(8)
  show ?thesis by (auto simp: forwarding_player_ops_def fplayer_op_defs)
qed

text \<open>The witnesses: two announcements, and a track.\<close>

lemma sample_announced_again:
  "\<exists>a2. handleAnnounce sample_host [''b''] sample_announce NewResponse ''a'' ''c''
     (snd (handleAnnounce sample_host [] sample_announce NewResponse ''a'' ''b'' (NewAirplayServer 5000 ''den'' p))) =
     (Ret (NewResponse\<lparr>rs_Status := Ok\<rparr>), a2)"
proof -
  obtain as where a1: "handleAnnounce sample_host [] sample_announce NewResponse ''a'' ''b'' (NewAirplayServer 5000 ''den'' p) =
      (Ret (NewResponse\<lparr>rs_Status := Ok\<rparr>), (NewAirplayServer 5000 ''den'' p)\<lparr>ap_sessions := [''b'' \<mapsto> as]\<rparr>)"
    using sample_announced [of p] by (elim exE) (rule that)
  have hd: "rq_Headers sample_announce = [''Content-Type'' \<mapsto> ''application/sdp'']"
    "Parse (rq_Body sample_announce) = Ret sample_session"
    "sd_Attributes sample_session ''rsaaeskey'' = None" "ho_listen sample_host = Ret ''[::]:49152''"
    "DiscoverDacpClient sample_host d r = Ret None" for d r
    by (simp_all add: sample_announce_def Parse_Write [OF sample_session_wire] sample_host_def DiscoverDacpClient_def)
      (simp add: sample_session_def)
  obtain as' a1' where as': "ps_Address (se_RemotePorts (as_session as')) = []"
    "(NewAirplayServer 5000 ''den'' p)\<lparr>ap_sessions := [''b'' \<mapsto> as]\<rparr> = a1'\<lparr>ap_sessions := (ap_sessions a1')(''b'' \<mapsto> as')\<rparr>"
    by (rule handleAnnounce_Ok [OF a1]) (auto simp: get_def hd(1))
  have "as = as'" using arg_cong [OF as'(2), of "\<lambda>x. ap_sessions x ''b''"] by simp
  with as'(1) have as: "ps_Address (se_RemotePorts (as_session as)) = []" by simp
  have "closeAllSessions sample_host [''b''] ((NewAirplayServer 5000 ''den'' p)\<lparr>ap_sessions := [''b'' \<mapsto> as]\<rparr>) =
      (Ret (), (NewAirplayServer 5000 ''den'' p)\<lparr>ap_sessions := [''b'' \<mapsto> as]\<rparr>)"
    using as by (intro closeAllSessions_not_set_up) (auto split: if_splits)
  then show ?thesis
    unfolding a1 snd_conv
    by (simp add: hd handleAnnounce_def get_def or_status_def bindP_def announced_decrypter_def
        InitReceive_def add_session_eq liftR_def)
qed

theorem announced_sessions_pile_up_witness:
  "dom (ap_sessions (snd (handleAnnounce sample_host [''b''] sample_announce NewResponse ''a'' ''c''
     (snd (handleAnnounce sample_host [] sample_announce NewResponse ''a'' ''b''
       (NewAirplayServer 5000 ''den'' NewLocalPlayer)))))) = {''b'', ''c''}"
proof -
  let ?a1 = "snd (handleAnnounce sample_host [] sample_announce NewResponse ''a'' ''b''
    (NewAirplayServer 5000 ''den'' NewLocalPlayer))"
  let ?a2 = "snd (handleAnnounce sample_host [''b''] sample_announce NewResponse ''a'' ''c'' ?a1)"
  have "handleAnnounce sample_host [] sample_announce NewResponse ''a'' ''b''
      (NewAirplayServer 5000 ''den'' NewLocalPlayer) = (Ret (NewResponse\<lparr>rs_Status := Ok\<rparr>), ?a1)"
    using sample_announced [of NewLocalPlayer] by (metis snd_conv)
  moreover have "handleAnnounce sample_host [''b''] sample_announce NewResponse ''a'' ''c'' ?a1 =
      (Ret (NewResponse\<lparr>rs_Status := Ok\<rparr>), ?a2)"
    using sample_announced_again [of NewLocalPlayer] by (metis snd_conv)
  moreover have "rq_Headers sample_announce ''Content-Type'' = Some ''application/sdp''"
    by (simp add: sample_announce_def)
  ultimately show ?thesis
    by (intro announced_sessions_pile_up [where r = "NewResponse\<lparr>rs_Status := Ok\<rparr>" and r' = "NewResponse\<lparr>rs_Status := Ok\<rparr>"]) simp_all
qed

theorem forwarded_track_arrives_witness:
  "\<exists>sent a' p'. task_request sample_net [''dmap.itemname'', ''daap.songartist'', ''daap.songalbum'']
      (ForwardTrack ''Phantom Power'' ''The Tragically Hip'' ''Bobcaygeon'') ''10.0.0.1'' = Ret sent
    \<and> handlSetParameter sample_host forwarding_player_ops sent NewResponse ''a'' ''b''
        (NewAirplayServer 5000 ''den'' \<lparr>fw_player = Some working_player, fw_tasks = []\<rparr>) =
        (Ret (NewResponse\<lparr>rs_Status := Ok\<rparr>), a')
    \<and> fw_player (ap_player a') = Some p' \<and> tr_Title (fp_currentTrack p') = ''Bobcaygeon''"
proof -
  let ?t = "ForwardTrack ''Phantom Power'' ''The Tragically Hip'' ''Bobcaygeon''"
  let ?d = "[''dmap.itemname'', ''daap.songartist'', ''daap.songalbum'']"
  have "range_order ?d [''daap.songalbum'' \<mapsto> DString ''Phantom Power'', ''dmap.itemname'' \<mapsto> DString ''Bobcaygeon'',
      ''daap.songartist'' \<mapsto> DString ''The Tragically Hip'']"
    by (auto simp: range_order_def)
  note order = this
  have len: "length ''Phantom Power'' < 2 ^ 32" "length ''The Tragically Hip'' < 2 ^ 32" "length ''Bobcaygeon'' < 2 ^ 32"
    by simp_all
  obtain sent where sent: "task_request sample_net ?d ?t ''10.0.0.1'' = Ret sent"
    using track_body [OF order len, of sample_net "''10.0.0.1''"] by blast
  have "fw_player (ap_player (NewAirplayServer 5000 ''den'' \<lparr>fw_player = Some working_player, fw_tasks = []\<rparr>)) =
      Some working_player"
    by (simp add: NewAirplayServer_def)
  from forwarded_track_arrives [OF order len sent refl refl this, of sample_host NewResponse "''a''" "''b''"] sent
  show ?thesis by blast
qed

end
