(* ===== verification/Speaker_API.thy ===== *)
theory Speaker_API
  imports Airplay
begin

text \<open>
  The gRPC service of a speaker, \<^verbatim>\<open>api/handler.go\<close>. The server holds the AirPlay server, the
  forwarding player behind it and the member list; the forwarding player is the one that the AirPlay
  server plays on (\<^verbatim>\<open>cmd/bcg.go\<close> passes the same pointer to both), so it is reached through
  \<open>ap_player\<close>. Requests and answers are the messages of \<^verbatim>\<open>api/bobcaygeon.proto\<close>; \<open>serve_speaker\<close> is
  the dispatch on them.

  The locale \<open>speaker_contract\<close> is what the management service relies on: how each request changes
  the name, the advertisement and the sessions of a speaker.
\<close>

section \<open>The server\<close>

record speaker_server =
  sv_airplay :: "fworld airplay"
  sv_local :: string
  sv_members :: "node list"

datatype speaker_request =
    BroadcastRequest bool
  | NameChangeRequest string
  | ForwardRequest "string list"
  | RemoveForwardRequest "string list" bool
  | GetTrackRequest
  | GetMutedRequest

datatype speaker_reply = ManagementResponse int | TrackReply track | SpeakerMuteResponse bool

definition NewSpeakerServer :: "fworld airplay \<Rightarrow> string \<Rightarrow> node list \<Rightarrow> speaker_server" where
  "NewSpeakerServer airplayServer self nodes =
     \<lparr>sv_airplay = airplayServer, sv_local = self, sv_members = nodes\<rparr>"

definition on_airplay :: "(fworld airplay, 'a) proc \<Rightarrow> (speaker_server, 'a) proc" where
  "on_airplay m s = (case m (sv_airplay s) of (r, a) \<Rightarrow> (r, s\<lparr>sv_airplay := a\<rparr>))"

definition ToggleBroadcast :: "host \<Rightarrow> bool \<Rightarrow> (speaker_server, speaker_reply) proc" where
  "ToggleBroadcast h shouldBroadcast =
     bindP (on_airplay (ToggleAdvertise h shouldBroadcast)) (\<lambda>_. retP (ManagementResponse 200))"

definition ChangeServiceName :: "host \<Rightarrow> string \<Rightarrow> (speaker_server, speaker_reply) proc" where
  "ChangeServiceName h newName =
     catchP (bindP (on_airplay (ChangeName h newName)) (\<lambda>_. retP (ManagementResponse 200)))
       (\<lambda>err. retP (ManagementResponse 400))"

text \<open>The filter of both forwarding requests: listed, and not this node.\<close>

definition forward_filter :: "string \<Rightarrow> string list \<Rightarrow> node \<Rightarrow> bool" where
  "forward_filter self ids node \<longleftrightarrow> (if nd_Name node = self then False else nd_Name node \<in> set ids)"

definition ForwardToNodes :: "string list \<Rightarrow> (speaker_server, speaker_reply) proc" where
  "ForwardToNodes ids s =
     (let nodesToAdd = FilterMembersByFn (forward_filter (sv_local s) ids) (sv_members s) in
      bindP (on_airplay (on_player (for_each AddSessionForNode nodesToAdd)))
        (\<lambda>_. retP (ManagementResponse 200)) s)"

definition RemoveForwardToNodes :: "string list \<Rightarrow> bool \<Rightarrow> (speaker_server, speaker_reply) proc" where
  "RemoveForwardToNodes ids remove_all s =
     (let nodesToRemove = FilterMembersByFn (forward_filter (sv_local s) ids) (sv_members s) in
      bindP (on_airplay (on_player
          (if \<not> remove_all then for_each RemoveSessionForNode nodesToRemove else RemoveAllSessions)))
        (\<lambda>_. retP (ManagementResponse 200)) s)"

definition GetCurrentTrack :: "(speaker_server, speaker_reply) proc" where
  "GetCurrentTrack =
     bindP (on_airplay (on_player fGetTrack)) (\<lambda>track. retP (TrackReply
       \<lparr>tr_Artist = tr_Artist track, tr_Album = tr_Album track, tr_Title = tr_Title track,
        tr_Artwork = tr_Artwork track\<rparr>))"

definition GetMuted :: "(speaker_server, speaker_reply) proc" where
  "GetMuted =
     bindP (on_airplay (on_player fGetIsMuted)) (\<lambda>muted. retP (SpeakerMuteResponse muted))"

fun serve_speaker :: "host \<Rightarrow> speaker_request \<Rightarrow> (speaker_server, speaker_reply) proc" where
  "serve_speaker h (BroadcastRequest b) = ToggleBroadcast h b"
| "serve_speaker h (NameChangeRequest n) = ChangeServiceName h n"
| "serve_speaker h (ForwardRequest ids) = ForwardToNodes ids"
| "serve_speaker h (RemoveForwardRequest ids all) = RemoveForwardToNodes ids all"
| "serve_speaker h GetTrackRequest = GetCurrentTrack"
| "serve_speaker h GetMutedRequest = GetMuted"

section \<open>The contract\<close>

text \<open>
  What a caller can tell about a speaker: the name of its service, whether it is advertised, the
  nodes it holds a session with, the nodes a session is being established with, and its track and
  mute state. \<open>view_after\<close> is the effect of a request on it; \<open>reach\<close> is the set of nodes the speaker
  can forward to.
\<close>

record view =
  vw_name :: string
  vw_advertised :: bool
  vw_sessions :: "string set"
  vw_pending :: "string set"
  vw_track :: track
  vw_muted :: bool

fun view_after :: "string set \<Rightarrow> speaker_request \<Rightarrow> view \<Rightarrow> view" where
  "view_after reach (BroadcastRequest b) v = v\<lparr>vw_advertised := b\<rparr>"
| "view_after reach (NameChangeRequest n) v = (if TrimSpace n = [] then v else v\<lparr>vw_name := TrimSpace n\<rparr>)"
| "view_after reach (ForwardRequest ids) v = v\<lparr>vw_pending := vw_pending v \<union> (set ids \<inter> reach)\<rparr>"
| "view_after reach (RemoveForwardRequest ids all) v =
     v\<lparr>vw_sessions := if all then {} else vw_sessions v - (set ids \<inter> reach)\<rparr>"
| "view_after reach GetTrackRequest v = v"
| "view_after reach GetMutedRequest v = v"

fun reply_after :: "speaker_request \<Rightarrow> view \<Rightarrow> speaker_reply" where
  "reply_after (NameChangeRequest n) v = ManagementResponse (if TrimSpace n = [] then 400 else 200)"
| "reply_after GetTrackRequest v = TrackReply (vw_track v)"
| "reply_after GetMutedRequest v = SpeakerMuteResponse (vw_muted v)"
| "reply_after _ v = ManagementResponse 200"

locale speaker_contract =
  fixes serve :: "speaker_request \<Rightarrow> ('s, speaker_reply) proc"
    and ok :: "'s \<Rightarrow> bool"
    and view :: "'s \<Rightarrow> view"
    and reach :: "'s \<Rightarrow> string set"
  assumes serve_view: "ok s \<Longrightarrow> \<exists>s'. serve q s = (Ret (reply_after q (view s)), s')
    \<and> ok s' \<and> reach s' = reach s \<and> view s' = view_after (reach s) q (view s)"
begin

lemma serve_all_views:
  "ok s \<Longrightarrow> \<exists>s'. for_each (\<lambda>q. bindP (serve q) (\<lambda>_. retP ())) qs s = (Ret (), s')
    \<and> ok s' \<and> reach s' = reach s \<and> view s' = fold (view_after (reach s)) qs (view s)"
proof (induction qs arbitrary: s)
  case (Cons q qs)
  from serve_view [OF Cons.prems, of q] obtain s1 where s1: "serve q s = (Ret (reply_after q (view s)), s1)"
    "ok s1" "reach s1 = reach s" "view s1 = view_after (reach s) q (view s)" by blast
  with Cons.IH [OF s1(2)] show ?case by (simp add: bindP_def)
qed simp

text \<open>Requests that clear a speaker leave it without sessions, whatever it was doing.\<close>

lemma cleared:
  "ok s \<Longrightarrow> \<exists>s'. serve (RemoveForwardRequest ids True) s = (Ret (ManagementResponse 200), s')
    \<and> ok s' \<and> vw_sessions (view s') = {}"
  using serve_view [of s "RemoveForwardRequest ids True"] by auto

end

section \<open>The server keeps the contract\<close>

fun session_target :: "task \<Rightarrow> string set" where
  "session_target (InitSession name ip port) = {name}"
| "session_target _ = {}"

definition pending_targets :: "fworld \<Rightarrow> string set" where
  "pending_targets w = \<Union> (session_target ` set (fw_tasks w))"

definition player_of :: "speaker_server \<Rightarrow> fplayer" where
  "player_of s = the (fw_player (ap_player (sv_airplay s)))"

definition speaker_view :: "speaker_server \<Rightarrow> view" where
  "speaker_view s =
     \<lparr>vw_name = ap_name (sv_airplay s), vw_advertised = (ap_advertised (sv_airplay s) \<noteq> None),
      vw_sessions = dom (fp_sessions (player_of s)),
      vw_pending = pending_targets (ap_player (sv_airplay s)),
      vw_track = fp_currentTrack (player_of s), vw_muted = fp_isMuted (player_of s)\<rparr>"

definition speaker_reach :: "speaker_server \<Rightarrow> string set" where
  "speaker_reach s = {nd_Name n |n. n \<in> set (sv_members s) \<and> has_type Music n} - {sv_local s}"

text \<open>
  A healthy speaker: registering its service succeeds, what it advertises is its name, it has a
  player, and the metadata of the nodes it knows decodes.
\<close>

definition speaker_ok :: "host \<Rightarrow> speaker_server \<Rightarrow> bool" where
  "speaker_ok h s \<longleftrightarrow> (\<forall>n. ho_register h n = Ret ()) \<and> advert_ok h (sv_airplay s)
     \<and> fw_player (ap_player (sv_airplay s)) \<noteq> None \<and> list_all (\<lambda>n. nd_Meta n \<noteq> None) (sv_members s)"

definition node_task :: "node \<Rightarrow> task" where
  "node_task n = InitSession (nd_Name n) (nd_Addr n) (nm_RtspPort (the (nd_Meta n)))"

lemma AddSessionForNode_eq:
  "nd_Meta n \<noteq> None \<Longrightarrow> AddSessionForNode n w =
     (Ret (), w\<lparr>fw_tasks := fw_tasks w @ (if has_type Music n then [node_task n] else [])\<rparr>)"
  by (auto simp: AddSessionForNode_def fplayer_op_defs DecodeNodeMeta_def has_type_def node_task_def
      split: option.splits)

lemma AddSessionForNode_all:
  "list_all (\<lambda>n. nd_Meta n \<noteq> None) ns \<Longrightarrow> for_each AddSessionForNode ns w =
     (Ret (), w\<lparr>fw_tasks := fw_tasks w @ map node_task (filter (has_type Music) ns)\<rparr>)"
  by (induction ns arbitrary: w) (auto simp: bindP_def AddSessionForNode_eq)

lemma RemoveSessionForNode_eq:
  "nd_Meta n \<noteq> None \<Longrightarrow> fw_player w = Some p \<Longrightarrow> RemoveSessionForNode n w =
     (Ret (), w\<lparr>fw_player := Some (p\<lparr>fp_sessions :=
        (if has_type Music n then removeSession (nd_Name n) (fp_sessions p) else fp_sessions p)\<rparr>)\<rparr>)"
  by (auto simp: RemoveSessionForNode_def fplayer_op_defs DecodeNodeMeta_def has_type_def split: option.splits)

lemma RemoveSessionForNode_all:
  "list_all (\<lambda>n. nd_Meta n \<noteq> None) ns \<Longrightarrow> fw_player w = Some p \<Longrightarrow> for_each RemoveSessionForNode ns w =
     (Ret (), w\<lparr>fw_player := Some (p\<lparr>fp_sessions :=
        fold removeSession (map nd_Name (filter (has_type Music) ns)) (fp_sessions p)\<rparr>)\<rparr>)"
proof (induction ns arbitrary: w p)
  case (Cons n ns)
  then show ?case by (simp add: bindP_def RemoveSessionForNode_eq)
qed (cases w, simp)

lemma dom_remove_all: "dom (fold removeSession ks m) = dom m - set ks"
  by (auto simp: dom_def forwarding_sessions.lookup_remove_all)

lemma forward_filter_names:
  "{nd_Name n |n. n \<in> set (filter (forward_filter self ids) ns) \<and> has_type Music n} =
   set ids \<inter> ({nd_Name n |n. n \<in> set ns \<and> has_type Music n} - {self})"
  by (auto simp: forward_filter_def split: if_splits)

lemma list_all_filter: "list_all P xs \<Longrightarrow> list_all P (filter Q xs)"
  by (induction xs) auto

lemma pending_after_tasks:
  "pending_targets (w\<lparr>fw_tasks := fw_tasks w @ map node_task ns\<rparr>) = pending_targets w \<union> nd_Name ` set ns"
  by (auto simp: pending_targets_def node_task_def)

lemmas speaker_defs = speaker_view_def speaker_reach_def speaker_ok_def player_of_def
  on_airplay_def on_player_def bindP_def

lemma pending_targets_player [simp]: "pending_targets (w\<lparr>fw_player := p\<rparr>) = pending_targets w"
  by (simp add: pending_targets_def)

lemma serve_broadcast:
  "speaker_ok h s \<Longrightarrow> \<exists>s'. ToggleBroadcast h b s = (Ret (ManagementResponse 200), s') \<and> speaker_ok h s'
    \<and> speaker_reach s' = speaker_reach s \<and> speaker_view s' = (speaker_view s)\<lparr>vw_advertised := b\<rparr>"
  using ToggleAdvertise_eq [of h "sv_airplay s" b] keepsD [OF keeps_ToggleAdvertise, of h "sv_airplay s" b]
  by (auto simp: ToggleBroadcast_def speaker_defs)

lemma serve_rename:
  "speaker_ok h s \<Longrightarrow> \<exists>s'. ChangeServiceName h n s =
      (Ret (ManagementResponse (if TrimSpace n = [] then 400 else 200)), s') \<and> speaker_ok h s'
    \<and> speaker_reach s' = speaker_reach s
    \<and> speaker_view s' = (if TrimSpace n = [] then speaker_view s else (speaker_view s)\<lparr>vw_name := TrimSpace n\<rparr>)"
  using ChangeName_eq [of h "sv_airplay s" n] keepsD [OF keeps_ChangeName, of h "sv_airplay s" n]
  by (auto simp: ChangeServiceName_def catchP_def speaker_defs)

lemma serve_forward:
  assumes "speaker_ok h s"
  shows "\<exists>s'. ForwardToNodes ids s = (Ret (ManagementResponse 200), s') \<and> speaker_ok h s'
    \<and> speaker_reach s' = speaker_reach s
    \<and> speaker_view s' = (speaker_view s)\<lparr>vw_pending := vw_pending (speaker_view s) \<union> (set ids \<inter> speaker_reach s)\<rparr>"
proof -
  let ?ns = "filter (forward_filter (sv_local s) ids) (sv_members s)" and ?w = "ap_player (sv_airplay s)"
  have "for_each AddSessionForNode ?ns ?w =
      (Ret (), ?w\<lparr>fw_tasks := fw_tasks ?w @ map node_task (filter (has_type Music) ?ns)\<rparr>)"
    using assms by (intro AddSessionForNode_all list_all_filter) (simp add: speaker_ok_def)
  moreover have "nd_Name ` set (filter (has_type Music) ?ns) = set ids \<inter> speaker_reach s"
    using forward_filter_names [of "sv_local s" ids "sv_members s"] by (auto simp: speaker_reach_def)
  ultimately show ?thesis
    using assms pending_after_tasks [of ?w "filter (has_type Music) ?ns"]
    by (simp add: ForwardToNodes_def speaker_defs advert_ok_def)
qed

lemma serve_remove:
  assumes "speaker_ok h s"
  shows "\<exists>s'. RemoveForwardToNodes ids all s = (Ret (ManagementResponse 200), s') \<and> speaker_ok h s'
    \<and> speaker_reach s' = speaker_reach s
    \<and> speaker_view s' = (speaker_view s)\<lparr>vw_sessions :=
        if all then {} else vw_sessions (speaker_view s) - (set ids \<inter> speaker_reach s)\<rparr>"
proof -
  let ?ns = "filter (forward_filter (sv_local s) ids) (sv_members s)" and ?w = "ap_player (sv_airplay s)"
  obtain p where p: "fw_player ?w = Some p" using assms by (auto simp: speaker_ok_def)
  have "for_each RemoveSessionForNode ?ns ?w = (Ret (), ?w\<lparr>fw_player := Some (p\<lparr>fp_sessions :=
      fold removeSession (map nd_Name (filter (has_type Music) ?ns)) (fp_sessions p)\<rparr>)\<rparr>)"
    using assms p by (intro RemoveSessionForNode_all list_all_filter) (simp_all add: speaker_ok_def)
  moreover have "RemoveAllSessions ?w = (Ret (), ?w\<lparr>fw_player := Some (p\<lparr>fp_sessions := Map.empty\<rparr>)\<rparr>)"
    using p by (simp add: RemoveAllSessions_def removeAll_def)
  moreover have "set (map nd_Name (filter (has_type Music) ?ns)) = set ids \<inter> speaker_reach s"
    using forward_filter_names [of "sv_local s" ids "sv_members s"] by (auto simp: speaker_reach_def)
  ultimately show ?thesis
    using assms p
    by (cases all) (simp_all add: RemoveForwardToNodes_def speaker_defs advert_ok_def dom_remove_all del: fold_map set_map filter_filter set_filter)
qed

lemma serve_queries:
  assumes "speaker_ok h s"
  shows "GetCurrentTrack s = (Ret (TrackReply (vw_track (speaker_view s))), s)"
    and "GetMuted s = (Ret (SpeakerMuteResponse (vw_muted (speaker_view s))), s)"
  using assms by (auto simp: GetCurrentTrack_def GetMuted_def fGetTrack_def fGetIsMuted_def speaker_defs)

lemma serve_speaker_view:
  assumes "speaker_ok h s"
  shows "\<exists>s'. serve_speaker h q s = (Ret (reply_after q (speaker_view s)), s') \<and> speaker_ok h s'
    \<and> speaker_reach s' = speaker_reach s \<and> speaker_view s' = view_after (speaker_reach s) q (speaker_view s)"
  using serve_broadcast [OF assms] serve_rename [OF assms] serve_forward [OF assms] serve_remove [OF assms]
    serve_queries [OF assms] assms
  by (cases q) simp_all

interpretation speaker: speaker_contract "serve_speaker h" "speaker_ok h" speaker_view speaker_reach for h
  by unfold_locales (rule serve_speaker_view)

section \<open>Properties\<close>

text \<open>
  C13. The speaker's service does what its messages say, also over a sequence of requests: on a
  healthy speaker every request is answered, and the name, the advertisement, the sessions and the
  sessions being established change as \<open>view_after\<close> says. In particular a request to forward never
  adds the speaker itself, a node that is not a music node or one it does not know, and a request
  to stop forwarding leaves the sessions that are still being established.
\<close>

theorem speaker_requests_refine_view:
  assumes "speaker_ok h s"
  shows "\<exists>s'. for_each (\<lambda>q. bindP (serve_speaker h q) (\<lambda>_. retP ())) qs s = (Ret (), s')
    \<and> speaker_ok h s' \<and> speaker_reach s' = speaker_reach s
    \<and> speaker_view s' = fold (view_after (speaker_reach s)) qs (speaker_view s)"
  by (rule speaker.serve_all_views [OF assms])

definition sample_speaker :: "string \<Rightarrow> node list \<Rightarrow> speaker_server" where
  "sample_speaker name nodes =
     NewSpeakerServer (NewAirplayServer 5000 name \<lparr>fw_player = Some working_player, fw_tasks = []\<rparr>) name nodes"

lemma sample_speaker_ok: "speaker_ok sample_host (sample_speaker name (map music_node names))"
  by (auto simp: speaker_ok_def sample_speaker_def NewSpeakerServer_def NewAirplayServer_def sample_host_def
      advert_ok_def music_node_def list_all_iff)

lemma music_node_simps [simp]: "has_type Music (music_node name)" "nd_Name (music_node name) = name"
  by (simp_all add: music_node_def has_type_def)

lemma sample_speaker_reach:
  "speaker_reach (sample_speaker name (map music_node names)) = set names - {name}"
  by (force simp: speaker_reach_def sample_speaker_def NewSpeakerServer_def)

theorem speaker_requests_refine_view_witness:
  "vw_advertised (speaker_view (snd (for_each (\<lambda>q. bindP (serve_speaker sample_host q) (\<lambda>_. retP ()))
      [ForwardRequest [''den'', ''hall''], BroadcastRequest True]
      (sample_speaker ''den'' (map music_node [''den'', ''hall''])))))
   \<and> vw_pending (speaker_view (snd (for_each (\<lambda>q. bindP (serve_speaker sample_host q) (\<lambda>_. retP ()))
      [ForwardRequest [''den'', ''hall''], BroadcastRequest True]
      (sample_speaker ''den'' (map music_node [''den'', ''hall'']))))) = {''hall''}"
proof -
  let ?s = "sample_speaker ''den'' (map music_node [''den'', ''hall''])"
  let ?qs = "[ForwardRequest [''den'', ''hall''], BroadcastRequest True]"
  have reach: "speaker_reach ?s = {''hall''}" unfolding sample_speaker_reach by auto
  have idle: "vw_pending (speaker_view ?s) = {}"
    by (simp add: sample_speaker_def NewSpeakerServer_def speaker_view_def pending_targets_def NewAirplayServer_def)
  obtain s' where "for_each (\<lambda>q. bindP (serve_speaker sample_host q) (\<lambda>_. retP ())) ?qs ?s = (Ret (), s')"
    and view: "speaker_view s' = fold (view_after (speaker_reach ?s)) ?qs (speaker_view ?s)"
    using speaker_requests_refine_view [OF sample_speaker_ok, of ?qs] by blast
  moreover have "vw_advertised (speaker_view s') \<and> vw_pending (speaker_view s') = {''hall''}"
    unfolding view using reach idle by simp
  ultimately show ?thesis by (simp only: snd_conv)
qed

end
