(* ===== verification/Store.thy ===== *)
theory Store
  imports Go_Strings
begin

text \<open>
  The replicated configuration store of the management nodes, \<^verbatim>\<open>cmd/mgmt/raft/store.go\<close>.

  The consensus library is a parameter (\<open>raft_lib\<close>): what it answers to its \<open>t\<close>-th call, for every
  \<open>t\<close>, so that leadership may change between any two calls. Applying a command hands committed
  entries to the state machine and reports an error or none; a theorem that needs more says so.
  The requests that change the set of servers are recorded in \<open>ds_requests\<close>.

  A log entry or a snapshot is kept as what decoding its JSON leaves in the variable decoded into:
  \<open>None\<close> for bytes that are not JSON of the right shape. Encoding these types cannot fail.
\<close>

section \<open>Data\<close>

record speaker_config =
  sc_ID :: string
  sc_DisplayName :: string

record zone_config =
  zc_ID :: string
  zc_DisplayName :: string
  zc_Leader :: string
  zc_Speakers :: "string list"

record entry =
  ent_Speaker :: speaker_config
  ent_Zone :: zone_config

record command =
  cm_Op :: string
  cm_Key :: string
  cm_Value :: entry

definition no_speaker_config :: speaker_config where
  "no_speaker_config = \<lparr>sc_ID = [], sc_DisplayName = []\<rparr>"

definition no_zone_config :: zone_config where
  "no_zone_config = \<lparr>zc_ID = [], zc_DisplayName = [], zc_Leader = [], zc_Speakers = []\<rparr>"

definition no_entry :: entry where
  "no_entry = \<lparr>ent_Speaker = no_speaker_config, ent_Zone = no_zone_config\<rparr>"

definition no_command :: command where
  "no_command = \<lparr>cm_Op = [], cm_Key = [], cm_Value = no_entry\<rparr>"

lemmas zero_values = no_speaker_config_def no_zone_config_def no_entry_def no_command_def

type_synonym config_map = "string \<rightharpoonup> entry"

record raft_server =
  sr_ID :: string
  sr_Address :: string

datatype raft_request = BootstrapCluster "raft_server list" | RemoveServer string | AddVoter string string

record store =
  ds_raftPort :: int
  ds_raftDir :: string
  ds_localID :: string
  ds_m :: config_map
  ds_raft :: bool
  ds_now :: nat
  ds_requests :: "raft_request list"

text \<open>The library, by the number of the call.\<close>

record raft_lib =
  ra_Leading :: "nat \<Rightarrow> bool"
  ra_Leader :: "nat \<Rightarrow> string"
  ra_Apply :: "nat \<Rightarrow> command \<Rightarrow> unit res \<times> command option list"
  ra_Configuration :: "nat \<Rightarrow> raft_server list res"
  ra_Change :: "nat \<Rightarrow> raft_request \<Rightarrow> unit res"

text \<open>What opening the database meets: name resolution, transport, files.\<close>

record raft_setup =
  rx_Resolve :: "string \<Rightarrow> string res"
  rx_Transport :: "string \<Rightarrow> string \<Rightarrow> string res"
  rx_Snapshots :: "string \<Rightarrow> nat \<Rightarrow> unit res"
  rx_Bolt :: "string \<Rightarrow> string \<Rightarrow> unit res"
  rx_NewRaft :: "string \<Rightarrow> unit res"

section \<open>The state machine\<close>

definition applySet :: "string \<Rightarrow> entry \<Rightarrow> config_map \<Rightarrow> config_map" where
  "applySet key val m = m(key \<mapsto> val)"

definition applyDelete :: "string \<Rightarrow> config_map \<Rightarrow> config_map" where
  "applyDelete key m = m(key := None)"

definition Unmarshal_command :: "command option \<Rightarrow> command" where
  "Unmarshal_command data = (case data of None \<Rightarrow> no_command | Some c \<Rightarrow> c)"

text \<open>An entry that does not decode is reported and then treated as the zero command.\<close>

definition Apply :: "command option \<Rightarrow> config_map \<Rightarrow> config_map" where
  "Apply l m =
     (let c = Unmarshal_command l in
      if cm_Op c = ''set'' then applySet (cm_Key c) (cm_Value c) m
      else if cm_Op c = ''delete'' then applyDelete (cm_Key c) m
      else m)"

section \<open>Calling the library\<close>

definition raft_call :: "(nat \<Rightarrow> 'a) \<Rightarrow> (store, 'a) proc" where
  "raft_call f ds =
     (if ds_raft ds then (Ret (f (ds_now ds)), ds\<lparr>ds_now := ds_now ds + 1\<rparr>) else (Panic nil_deref, ds))"

definition commit :: "command option list \<Rightarrow> (store, unit) proc" where
  "commit logs ds = (Ret (), ds\<lparr>ds_m := fold Apply logs (ds_m ds)\<rparr>)"

definition raft_Apply :: "raft_lib \<Rightarrow> command \<Rightarrow> (store, unit) proc" where
  "raft_Apply rf c =
     bindP (raft_call (\<lambda>t. ra_Apply rf t c)) (\<lambda>(err, logs).
     bindP (commit logs) (\<lambda>_. liftR err))"

definition raft_Change :: "raft_lib \<Rightarrow> raft_request \<Rightarrow> (store, unit) proc" where
  "raft_Change rf q =
     bindP (\<lambda>ds. (Ret (), ds\<lparr>ds_requests := ds_requests ds @ [q]\<rparr>)) (\<lambda>_.
     bindP (raft_call (\<lambda>t. ra_Change rf t q)) liftR)"

section \<open>The store\<close>

definition NewDistributedStore :: "string \<Rightarrow> int \<Rightarrow> string \<Rightarrow> store" where
  "NewDistributedStore localID raftPort raftDir =
     \<lparr>ds_raftPort = raftPort, ds_raftDir = raftDir, ds_localID = localID, ds_m = Map.empty,
      ds_raft = False, ds_now = 0, ds_requests = []\<rparr>"

definition retainSnapshotCount :: nat where "retainSnapshotCount = 2"

text \<open>An error is passed on with a prefix that says where it comes from.\<close>

fun in_context :: "string \<Rightarrow> 'a res \<Rightarrow> 'a res" where
  "in_context what (Err e) = Err (what @ e)"
| "in_context what r = r"

text \<open>The result is the bootstrap request, if one is made; its own outcome is ignored.\<close>

definition initRaft :: "raft_setup \<Rightarrow> string \<Rightarrow> int \<Rightarrow> string \<Rightarrow> bool \<Rightarrow> raft_request list res" where
  "initRaft rx localID raftPort raftDir bootstrap =
     (let raftAddr = '':'' @ Itoa raftPort in
      res_bind (rx_Resolve rx raftAddr) (\<lambda>addr.
      res_bind (rx_Transport rx raftAddr addr) (\<lambda>localAddr.
      res_bind (in_context ''file snapshot store: '' (rx_Snapshots rx raftDir retainSnapshotCount)) (\<lambda>_.
      res_bind (in_context ''new bolt store: '' (rx_Bolt rx raftDir ''raft.db'')) (\<lambda>_.
      res_bind (in_context ''new raft: '' (rx_NewRaft rx localID)) (\<lambda>_.
      Ret (if bootstrap then [BootstrapCluster [\<lparr>sr_ID = localID, sr_Address = localAddr\<rparr>]] else [])))))))"

definition ds_Open :: "raft_setup \<Rightarrow> bool \<Rightarrow> (store, unit) proc" where
  "ds_Open rx bootstrap ds =
     bindP (liftR (initRaft rx (ds_localID ds) (ds_raftPort ds) (ds_raftDir ds) bootstrap)) (\<lambda>reqs ds'.
       (Ret (), ds'\<lparr>ds_raft := True, ds_requests := ds_requests ds' @ reqs\<rparr>)) ds"

definition AmLeader :: "raft_lib \<Rightarrow> (store, bool) proc" where
  "AmLeader rf = raft_call (ra_Leading rf)"

definition GetLeader :: "raft_lib \<Rightarrow> (store, string) proc" where
  "GetLeader rf = raft_call (ra_Leader rf)"

definition GetSpeakerConfig :: "string \<Rightarrow> (store, speaker_config) proc" where
  "GetSpeakerConfig ID ds =
     (Ret (ent_Speaker (case ds_m ds ID of None \<Rightarrow> no_entry | Some e \<Rightarrow> e)), ds)"

definition SaveSpeakerConfig :: "raft_lib \<Rightarrow> speaker_config \<Rightarrow> (store, unit) proc" where
  "SaveSpeakerConfig rf config =
     bindP (AmLeader rf) (\<lambda>leading.
       if \<not> leading then errP ''not leader''
       else raft_Apply rf \<lparr>cm_Op = ''set'', cm_Key = sc_ID config, cm_Value = no_entry\<lparr>ent_Speaker := config\<rparr>\<rparr>)"

definition SaveZoneConfig :: "raft_lib \<Rightarrow> zone_config \<Rightarrow> (store, unit) proc" where
  "SaveZoneConfig rf config =
     bindP (AmLeader rf) (\<lambda>leading.
       if \<not> leading then errP ''not leader''
       else raft_Apply rf \<lparr>cm_Op = ''set'', cm_Key = zc_ID config, cm_Value = no_entry\<lparr>ent_Zone := config\<rparr>\<rparr>)"

definition DeleteZoneConfig :: "raft_lib \<Rightarrow> string \<Rightarrow> (store, unit) proc" where
  "DeleteZoneConfig rf zoneID =
     bindP (AmLeader rf) (\<lambda>leading.
       if \<not> leading then errP ''not leader''
       else raft_Apply rf \<lparr>cm_Op = ''delete'', cm_Key = zoneID, cm_Value = no_entry\<rparr>)"

text \<open>\<open>ks\<close> is the order in which the map is visited; \<open>zone_configs\<close> is the loop.\<close>

primrec zone_configs :: "config_map \<Rightarrow> string list \<Rightarrow> zone_config list \<Rightarrow> zone_config list" where
  "zone_configs m [] configs = configs"
| "zone_configs m (k # ks) configs =
     (let v = the (m k) in
      zone_configs m ks (if zc_ID (ent_Zone v) \<noteq> [] then configs @ [ent_Zone v] else configs))"

definition GetZoneConfigs :: "(config_map \<Rightarrow> string list) \<Rightarrow> (store, zone_config list) proc" where
  "GetZoneConfigs order ds = (Ret (zone_configs (ds_m ds) (order (ds_m ds)) []), ds)"

text \<open>
  \<^verbatim>\<open>Join\<close>: the loop over the servers stops at the one that is the joining node already
  (\<open>True\<close>); a server that shares only its ID or only its address is removed.
\<close>

primrec join_servers :: "raft_lib \<Rightarrow> string \<Rightarrow> string \<Rightarrow> raft_server list \<Rightarrow> (store, bool) proc" where
  "join_servers rf nodeID nodeAddress [] = retP False"
| "join_servers rf nodeID nodeAddress (srv # srvs) =
     (if sr_ID srv = nodeID \<or> sr_Address srv = nodeAddress then
        (if sr_Address srv = nodeAddress \<and> sr_ID srv = nodeID then retP True
         else
           bindP (\<lambda>ds. case raft_Change rf (RemoveServer (sr_ID srv)) ds of (r, ds') \<Rightarrow>
               (in_context (''error removing existing node '' @ nodeID @ '' at '' @ nodeAddress @ '': '') r, ds'))
             (\<lambda>_. join_servers rf nodeID nodeAddress srvs))
      else join_servers rf nodeID nodeAddress srvs)"

definition ds_Join :: "raft_lib \<Rightarrow> string \<Rightarrow> string \<Rightarrow> (store, unit) proc" where
  "ds_Join rf nodeID nodeAddress =
     bindP (AmLeader rf) (\<lambda>leading.
       if \<not> leading then retP ()
       else
         bindP (bindP (raft_call (ra_Configuration rf)) liftR) (\<lambda>servers.
         bindP (join_servers rf nodeID nodeAddress servers) (\<lambda>already.
           if already then retP () else raft_Change rf (AddVoter nodeID nodeAddress))))"

section \<open>Snapshots\<close>

definition Snapshot :: "string list \<Rightarrow> store \<Rightarrow> config_map" where
  "Snapshot ks ds = copy_keys (ds_m ds) ks Map.empty"

definition Restore :: "config_map option \<Rightarrow> (store, unit) proc" where
  "Restore rc ds = (case rc of None \<Rightarrow> (Err ''json'', ds) | Some o' \<Rightarrow> (Ret (), ds\<lparr>ds_m := o'\<rparr>))"

text \<open>The sink a snapshot is written to: the outcomes of its operations, and what has become of it.\<close>

datatype sink_status = Open_Sink | Closed_Sink | Cancelled_Sink

record sink =
  si_Write :: "unit res"
  si_Close :: "unit res"
  si_Cancel :: "unit res"
  si_data :: "config_map option"
  si_status :: sink_status

definition sink_Write :: "config_map \<Rightarrow> (sink, unit) proc" where
  "sink_Write b si = (si_Write si, if is_ret (si_Write si) then si\<lparr>si_data := Some b\<rparr> else si)"

definition sink_Close :: "(sink, unit) proc" where
  "sink_Close si = (si_Close si, if is_ret (si_Close si) then si\<lparr>si_status := Closed_Sink\<rparr> else si)"

definition sink_Cancel :: "(sink, unit) proc" where
  "sink_Cancel si = (si_Cancel si, if is_ret (si_Cancel si) then si\<lparr>si_status := Cancelled_Sink\<rparr> else si)"

definition Persist :: "config_map \<Rightarrow> (sink, unit) proc" where
  "Persist snapshot si =
     (case seqP (sink_Write snapshot) sink_Close si of
        (Err e, si') \<Rightarrow> sink_Cancel si'
      | (r, si') \<Rightarrow> (r, si'))"

section \<open>Replicated maps\<close>

text \<open>
  A state machine whose commands write at most one key: its state after a log is decided, key by
  key, by the last command that wrote the key.
\<close>

locale replicated_map =
  fixes step :: "'c \<Rightarrow> 'm \<Rightarrow> 'm"
    and lookup :: "'m \<Rightarrow> 'k \<Rightarrow> 'v option"
    and writes :: "'c \<Rightarrow> ('k \<times> 'v option) option"
  assumes lookup_step: "lookup (step c m) k =
    (case writes c of None \<Rightarrow> lookup m k | Some (k', v) \<Rightarrow> if k' = k then v else lookup m k)"
begin

definition writes_key :: "'k \<Rightarrow> 'c \<Rightarrow> bool" where
  "writes_key k c \<longleftrightarrow> (\<exists>v. writes c = Some (k, v))"

lemma lookup_other: "\<not> writes_key k c \<Longrightarrow> lookup (step c m) k = lookup m k"
  by (auto simp: lookup_step writes_key_def split: option.splits)

lemma lookup_replay_other: "list_all (\<lambda>c. \<not> writes_key k c) cs \<Longrightarrow> lookup (fold step cs m) k = lookup m k"
  by (induction cs arbitrary: m) (auto simp: lookup_other)

lemma lookup_last:
  "writes c = Some (k, v) \<Longrightarrow> list_all (\<lambda>c. \<not> writes_key k c) cs' \<Longrightarrow> lookup (fold step (cs @ c # cs') m) k = v"
  by (simp add: lookup_replay_other lookup_step)

text \<open>Replicas that differ agree on a key as soon as the log has written it.\<close>

lemma replay_agrees:
  "list_ex (writes_key k) cs \<Longrightarrow> lookup (fold step cs m) k = lookup (fold step cs m') k"
proof (induction cs arbitrary: m m')
  case (Cons c cs)
  show ?case
  proof (cases "list_ex (writes_key k) cs")
    case True
    then show ?thesis using Cons.IH by simp
  next
    case False
    then have "list_all (\<lambda>c. \<not> writes_key k c) cs" by (simp add: list_all_iff list_ex_iff)
    moreover from False Cons.prems have "writes_key k c" by simp
    then obtain v where "writes c = Some (k, v)" by (auto simp: writes_key_def)
    ultimately show ?thesis by (simp add: lookup_replay_other lookup_step)
  qed
qed simp

end

definition entry_writes :: "command option \<Rightarrow> (string \<times> entry option) option" where
  "entry_writes l =
     (let c = Unmarshal_command l in
      if cm_Op c = ''set'' then Some (cm_Key c, Some (cm_Value c))
      else if cm_Op c = ''delete'' then Some (cm_Key c, None) else None)"

interpretation config: replicated_map Apply "\<lambda>m. m" entry_writes
  by unfold_locales (simp add: Apply_def applySet_def applyDelete_def entry_writes_def Let_def)

section \<open>The operations\<close>

lemma zone_configs_eq:
  "zone_configs m ks configs = configs @ filter (\<lambda>z. zc_ID z \<noteq> []) (map (\<lambda>k. ent_Zone (the (m k))) ks)"
  by (induction ks arbitrary: configs) (auto simp: Let_def)

lemma set_zone_configs:
  "range_order ks m \<Longrightarrow>
   set (zone_configs m ks []) = {ent_Zone e |e. e \<in> ran m \<and> zc_ID (ent_Zone e) \<noteq> []}"
  by (auto simp: zone_configs_eq range_order_def ran_def) (metis domI image_eqI option.sel)

lemmas save_defs = SaveSpeakerConfig_def SaveZoneConfig_def DeleteZoneConfig_def AmLeader_def raft_Apply_def
  raft_call_def commit_def liftR_def bindP_def

text \<open>What the library promises about a command it reports as applied.\<close>

definition applies_command :: "raft_lib \<Rightarrow> bool" where
  "applies_command rf \<longleftrightarrow>
     (\<forall>t c logs. ra_Apply rf t c = (Ret (), logs) \<longrightarrow> logs \<noteq> [] \<and> last logs = Some c)"

lemma applies_commandD:
  "applies_command rf \<Longrightarrow> ra_Apply rf t c = (Ret (), logs) \<Longrightarrow> \<exists>ls. logs = ls @ [Some c]"
  by (metis append_butlast_last_id applies_command_def)

lemma raft_Apply_Ret:
  assumes "raft_Apply rf c ds = (Ret (), ds')" and "applies_command rf"
  shows "\<exists>ls. ds_m ds' = fold Apply (ls @ [Some c]) (ds_m ds)"
proof -
  obtain logs where "ra_Apply rf (ds_now ds) c = (Ret (), logs)" "ds_m ds' = fold Apply logs (ds_m ds)"
    using assms(1) by (auto simp: raft_Apply_def raft_call_def commit_def liftR_def bindP_def
      split: if_splits prod.splits res.splits)
  with applies_commandD [OF assms(2)] show ?thesis by blast
qed

text \<open>The removals that joining asks for.\<close>

definition conflicts :: "string \<Rightarrow> string \<Rightarrow> raft_server \<Rightarrow> bool" where
  "conflicts nodeID nodeAddress srv \<longleftrightarrow> sr_ID srv = nodeID \<or> sr_Address srv = nodeAddress"

definition raft_member :: "string \<Rightarrow> string \<Rightarrow> raft_server" where
  "raft_member nodeID nodeAddress = \<lparr>sr_ID = nodeID, sr_Address = nodeAddress\<rparr>"

lemma raft_member_iff: "srv = raft_member i a \<longleftrightarrow> sr_ID srv = i \<and> sr_Address srv = a"
  by (cases srv) (auto simp: raft_member_def)

lemma raft_Change_Ret:
  assumes "ds_raft ds" and "\<And>t. ra_Change rf t q = Ret ()"
  shows "raft_Change rf q ds = (Ret (), ds\<lparr>ds_requests := ds_requests ds @ [q], ds_now := ds_now ds + 1\<rparr>)"
  using assms by (simp add: raft_Change_def raft_call_def liftR_def bindP_def)

lemma join_servers_new:
  assumes "raft_member i a \<notin> set srvs" and "ds_raft ds" and "\<And>t q. ra_Change rf t q = Ret ()"
  shows "\<exists>n. join_servers rf i a srvs ds = (Ret False, ds\<lparr>ds_now := n,
    ds_requests := ds_requests ds @ map (\<lambda>s. RemoveServer (sr_ID s)) (filter (conflicts i a) srvs)\<rparr>)"
  using assms(1,2)
proof (induction srvs arbitrary: ds)
  case Nil
  then show ?case by (cases ds) auto
next
  case (Cons srv srvs)
  then have no: "raft_member i a \<notin> set srvs" "\<not> (sr_Address srv = a \<and> sr_ID srv = i)" using raft_member_iff [of srv i a] by auto
  show ?case
  proof (cases "conflicts i a srv")
    case True
    let ?ds = "ds\<lparr>ds_requests := ds_requests ds @ [RemoveServer (sr_ID srv)], ds_now := ds_now ds + 1\<rparr>"
    obtain n where "join_servers rf i a srvs ?ds = (Ret False, ?ds\<lparr>ds_now := n, ds_requests :=
        ds_requests ?ds @ map (\<lambda>s. RemoveServer (sr_ID s)) (filter (conflicts i a) srvs)\<rparr>)"
      using Cons.IH [OF no(1), of ?ds] Cons.prems(2) by auto
    moreover have "join_servers rf i a (srv # srvs) ds = join_servers rf i a srvs ?ds"
      using raft_Change_Ret [of ds rf "RemoveServer (sr_ID srv)"] Cons.prems(2) assms(3) True no(2)
      by (auto simp: conflicts_def bindP_def)
    ultimately show ?thesis using True by auto
  next
    case False
    with Cons.IH [OF no(1) Cons.prems(2)] show ?thesis by (simp add: conflicts_def)
  qed
qed

lemma join_servers_member:
  assumes "raft_member i a \<in> set srvs" and "\<And>s. s \<in> set srvs \<Longrightarrow> conflicts i a s \<Longrightarrow> s = raft_member i a"
  shows "join_servers rf i a srvs ds = (Ret True, ds)"
  using assms
proof (induction srvs)
  case (Cons srv srvs)
  show ?case
  proof (cases "srv = raft_member i a")
    case False
    then have "\<not> conflicts i a srv" using Cons.prems(2) [of srv] by auto
    moreover have "raft_member i a \<in> set srvs" using Cons.prems(1) False by simp
    ultimately show ?thesis using Cons.IH Cons.prems(2) by (simp add: conflicts_def)
  qed (simp add: raft_member_def)
qed simp

section \<open>Properties\<close>

text \<open>
  Replicas converge: a node that is restored from a snapshot, taken of a replica at any point of
  the log, and then applies the rest of the log holds exactly what a node holds that has applied the
  whole log, entries that do not decode included; whatever it held before the restore is gone.
\<close>

theorem snapshot_then_rest_equals_log:
  assumes "ds_m leader = fold Apply prefix Map.empty" and "range_order ks (ds_m leader)"
    and "si_Write si = Ret ()" and "si_Close si = Ret ()"
  shows "\<exists>si' follower'. Persist (Snapshot ks leader) si = (Ret (), si') \<and> si_status si' = Closed_Sink
    \<and> Restore (si_data si') follower = (Ret (), follower')
    \<and> ds_m (snd (commit rest follower')) = fold Apply (prefix @ rest) Map.empty"
proof -
  have "Snapshot ks leader = ds_m leader" using assms(2) by (simp add: Snapshot_def go_simps)
  then have "Persist (Snapshot ks leader) si = (Ret (), si\<lparr>si_data := Some (ds_m leader), si_status := Closed_Sink\<rparr>)"
    using assms(3,4) by (simp add: Persist_def seqP_def bindP_def sink_Write_def sink_Close_def)
  then show ?thesis using assms(1) by (simp add: Restore_def commit_def)
qed

definition sample_zone :: "string \<Rightarrow> string list \<Rightarrow> zone_config" where
  "sample_zone ID speakers =
     \<lparr>zc_ID = ID, zc_DisplayName = ''Upstairs'', zc_Leader = (case speakers of [] \<Rightarrow> [] | s # _ \<Rightarrow> s),
      zc_Speakers = speakers\<rparr>"

definition set_zone :: "zone_config \<Rightarrow> command" where
  "set_zone z = \<lparr>cm_Op = ''set'', cm_Key = zc_ID z, cm_Value = no_entry\<lparr>ent_Zone := z\<rparr>\<rparr>"

theorem snapshot_then_rest_equals_log_witness:
  "\<exists>si' follower'. Persist (Snapshot [''17''] ((NewDistributedStore ''m1'' 4000 ''data'')\<lparr>ds_m :=
        fold Apply [Some (set_zone (sample_zone ''17'' [''den''])), None] Map.empty\<rparr>))
      \<lparr>si_Write = Ret (), si_Close = Ret (), si_Cancel = Ret (), si_data = None, si_status = Open_Sink\<rparr> = (Ret (), si')
    \<and> Restore (si_data si') (NewDistributedStore ''m2'' 4000 ''data'') = (Ret (), follower')
    \<and> ds_m (snd (commit [Some (set_zone (sample_zone ''18'' []))] follower')) =
      fold Apply [Some (set_zone (sample_zone ''17'' [''den''])), None, Some (set_zone (sample_zone ''18'' []))] Map.empty"
proof -
  let ?prefix = "[Some (set_zone (sample_zone ''17'' [''den''])), None]"
  let ?leader = "(NewDistributedStore ''m1'' 4000 ''data'')\<lparr>ds_m := fold Apply ?prefix Map.empty\<rparr>"
  have "range_order [''17''] (ds_m ?leader)"
    by (simp add: range_order_def Apply_def Unmarshal_command_def set_zone_def sample_zone_def applySet_def no_command_def)
  from snapshot_then_rest_equals_log [of ?leader ?prefix, OF _ this,
      of "\<lparr>si_Write = Ret (), si_Close = Ret (), si_Cancel = Ret (), si_data = None, si_status = Open_Sink\<rparr>"
         "NewDistributedStore ''m2'' 4000 ''data''" "[Some (set_zone (sample_zone ''18'' []))]"]
  show ?thesis by auto
qed

text \<open>
  What is saved is what is read: when saving a zone succeeds, the zone is among the zones that
  are read back, with the name, leader and speakers that were saved, and its entry is the only one
  under its key; when the store is not the leader nothing is changed and the error says so. Zones
  and speakers share their keys, so saving a zone under the ID of a speaker forgets the speaker's
  display name.
\<close>

theorem saved_zone_is_read:
  assumes "ds_raft ds" and "applies_command rf"
  shows "(\<forall>ds'. SaveZoneConfig rf z ds = (Ret (), ds') \<and> zc_ID z \<noteq> []
        \<and> range_order (order (ds_m ds')) (ds_m ds') \<longrightarrow>
      (\<exists>zs. GetZoneConfigs order ds' = (Ret zs, ds') \<and> z \<in> set zs)
      \<and> GetSpeakerConfig (zc_ID z) ds' = (Ret no_speaker_config, ds'))
    \<and> (\<not> ra_Leading rf (ds_now ds) \<longrightarrow>
      SaveZoneConfig rf z ds = (Err ''not leader'', ds\<lparr>ds_now := ds_now ds + 1\<rparr>))"
proof -
  have "z \<in> set (zone_configs (ds_m ds') (order (ds_m ds')) [])
      \<and> GetSpeakerConfig (zc_ID z) ds' = (Ret no_speaker_config, ds')"
    if saved: "SaveZoneConfig rf z ds = (Ret (), ds')" and "zc_ID z \<noteq> []" 
      and order: "range_order (order (ds_m ds')) (ds_m ds')" for ds'
  proof -
    have "\<exists>ds0. raft_Apply rf (set_zone z) ds0 = (Ret (), ds')"
      using saved assms(1) by (auto simp: SaveZoneConfig_def AmLeader_def raft_call_def bindP_def set_zone_def split: if_splits)
    then obtain ls m where ls: "ds_m ds' = fold Apply (ls @ [Some (set_zone z)]) m"
      using raft_Apply_Ret [OF _ assms(2)] by blast
    have "ds_m ds' (zc_ID z) = Some (no_entry\<lparr>ent_Zone := z\<rparr>)"
      unfolding ls by (rule config.lookup_last) (simp_all add: entry_writes_def Unmarshal_command_def set_zone_def)
    then show ?thesis
      using set_zone_configs [OF order] \<open>zc_ID z \<noteq> []\<close>
      by (force simp: ran_def GetSpeakerConfig_def no_entry_def)
  qed
  moreover have "SaveZoneConfig rf z ds = (Err ''not leader'', ds\<lparr>ds_now := ds_now ds + 1\<rparr>)"
    if "\<not> ra_Leading rf (ds_now ds)"
    using assms(1) that by (simp add: save_defs)
  ultimately show ?thesis by (simp add: GetZoneConfigs_def)
qed

definition sample_raft :: raft_lib where
  "sample_raft =
     \<lparr>ra_Leading = (\<lambda>t. True), ra_Leader = (\<lambda>t. ''10.0.0.2:4000''), ra_Apply = (\<lambda>t c. (Ret (), [Some c])),
      ra_Configuration = (\<lambda>t. Ret [\<lparr>sr_ID = ''m1'', sr_Address = ''10.0.0.2:4000''\<rparr>,
        \<lparr>sr_ID = ''m2'', sr_Address = ''10.0.0.3:4000''\<rparr>]),
      ra_Change = (\<lambda>t q. Ret ())\<rparr>"

lemma applies_command_sample: "applies_command sample_raft"
  by (auto simp: applies_command_def sample_raft_def)

theorem saved_zone_is_read_witness:
  "\<exists>ds' zs. SaveZoneConfig sample_raft (sample_zone ''17'' [''den''])
      ((NewDistributedStore ''m1'' 4000 ''data'')\<lparr>ds_raft := True\<rparr>) = (Ret (), ds')
    \<and> GetZoneConfigs (\<lambda>_. [''17'']) ds' = (Ret zs, ds') \<and> sample_zone ''17'' [''den''] \<in> set zs"
proof -
  let ?z = "sample_zone ''17'' [''den'']" and ?ds = "(NewDistributedStore ''m1'' 4000 ''data'')\<lparr>ds_raft := True\<rparr>"
  have saved: "SaveZoneConfig sample_raft ?z ?ds =
      (Ret (), ?ds\<lparr>ds_now := 2, ds_m := [''17'' \<mapsto> no_entry\<lparr>ent_Zone := ?z\<rparr>]\<rparr>)"
    by (simp add: save_defs sample_raft_def Apply_def Unmarshal_command_def applySet_def NewDistributedStore_def
        sample_zone_def)
  have "ds_raft ?ds" "zc_ID ?z \<noteq> []" by (simp_all add: sample_zone_def)
  with saved saved_zone_is_read [of ?ds sample_raft ?z "\<lambda>_. [''17'']", OF _ applies_command_sample]
  show ?thesis by (auto simp: range_order_def)
qed

text \<open>
  C28. \<^verbatim>\<open>Join\<close> on the leader makes the node a member under its address: when it is a member already
  (and the IDs and addresses of the servers are distinct) nothing is requested; otherwise exactly
  the servers that share its ID or its address are removed, in order, before it is added. On a node
  that is not the leader nothing is requested.
\<close>

theorem join_requests:
  assumes "ds_raft ds" and "\<And>t. ra_Configuration rf t = Ret servers" and "\<And>t q. ra_Change rf t q = Ret ()"
    and "distinct (map sr_ID servers)" and "distinct (map sr_Address servers)"
  shows "\<exists>n. ds_Join rf nodeID nodeAddress ds = (Ret (), ds\<lparr>ds_now := n, ds_requests := ds_requests ds @
    (if \<not> ra_Leading rf (ds_now ds) \<or> raft_member nodeID nodeAddress \<in> set servers then []
     else map (\<lambda>s. RemoveServer (sr_ID s)) (filter (conflicts nodeID nodeAddress) servers)
       @ [AddVoter nodeID nodeAddress])\<rparr>)"
proof -
  let ?d = "ds\<lparr>ds_now := ds_now ds + 1 + 1\<rparr>" and ?m = "raft_member nodeID nodeAddress"
  have lead: "ds_Join rf nodeID nodeAddress ds = bindP (join_servers rf nodeID nodeAddress servers)
      (\<lambda>already. if already then retP () else raft_Change rf (AddVoter nodeID nodeAddress)) ?d"
    if "ra_Leading rf (ds_now ds)"
    using assms(1,2) that by (simp add: ds_Join_def AmLeader_def raft_call_def bindP_def liftR_def)
  have idle: "\<exists>n. ds\<lparr>ds_now := k\<rparr> = ds\<lparr>ds_now := n, ds_requests := ds_requests ds @ []\<rparr>" for k
    by (cases ds) auto
  consider "\<not> ra_Leading rf (ds_now ds)" | "ra_Leading rf (ds_now ds)" "?m \<in> set servers"
    | "ra_Leading rf (ds_now ds)" "?m \<notin> set servers" by blast
  then show ?thesis
  proof cases
    case 1
    with assms(1) idle show ?thesis by (simp add: ds_Join_def AmLeader_def raft_call_def bindP_def)
  next
    case 2
    have "s = ?m" if "s \<in> set servers" "conflicts nodeID nodeAddress s" for s
      using that 2(2) assms(4,5) by (auto simp: conflicts_def raft_member_def distinct_map inj_on_def)
    with 2 idle show ?thesis by (simp add: lead join_servers_member bindP_def)
  next
    case 3
    then obtain n where "join_servers rf nodeID nodeAddress servers ?d = (Ret False, ?d\<lparr>ds_now := n, ds_requests :=
        ds_requests ?d @ map (\<lambda>s. RemoveServer (sr_ID s)) (filter (conflicts nodeID nodeAddress) servers)\<rparr>)"
      using join_servers_new [of nodeID nodeAddress servers ?d rf] assms(1,3) by auto
    with 3 assms(1,3) show ?thesis by (simp add: lead bindP_def raft_Change_Ret) (cases ds, auto)
  qed
qed

theorem join_requests_witness:
  "ds_requests (snd (ds_Join sample_raft ''m2'' ''10.0.0.9:4000''
     ((NewDistributedStore ''m1'' 4000 ''data'')\<lparr>ds_raft := True\<rparr>))) =
   [RemoveServer ''m2'', AddVoter ''m2'' ''10.0.0.9:4000'']"
proof -
  let ?ds = "(NewDistributedStore ''m1'' 4000 ''data'')\<lparr>ds_raft := True\<rparr>"
  let ?srvs = "[\<lparr>sr_ID = ''m1'', sr_Address = ''10.0.0.2:4000''\<rparr>, \<lparr>sr_ID = ''m2'', sr_Address = ''10.0.0.3:4000''\<rparr>]"
  have "\<exists>n. ds_Join sample_raft ''m2'' ''10.0.0.9:4000'' ?ds = (Ret (), ?ds\<lparr>ds_now := n, ds_requests := ds_requests ?ds @
    (if \<not> ra_Leading sample_raft (ds_now ?ds) \<or> raft_member ''m2'' ''10.0.0.9:4000'' \<in> set ?srvs then []
     else map (\<lambda>s. RemoveServer (sr_ID s)) (filter (conflicts ''m2'' ''10.0.0.9:4000'') ?srvs)
       @ [AddVoter ''m2'' ''10.0.0.9:4000''])\<rparr>)"
    by (rule join_requests) (simp_all add: sample_raft_def)
  then show ?thesis
    by (auto simp: sample_raft_def NewDistributedStore_def raft_member_def conflicts_def)
qed

text \<open>
  A snapshot that could not be written is reported as written: when writing or closing fails and
  the sink can be cancelled, \<^verbatim>\<open>Persist\<close> returns no error although the sink was cancelled, because it
  returns the outcome of the cancellation in place of the error.
\<close>

theorem failed_snapshot_is_reported_as_written:
  assumes "si_Write si = Err e \<or> si_Write si = Ret () \<and> si_Close si = Err e" and "si_Cancel si = Ret ()"
  shows "\<exists>si'. Persist m si = (Ret (), si') \<and> si_status si' = Cancelled_Sink"
  using assms by (auto simp: Persist_def seqP_def bindP_def sink_Write_def sink_Close_def sink_Cancel_def)

theorem failed_snapshot_is_reported_as_written_witness:
  "\<exists>si'. Persist Map.empty \<lparr>si_Write = Err ''disk full'', si_Close = Ret (), si_Cancel = Ret (), si_data = None,
     si_status = Open_Sink\<rparr> = (Ret (), si') \<and> si_status si' = Cancelled_Sink"
  by (rule failed_snapshot_is_reported_as_written [of _ "''disk full''"]) simp_all

end
