(* ===== verification/Mgmt_API.thy ===== *)
theory Mgmt_API
  imports Player
begin

text \<open>
  The management API: the service interface of \<^verbatim>\<open>cmd/mgmt/service/service.go\<close> and the gRPC server
  of \<^verbatim>\<open>cmd/mgmt/api/handler.go\<close>, which answers every call from a service behind the interface.

  The interface value is a record of its methods over the state \<open>'s\<close> behind it (\<open>mgmt_service\<close>);
  calls and answers are the messages of \<^verbatim>\<open>cmd/mgmt/api/management.proto\<close>. Several calls take the
  same message (\<open>zone_request\<close>); a field that the caller does not set is empty. The Go types
  \<^verbatim>\<open>service.Track\<close> and \<^verbatim>\<open>api.Track\<close> are the record \<open>track\<close> of the players.
\<close>

section \<open>The service interface\<close>

record speaker_info =
  si_ID :: string
  si_DisplayName :: string

record zone_info =
  zi_ID :: string
  zi_DisplayName :: string
  zi_Speakers :: "speaker_info list"

record 's mgmt_service =
  ms_GetSpeakers :: "('s, speaker_info list) proc"
  ms_SetDisplayName :: "string \<Rightarrow> string \<Rightarrow> bool \<Rightarrow> ('s, unit) proc"
  ms_CreateZone :: "string \<Rightarrow> string list \<Rightarrow> ('s, string) proc"
  ms_AddSpeakersToZone :: "string \<Rightarrow> string list \<Rightarrow> ('s, unit) proc"
  ms_RemoveSpeakersFromZone :: "string \<Rightarrow> string list \<Rightarrow> ('s, unit) proc"
  ms_DeleteZone :: "string \<Rightarrow> ('s, unit) proc"
  ms_ChangeZoneName :: "string \<Rightarrow> string \<Rightarrow> ('s, unit) proc"
  ms_GetZones :: "('s, zone_info list) proc"
  ms_GetTrackForZone :: "string \<Rightarrow> ('s, track) proc"
  ms_GetTrackForSpeaker :: "string \<Rightarrow> ('s, track) proc"
  ms_SetMuteForSpeaker :: "string \<Rightarrow> bool \<Rightarrow> ('s, unit) proc"
  ms_GetIsMutedForSpeaker :: "string \<Rightarrow> ('s, bool) proc"

section \<open>Messages\<close>

record zone_request =
  zq_ZoneId :: string
  zq_DisplayName :: string
  zq_SpeakerIds :: "string list"

datatype mgmt_call =
    GetSpeakersCall
  | SetDisplayNameCall string string bool
  | CreateZoneCall zone_request
  | GetZonesCall
  | AddSpeakersCall zone_request
  | RemoveSpeakersCall zone_request
  | DeleteZoneCall zone_request
  | ChangeZoneNameCall zone_request
  | GetTrackCall string string
  | SetMuteCall string bool
  | GetMuteCall string

datatype mgmt_reply =
    GetSpeakersResponse int "speaker_info list"
  | UpdateResponse int string
  | CreateResponse int string string
  | GetZonesResponse int "zone_info list"
  | TrackResponse track
  | MuteResponse bool

section \<open>The server\<close>

text \<open>The update calls: 200, or 500 with the error's text.\<close>

definition update_reply :: "('s, unit) proc \<Rightarrow> ('s, mgmt_reply) proc" where
  "update_reply m =
     catchP (bindP m (\<lambda>_. retP (UpdateResponse 200 []))) (\<lambda>err. retP (UpdateResponse 500 err))"

definition api_GetSpeakers :: "'s mgmt_service \<Rightarrow> ('s, mgmt_reply) proc" where
  "api_GetSpeakers ms =
     bindP (ms_GetSpeakers ms) (\<lambda>members. retP (GetSpeakersResponse 200
       (map (\<lambda>member. \<lparr>si_ID = si_ID member, si_DisplayName = si_DisplayName member\<rparr>) members)))"

definition api_SetDisplayNameForSpeaker :: "'s mgmt_service \<Rightarrow> string \<Rightarrow> string \<Rightarrow> bool \<Rightarrow> ('s, mgmt_reply) proc" where
  "api_SetDisplayNameForSpeaker ms speakerId displayName updateBroadcast =
     update_reply (ms_SetDisplayName ms speakerId displayName updateBroadcast)"

definition api_CreateZone :: "'s mgmt_service \<Rightarrow> zone_request \<Rightarrow> ('s, mgmt_reply) proc" where
  "api_CreateZone ms q =
     catchP (bindP (ms_CreateZone ms (zq_DisplayName q) (zq_SpeakerIds q)) (\<lambda>id'. retP (CreateResponse 200 [] id')))
       (\<lambda>err. retP (CreateResponse 500 err []))"

definition api_GetZones :: "'s mgmt_service \<Rightarrow> ('s, mgmt_reply) proc" where
  "api_GetZones ms =
     bindP (ms_GetZones ms) (\<lambda>zones. retP (GetZonesResponse 200
       (map (\<lambda>z. \<lparr>zi_ID = zi_ID z, zi_DisplayName = zi_DisplayName z, zi_Speakers =
          map (\<lambda>member. \<lparr>si_ID = si_ID member, si_DisplayName = si_DisplayName member\<rparr>) (zi_Speakers z)\<rparr>) zones)))"

definition no_zone_id :: mgmt_reply where
  "no_zone_id = UpdateResponse 400 ''No zone id specified''"

definition api_AddSpeakersToZone :: "'s mgmt_service \<Rightarrow> zone_request \<Rightarrow> ('s, mgmt_reply) proc" where
  "api_AddSpeakersToZone ms q =
     (if zq_ZoneId q = [] then retP no_zone_id
      else update_reply (ms_AddSpeakersToZone ms (zq_ZoneId q) (zq_SpeakerIds q)))"

definition api_RemoveSpeakersFromZone :: "'s mgmt_service \<Rightarrow> zone_request \<Rightarrow> ('s, mgmt_reply) proc" where
  "api_RemoveSpeakersFromZone ms q =
     (if zq_ZoneId q = [] then retP no_zone_id
      else update_reply (ms_RemoveSpeakersFromZone ms (zq_ZoneId q) (zq_SpeakerIds q)))"

definition api_DeleteZone :: "'s mgmt_service \<Rightarrow> zone_request \<Rightarrow> ('s, mgmt_reply) proc" where
  "api_DeleteZone ms q =
     (if zq_ZoneId q = [] then retP no_zone_id else update_reply (ms_DeleteZone ms (zq_ZoneId q)))"

definition api_ChangeZoneName :: "'s mgmt_service \<Rightarrow> zone_request \<Rightarrow> ('s, mgmt_reply) proc" where
  "api_ChangeZoneName ms q =
     (if zq_ZoneId q = [] then retP no_zone_id
      else update_reply (ms_ChangeZoneName ms (zq_ZoneId q) (zq_DisplayName q)))"

text \<open>A failing query of the track is answered with an empty track.\<close>

definition api_GetCurrentTrack :: "'s mgmt_service \<Rightarrow> string \<Rightarrow> string \<Rightarrow> ('s, mgmt_reply) proc" where
  "api_GetCurrentTrack ms zoneId speakerId =
     (if zoneId = [] \<and> speakerId = [] then retP (TrackResponse no_track)
      else
        catchP (bindP (if zoneId \<noteq> [] then ms_GetTrackForZone ms zoneId else ms_GetTrackForSpeaker ms speakerId)
            (\<lambda>t. retP (TrackResponse \<lparr>tr_Artist = tr_Artist t, tr_Album = tr_Album t, tr_Title = tr_Title t,
               tr_Artwork = tr_Artwork t\<rparr>)))
          (\<lambda>err. retP (TrackResponse no_track)))"

definition api_SetMuteForSpeaker :: "'s mgmt_service \<Rightarrow> string \<Rightarrow> bool \<Rightarrow> ('s, mgmt_reply) proc" where
  "api_SetMuteForSpeaker ms speakerId isMuted =
     (if speakerId = [] then retP (UpdateResponse 400 ''No speaker id specified'')
      else update_reply (ms_SetMuteForSpeaker ms speakerId isMuted))"

text \<open>The error is ignored: \<^verbatim>\<open>muted\<close> is false then.\<close>

definition api_GetMuteForSpeaker :: "'s mgmt_service \<Rightarrow> string \<Rightarrow> ('s, mgmt_reply) proc" where
  "api_GetMuteForSpeaker ms speakerId =
     catchP (bindP (ms_GetIsMutedForSpeaker ms speakerId) (\<lambda>muted. retP (MuteResponse muted)))
       (\<lambda>err. retP (MuteResponse False))"

fun serve_mgmt :: "'s mgmt_service \<Rightarrow> mgmt_call \<Rightarrow> ('s, mgmt_reply) proc" where
  "serve_mgmt ms GetSpeakersCall = api_GetSpeakers ms"
| "serve_mgmt ms (SetDisplayNameCall i n b) = api_SetDisplayNameForSpeaker ms i n b"
| "serve_mgmt ms (CreateZoneCall q) = api_CreateZone ms q"
| "serve_mgmt ms GetZonesCall = api_GetZones ms"
| "serve_mgmt ms (AddSpeakersCall q) = api_AddSpeakersToZone ms q"
| "serve_mgmt ms (RemoveSpeakersCall q) = api_RemoveSpeakersFromZone ms q"
| "serve_mgmt ms (DeleteZoneCall q) = api_DeleteZone ms q"
| "serve_mgmt ms (ChangeZoneNameCall q) = api_ChangeZoneName ms q"
| "serve_mgmt ms (GetTrackCall z s) = api_GetCurrentTrack ms z s"
| "serve_mgmt ms (SetMuteCall i b) = api_SetMuteForSpeaker ms i b"
| "serve_mgmt ms (GetMuteCall i) = api_GetMuteForSpeaker ms i"

lemmas api_defs = api_GetSpeakers_def api_SetDisplayNameForSpeaker_def api_CreateZone_def api_GetZones_def
  api_AddSpeakersToZone_def api_RemoveSpeakersFromZone_def api_DeleteZone_def api_ChangeZoneName_def
  api_GetCurrentTrack_def api_SetMuteForSpeaker_def api_GetMuteForSpeaker_def update_reply_def

text \<open>
  A service whose methods all keep an invariant, whatever their outcome: the calls of the API keep
  it too.
\<close>

locale invariant_service =
  fixes ms :: "'s mgmt_service" and I :: "'s \<Rightarrow> bool"
  assumes keeps_methods:
    "keeps I (ms_GetSpeakers ms)" "keeps I (ms_SetDisplayName ms i n b)" "keeps I (ms_CreateZone ms n ids)"
    "keeps I (ms_AddSpeakersToZone ms i ids)" "keeps I (ms_RemoveSpeakersFromZone ms i ids)"
    "keeps I (ms_DeleteZone ms i)" "keeps I (ms_ChangeZoneName ms i n)" "keeps I (ms_GetZones ms)"
    "keeps I (ms_GetTrackForZone ms i)" "keeps I (ms_GetTrackForSpeaker ms i)"
    "keeps I (ms_SetMuteForSpeaker ms i b)" "keeps I (ms_GetIsMutedForSpeaker ms i)"
begin

lemma serve_keeps: "keeps I (serve_mgmt ms call)"
  by (cases call) (auto simp: api_defs intro!: keeps_methods keeps_catchP keeps_bindP)

lemma serve_all_keep: "keeps I (for_each (\<lambda>c. bindP (serve_mgmt ms c) (\<lambda>_. retP ())) calls)"
  by (auto intro!: serve_keeps)

end

end
