(* ===== verification/Mgmt_Service.thy ===== *)
theory Mgmt_Service
  imports Speaker_API Store Mgmt_API
begin

text \<open>
  The management service, \<^verbatim>\<open>cmd/mgmt/raft/service.go\<close>: zones of speakers, kept in the replicated
  store and imposed on the speakers by remote calls.

  The world of an operation (\<open>mgmt_world\<close>) is the running speaker processes, by the name of their
  node, this node's store, and the number of remote calls made so far. What lies outside is the
  environment (\<open>mgmt_env\<close>): the member list, the consensus library, the process that listens at an
  address, whether the \<open>t\<close>-th remote call gets through, loses its request or loses its answer, the
  random number for a zone's ID, the clock, the addresses of this machine, and the other management
  nodes. A speaker process that panics or exits is gone, and its caller sees an error.
\<close>

section \<open>World and environment\<close>

record mgmt_world =
  mw_speakers :: "string \<rightharpoonup> speaker_server"
  mw_store :: store
  mw_calls :: nat

datatype fault = Delivered | Request_Lost | Reply_Lost

text \<open>An address of this machine: whether it is a loopback one, and its IPv4 form if it has one.\<close>

record local_addr =
  la_loopback :: bool
  la_v4 :: "string option"

text \<open>A resolved TCP address; a missing host is the nil IP.\<close>

record tcp_addr =
  ta_IP :: "string option"
  ta_Port :: int

record mgmt_env =
  me_members :: "node list"
  me_raft :: raft_lib
  me_order :: "config_map \<Rightarrow> string list"
  me_route :: "string \<Rightarrow> string option"
  me_hosts :: "string \<Rightarrow> host"
  me_fault :: "nat \<Rightarrow> fault"
  me_dial :: "string \<Rightarrow> unit res"
  me_rtsp :: "string \<Rightarrow> int \<Rightarrow> string res"
  me_random :: int
  me_now :: int
  me_resolve :: "string \<Rightarrow> tcp_addr option"
  me_addrs :: "local_addr list res"
  me_errorf :: "string \<Rightarrow> string"
  me_remote :: "string \<Rightarrow> mgmt_call \<Rightarrow> (mgmt_world, mgmt_reply) proc"

definition NewDistributedMgmtService :: "store \<Rightarrow> (string \<rightharpoonup> speaker_server) \<Rightarrow> mgmt_world" where
  "NewDistributedMgmtService st speakers = \<lparr>mw_speakers = speakers, mw_store = st, mw_calls = 0\<rparr>"

definition on_store :: "(store, 'a) proc \<Rightarrow> (mgmt_world, 'a) proc" where
  "on_store m w = (case m (mw_store w) of (r, st) \<Rightarrow> (r, w\<lparr>mw_store := st\<rparr>))"

section \<open>Remote calls\<close>

definition unavailable :: string where
  "unavailable = ''rpc error: code = Unavailable''"

text \<open>What a computation of a speaker's process means for its caller.\<close>

definition at_speaker :: "mgmt_env \<Rightarrow> string \<Rightarrow> (string \<Rightarrow> (speaker_server, 'a) proc) \<Rightarrow> (mgmt_world, 'a) proc" where
  "at_speaker env address m w =
     (let w1 = w\<lparr>mw_calls := mw_calls w + 1\<rparr>; f = me_fault env (mw_calls w) in
      case (if f = Request_Lost then None else me_route env address) of
        None \<Rightarrow> (Err unavailable, w1)
      | Some name \<Rightarrow>
          (case mw_speakers w1 name of
             None \<Rightarrow> (Err unavailable, w1)
           | Some s \<Rightarrow>
               (let alive = (\<lambda>s'. w1\<lparr>mw_speakers := (mw_speakers w1)(name \<mapsto> s')\<rparr>);
                    gone = w1\<lparr>mw_speakers := (mw_speakers w1)(name := None)\<rparr> in
                case m name s of
                  (Ret a, s') \<Rightarrow> (if f = Delivered then Ret a else Err unavailable, alive s')
                | (Err e, s') \<Rightarrow> (Err e, alive s')
                | (Panic e, s') \<Rightarrow> (Err unavailable, gone)
                | (Exit e, s') \<Rightarrow> (Err unavailable, gone)
                | (Hang, s') \<Rightarrow> (Hang, alive s'))))"

definition speaker_call :: "mgmt_env \<Rightarrow> string \<Rightarrow> speaker_request \<Rightarrow> (mgmt_world, speaker_reply) proc" where
  "speaker_call env address q = at_speaker env address (\<lambda>name. serve_speaker (me_hosts env name) q)"

text \<open>\<open>filter_res\<close> is \<^verbatim>\<open>FilterMembersByFn\<close> with a filter that may end the process.\<close>

primrec filter_res :: "('a \<Rightarrow> bool res) \<Rightarrow> 'a list \<Rightarrow> 'a list \<Rightarrow> 'a list res" where
  "filter_res f [] nodes = Ret nodes"
| "filter_res f (member # members) nodes =
     res_bind (f member) (\<lambda>b. filter_res f members (if b then nodes @ [member] else nodes))"

definition speaker_filter :: "string \<Rightarrow> node \<Rightarrow> bool res" where
  "speaker_filter speakerID node =
     res_bind (DecodeNodeMeta (nd_Meta node)) (\<lambda>meta. Ret (nm_NodeType meta = Music \<and> speakerID = nd_Name node))"

definition api_address :: "node \<Rightarrow> node_meta \<Rightarrow> string" where
  "api_address n meta = nd_Addr n @ '':'' @ Itoa (nm_APIPort meta)"

definition rtsp_address :: "node \<Rightarrow> node_meta \<Rightarrow> string" where
  "rtsp_address n meta = nd_Addr n @ '':'' @ Itoa (nm_RtspPort meta)"

text \<open>The client of a speaker is the address it talks to.\<close>

definition getSpeakerClient :: "mgmt_env \<Rightarrow> string \<Rightarrow> string res" where
  "getSpeakerClient env speakerID =
     res_bind (filter_res (speaker_filter speakerID) (me_members env) []) (\<lambda>speakers.
       if length speakers \<noteq> 1 then Err (''could not find speaker with id: '' @ speakerID)
       else
         let speaker = hd speakers in
         res_bind (DecodeNodeMeta (nd_Meta speaker)) (\<lambda>meta.
         res_bind (me_dial env (api_address speaker meta)) (\<lambda>_. Ret (api_address speaker meta))))"

text \<open>Obtaining the client of a speaker and making a call whose answer is ignored.\<close>

definition tell :: "mgmt_env \<Rightarrow> string \<Rightarrow> speaker_request \<Rightarrow> (mgmt_world, unit) proc" where
  "tell env client q = bindP (speaker_call env client q) (\<lambda>_. retP ())"

section \<open>The leader's API\<close>

text \<open>\<open>isLocalIP\<close> answers true for an address that differs from one of this machine's.\<close>

definition to4_text :: "local_addr \<Rightarrow> string" where
  "to4_text a = (case la_v4 a of None \<Rightarrow> ''<nil>'' | Some s \<Rightarrow> s)"

definition isLocalIP :: "mgmt_env \<Rightarrow> string \<Rightarrow> bool" where
  "isLocalIP env ipAddr =
     (case me_addrs env of
        Ret addrs \<Rightarrow> list_ex (\<lambda>a. \<not> la_loopback a \<and> to4_text a \<noteq> ipAddr) addrs
      | _ \<Rightarrow> False)"

definition leader_match :: "mgmt_env \<Rightarrow> tcp_addr \<Rightarrow> node \<Rightarrow> node_meta \<Rightarrow> bool" where
  "leader_match env leader member meta \<longleftrightarrow>
     (ta_IP leader = None \<and> isLocalIP env (nd_Addr member)
      \<or> (case ta_IP leader of None \<Rightarrow> ''<nil>'' | Some ip \<Rightarrow> ip) = nd_Addr member)
     \<and> ta_Port leader = nm_RaftPort meta"

text \<open>The loop over the management nodes; a leader that did not resolve is a nil pointer.\<close>

primrec leader_api :: "mgmt_env \<Rightarrow> tcp_addr option \<Rightarrow> node list \<Rightarrow> string res" where
  "leader_api env leader [] = Ret []"
| "leader_api env leader (member # members) =
     res_bind (DecodeNodeMeta (nd_Meta member)) (\<lambda>meta.
       case leader of
         None \<Rightarrow> Panic nil_deref
       | Some l \<Rightarrow>
           if leader_match env l member meta then Ret (api_address member meta) else leader_api env leader members)"

definition getLeaderAPIAddress :: "mgmt_env \<Rightarrow> tcp_addr option \<Rightarrow> string res" where
  "getLeaderAPIAddress env leader =
     res_bind (FilterMembers Mgmt (me_members env)) (leader_api env leader)"

definition getLeaderClient :: "mgmt_env \<Rightarrow> string \<Rightarrow> string res" where
  "getLeaderClient env leader =
     res_bind (getLeaderAPIAddress env (me_resolve env leader)) (\<lambda>apiAddress.
       if apiAddress = [] then Err (''could not resolve API address for: '' @ leader)
       else res_bind (me_dial env apiAddress) (\<lambda>_. Ret apiAddress))"

text \<open>Passing a call on to the leader, and reading its answer.\<close>

definition ask_leader :: "mgmt_env \<Rightarrow> mgmt_call \<Rightarrow> (mgmt_world, mgmt_reply) proc" where
  "ask_leader env call =
     bindP (on_store (GetLeader (me_raft env))) (\<lambda>leader.
     bindP (liftR (getLeaderClient env leader)) (\<lambda>client. me_remote env client call))"

fun update_outcome :: "mgmt_env \<Rightarrow> mgmt_reply \<Rightarrow> unit res" where
  "update_outcome env (UpdateResponse code msg) = (if code \<noteq> 200 then Err (me_errorf env msg) else Ret ())"
| "update_outcome env _ = Err ''unexpected message''"

fun create_outcome :: "mgmt_env \<Rightarrow> mgmt_reply \<Rightarrow> string res" where
  "create_outcome env (CreateResponse code msg i) = (if code \<noteq> 200 then Err (me_errorf env msg) else Ret i)"
| "create_outcome env _ = Err ''unexpected message''"

definition update_by_leader :: "mgmt_env \<Rightarrow> mgmt_call \<Rightarrow> (mgmt_world, unit) proc \<Rightarrow> (mgmt_world, unit) proc" where
  "update_by_leader env call m =
     bindP (on_store (AmLeader (me_raft env))) (\<lambda>leading.
       if \<not> leading then bindP (ask_leader env call) (\<lambda>resp. liftR (update_outcome env resp)) else m)"

definition no_zone_request :: zone_request where
  "no_zone_request = \<lparr>zq_ZoneId = [], zq_DisplayName = [], zq_SpeakerIds = []\<rparr>"

section \<open>Speakers\<close>

definition speaker_info_of :: "store \<Rightarrow> node \<Rightarrow> speaker_info" where
  "speaker_info_of st member =
     (let config = (case ds_m st (nd_Name member) of None \<Rightarrow> no_entry | Some e \<Rightarrow> e) in
      \<lparr>si_ID = nd_Name member,
       si_DisplayName = (if sc_DisplayName (ent_Speaker config) \<noteq> [] then sc_DisplayName (ent_Speaker config)
         else nd_Name member)\<rparr>)"

definition GetSpeakers :: "mgmt_env \<Rightarrow> (mgmt_world, speaker_info list) proc" where
  "GetSpeakers env w =
     bindP (liftR (FilterMembers Music (me_members env)))
       (\<lambda>members. retP (map (speaker_info_of (mw_store w)) members)) w"

definition setDisplayName_leader :: "mgmt_env \<Rightarrow> string \<Rightarrow> string \<Rightarrow> bool \<Rightarrow> (mgmt_world, unit) proc" where
  "setDisplayName_leader env ID displayName updateBroadcast =
     bindP (on_store (GetSpeakerConfig ID)) (\<lambda>config.
     let speakerConfig = (if sc_ID config = [] then config\<lparr>sc_ID := ID\<rparr> else config) in
     bindP
       (if updateBroadcast then
          bindP (liftR (getSpeakerClient env ID)) (\<lambda>client.
          bindP (speaker_call env client (NameChangeRequest displayName)) (\<lambda>resp.
            case resp of
              ManagementResponse code \<Rightarrow>
                if code \<noteq> 200 then errP (''error changing name of speaker: '' @ Itoa code) else retP ()
            | _ \<Rightarrow> errP ''unexpected message''))
        else retP ())
       (\<lambda>_. on_store (SaveSpeakerConfig (me_raft env) (speakerConfig\<lparr>sc_DisplayName := displayName\<rparr>))))"

text \<open>The request that is passed on to the leader does not carry \<^verbatim>\<open>updateBroadcast\<close>.\<close>

definition SetDisplayName :: "mgmt_env \<Rightarrow> string \<Rightarrow> string \<Rightarrow> bool \<Rightarrow> (mgmt_world, unit) proc" where
  "SetDisplayName env ID displayName updateBroadcast =
     update_by_leader env (SetDisplayNameCall ID displayName False)
       (setDisplayName_leader env ID displayName updateBroadcast)"

definition removeFromAllSpeakers :: "mgmt_env \<Rightarrow> string list \<Rightarrow> (mgmt_world, unit) proc" where
  "removeFromAllSpeakers env speakerIDs =
     bindP (GetSpeakers env) (\<lambda>speakers.
       for_each (\<lambda>speaker.
         bindP (liftR (getSpeakerClient env (si_ID speaker))) (\<lambda>client.
           tell env client (RemoveForwardRequest speakerIDs False))) speakers)"

section \<open>Zones\<close>

definition find_zone :: "string \<Rightarrow> zone_config list \<Rightarrow> zone_config" where
  "find_zone zoneID zc = (case find (\<lambda>z. zc_ID z = zoneID) zc of None \<Rightarrow> no_zone_config | Some z \<Rightarrow> z)"

definition zone_configs_of :: "mgmt_env \<Rightarrow> (mgmt_world, zone_config list) proc" where
  "zone_configs_of env = on_store (GetZoneConfigs (me_order env))"

text \<open>Looking up a zone, or failing; the text of the error is that of the caller.\<close>

definition with_zone :: "mgmt_env \<Rightarrow> string \<Rightarrow> string \<Rightarrow> (zone_config \<Rightarrow> (mgmt_world, 'a) proc) \<Rightarrow> (mgmt_world, 'a) proc" where
  "with_zone env prefix zoneID f =
     bindP (zone_configs_of env) (\<lambda>zc.
       let zone = find_zone zoneID zc in
       if zc_ID zone = [] then errP (prefix @ zoneID @ '' not found'') else f zone)"

text \<open>One speaker of a new zone.\<close>

definition prepare_speaker :: "mgmt_env \<Rightarrow> zone_config \<Rightarrow> string \<Rightarrow> (mgmt_world, unit) proc" where
  "prepare_speaker env zc speakerID =
     bindP (liftR (getSpeakerClient env speakerID)) (\<lambda>client.
     bindP (tell env client (RemoveForwardRequest [] True)) (\<lambda>_.
       if speakerID \<noteq> zc_Leader zc then tell env client (BroadcastRequest False)
       else
         bindP (tell env client (NameChangeRequest (zc_DisplayName zc))) (\<lambda>_.
           tell env client (BroadcastRequest True))))"

text \<open>An error that is passed to \<^verbatim>\<open>log.Fatal\<close>.\<close>

definition fatalP :: "('s, 'a) proc \<Rightarrow> ('s, 'a) proc" where
  "fatalP m = catchP m (\<lambda>e. liftR (Exit e))"

definition new_zone :: "mgmt_env \<Rightarrow> string \<Rightarrow> string list \<Rightarrow> zone_config" where
  "new_zone env displayName speakerIDs =
     \<lparr>zc_ID = Itoa (me_random env), zc_DisplayName = displayName,
      zc_Leader = (if length speakerIDs > 0 then hd speakerIDs else []), zc_Speakers = speakerIDs\<rparr>"

definition createZone_leader :: "mgmt_env \<Rightarrow> string \<Rightarrow> string list \<Rightarrow> (mgmt_world, string) proc" where
  "createZone_leader env displayName speakerIDs =
     (let zc = new_zone env displayName speakerIDs in
      bindP (for_each (prepare_speaker env zc) speakerIDs) (\<lambda>_.
      bindP
        (if length speakerIDs > 0 then
           bindP (removeFromAllSpeakers env speakerIDs) (\<lambda>_.
           bindP (liftR (getSpeakerClient env (zc_Leader zc))) (\<lambda>client.
             tell env client (ForwardRequest (filter (\<lambda>v. v \<noteq> zc_Leader zc) speakerIDs))))
         else retP ()) (\<lambda>_.
      bindP (fatalP (on_store (SaveZoneConfig (me_raft env) zc))) (\<lambda>_.
        retP (zc_ID zc)))))"

definition CreateZone :: "mgmt_env \<Rightarrow> string \<Rightarrow> string list \<Rightarrow> (mgmt_world, string) proc" where
  "CreateZone env displayName speakerIDs =
     bindP (on_store (AmLeader (me_raft env))) (\<lambda>leading.
       if \<not> leading then
         bindP (ask_leader env (CreateZoneCall (no_zone_request\<lparr>zq_DisplayName := displayName, zq_SpeakerIds := speakerIDs\<rparr>)))
           (\<lambda>resp. liftR (create_outcome env resp))
       else createZone_leader env displayName speakerIDs)"

definition add_speaker :: "mgmt_env \<Rightarrow> zone_config \<Rightarrow> string \<Rightarrow> (mgmt_world, unit) proc" where
  "add_speaker env zone speakerID =
     (if speakerID = zc_Leader zone then retP ()
      else
        bindP (liftR (getSpeakerClient env speakerID)) (\<lambda>client.
        bindP (tell env client (RemoveForwardRequest [] True)) (\<lambda>_.
          tell env client (BroadcastRequest False))))"

definition addSpeakers_leader :: "mgmt_env \<Rightarrow> string \<Rightarrow> string list \<Rightarrow> (mgmt_world, unit) proc" where
  "addSpeakers_leader env zoneID speakerIDs =
     (if length speakerIDs = 0 then retP ()
      else
        with_zone env ''Zone: '' zoneID (\<lambda>zone.
        bindP (for_each (add_speaker env zone) speakerIDs) (\<lambda>_.
        bindP (removeFromAllSpeakers env speakerIDs) (\<lambda>_.
        bindP (liftR (getSpeakerClient env (zc_Leader zone))) (\<lambda>client.
        bindP (tell env client (ForwardRequest speakerIDs)) (\<lambda>_.
          on_store (SaveZoneConfig (me_raft env) (zone\<lparr>zc_Speakers := zc_Speakers zone @ speakerIDs\<rparr>))))))))"

definition AddSpeakersToZone :: "mgmt_env \<Rightarrow> string \<Rightarrow> string list \<Rightarrow> (mgmt_world, unit) proc" where
  "AddSpeakersToZone env zoneID speakerIDs =
     update_by_leader env (AddSpeakersCall (no_zone_request\<lparr>zq_ZoneId := zoneID, zq_SpeakerIds := speakerIDs\<rparr>))
       (addSpeakers_leader env zoneID speakerIDs)"

text \<open>Turning the broadcast of a speaker back on, the leader's excepted.\<close>

definition rebroadcast :: "mgmt_env \<Rightarrow> zone_config \<Rightarrow> string \<Rightarrow> (mgmt_world, unit) proc" where
  "rebroadcast env zone speakerID =
     (if speakerID = zc_Leader zone then retP ()
      else
        bindP (liftR (getSpeakerClient env speakerID)) (\<lambda>client. tell env client (BroadcastRequest True)))"

text \<open>
  The loop that computes the remaining speakers: for each speaker the inner loop appends it once for
  every listed speaker up to the one that equals it.
\<close>

primrec keep_speaker :: "string \<Rightarrow> string list \<Rightarrow> bool \<Rightarrow> string list" where
  "keep_speaker speaker [] found = []"
| "keep_speaker speaker (speakerToRemove # rest) found =
     (let found' = (if speakerToRemove = speaker then True else found) in
      (if \<not> found' then [speaker] else []) @ keep_speaker speaker rest found')"

definition remaining_speakers :: "string list \<Rightarrow> string list \<Rightarrow> string list" where
  "remaining_speakers speakers speakerIDs = concat (map (\<lambda>speaker. keep_speaker speaker speakerIDs False) speakers)"

definition removeSpeakers_leader :: "mgmt_env \<Rightarrow> string \<Rightarrow> string list \<Rightarrow> (mgmt_world, unit) proc" where
  "removeSpeakers_leader env zoneID speakerIDs =
     (if length speakerIDs = 0 then retP ()
      else
        with_zone env ''Zone: '' zoneID (\<lambda>zone.
        bindP (for_each (rebroadcast env zone) speakerIDs) (\<lambda>_.
        bindP (liftR (getSpeakerClient env (zc_Leader zone))) (\<lambda>client.
        bindP (tell env client (RemoveForwardRequest speakerIDs False)) (\<lambda>_.
          on_store (SaveZoneConfig (me_raft env)
            (zone\<lparr>zc_Speakers := remaining_speakers (zc_Speakers zone) speakerIDs\<rparr>)))))))"

definition RemoveSpeakersFromZone :: "mgmt_env \<Rightarrow> string \<Rightarrow> string list \<Rightarrow> (mgmt_world, unit) proc" where
  "RemoveSpeakersFromZone env zoneID speakerIDs =
     update_by_leader env (RemoveSpeakersCall (no_zone_request\<lparr>zq_ZoneId := zoneID, zq_SpeakerIds := speakerIDs\<rparr>))
       (removeSpeakers_leader env zoneID speakerIDs)"

definition deleteZone_leader :: "mgmt_env \<Rightarrow> string \<Rightarrow> (mgmt_world, unit) proc" where
  "deleteZone_leader env zoneID =
     with_zone env ''Zone: '' zoneID (\<lambda>zone.
     bindP (for_each (rebroadcast env zone) (zc_Speakers zone)) (\<lambda>_.
     bindP
       (if zc_Leader zone \<noteq> [] then
          bindP (liftR (getSpeakerClient env (zc_Leader zone))) (\<lambda>client.
          bindP (tell env client (RemoveForwardRequest [] True)) (\<lambda>_.
          bindP (on_store (GetSpeakerConfig (zc_Leader zone))) (\<lambda>speakerConfig.
            tell env client (NameChangeRequest (sc_DisplayName speakerConfig)))))
        else retP ()) (\<lambda>_.
       on_store (DeleteZoneConfig (me_raft env) (zc_ID zone)))))"

definition DeleteZone :: "mgmt_env \<Rightarrow> string \<Rightarrow> (mgmt_world, unit) proc" where
  "DeleteZone env zoneID =
     update_by_leader env (DeleteZoneCall (no_zone_request\<lparr>zq_ZoneId := zoneID\<rparr>)) (deleteZone_leader env zoneID)"

definition changeZoneName_leader :: "mgmt_env \<Rightarrow> string \<Rightarrow> string \<Rightarrow> (mgmt_world, unit) proc" where
  "changeZoneName_leader env zoneID newName =
     with_zone env ''Zone: '' zoneID (\<lambda>zone.
     bindP (liftR (getSpeakerClient env (zc_Leader zone))) (\<lambda>client.
     bindP (tell env client (NameChangeRequest newName)) (\<lambda>_.
       on_store (SaveZoneConfig (me_raft env) (zone\<lparr>zc_DisplayName := newName\<rparr>)))))"

definition ChangeZoneName :: "mgmt_env \<Rightarrow> string \<Rightarrow> string \<Rightarrow> (mgmt_world, unit) proc" where
  "ChangeZoneName env zoneID newName =
     update_by_leader env (ChangeZoneNameCall (no_zone_request\<lparr>zq_ZoneId := zoneID, zq_DisplayName := newName\<rparr>))
       (changeZoneName_leader env zoneID newName)"

definition zone_info_of :: "speaker_info list \<Rightarrow> zone_config \<Rightarrow> zone_info" where
  "zone_info_of speakers config =
     \<lparr>zi_ID = zc_ID config, zi_DisplayName = zc_DisplayName config,
      zi_Speakers = concat (map (\<lambda>speakerID. filter (\<lambda>speaker. si_ID speaker = speakerID) speakers) (zc_Speakers config))\<rparr>"

definition GetZones :: "mgmt_env \<Rightarrow> (mgmt_world, zone_info list) proc" where
  "GetZones env =
     bindP (zone_configs_of env) (\<lambda>zc.
     bindP (GetSpeakers env) (\<lambda>speakers. retP (map (zone_info_of speakers) zc)))"

section \<open>Tracks and muting\<close>

definition track_at :: "mgmt_env \<Rightarrow> string \<Rightarrow> (mgmt_world, track) proc" where
  "track_at env speakerID =
     bindP (liftR (getSpeakerClient env speakerID)) (\<lambda>client.
     bindP (speaker_call env client GetTrackRequest) (\<lambda>reply.
       case reply of
         TrackReply t \<Rightarrow> retP \<lparr>tr_Artist = tr_Artist t, tr_Album = tr_Album t, tr_Title = tr_Title t,
           tr_Artwork = tr_Artwork t\<rparr>
       | _ \<Rightarrow> errP ''unexpected message''))"

definition GetTrackForZone :: "mgmt_env \<Rightarrow> string \<Rightarrow> (mgmt_world, track) proc" where
  "GetTrackForZone env zoneID = with_zone env ''zone: '' zoneID (\<lambda>zone. track_at env (zc_Leader zone))"

definition GetTrackForSpeaker :: "mgmt_env \<Rightarrow> string \<Rightarrow> (mgmt_world, track) proc" where
  "GetTrackForSpeaker env speakerID = track_at env speakerID"

definition GetIsMutedForSpeaker :: "mgmt_env \<Rightarrow> string \<Rightarrow> (mgmt_world, bool) proc" where
  "GetIsMutedForSpeaker env speakerID =
     bindP (liftR (getSpeakerClient env speakerID)) (\<lambda>client.
     bindP (speaker_call env client GetMutedRequest) (\<lambda>reply.
       case reply of SpeakerMuteResponse muted \<Rightarrow> retP muted | _ \<Rightarrow> errP ''unexpected message''))"

text \<open>Muting goes through the RTSP port of the speaker.\<close>

definition mute_parameter :: "mgmt_env \<Rightarrow> string \<Rightarrow> bool \<Rightarrow> request" where
  "mute_parameter env localAddress isMuted =
     NewRequest\<lparr>rq_Method := Set_Parameter,
       rq_URI := ''rtsp://'' @ localAddress @ ''/'' @ Itoa (me_now env),
       rq_Headers := [''Content-Type'' \<mapsto> ''text/parameters'',
         ''X-BCG-Muted'' \<mapsto> if isMuted then ''muted'' else ''unmuted''],
       rq_Body := ''volume: '' @ format_f (Fin (if isMuted then -144 else 0))\<rparr>"

definition rtsp_send :: "mgmt_env \<Rightarrow> string \<Rightarrow> string \<Rightarrow> request \<Rightarrow> (mgmt_world, response) proc" where
  "rtsp_send env address localAddress q =
     (let sent = stamped fresh_client q in
      at_speaker env address (\<lambda>name. on_airplay
        (handlSetParameter (me_hosts env name) forwarding_player_ops sent (initial_response sent) address localAddress)))"

definition setMute_leader :: "mgmt_env \<Rightarrow> string \<Rightarrow> bool \<Rightarrow> (mgmt_world, unit) proc" where
  "setMute_leader env speakerID isMuted =
     bindP (liftR (filter_res (speaker_filter speakerID) (me_members env) [])) (\<lambda>speakers.
       if length speakers \<noteq> 1 then errP (''Could not find speaker with id: '' @ speakerID)
       else
         let speaker = hd speakers in
         bindP (liftR (DecodeNodeMeta (nd_Meta speaker))) (\<lambda>meta.
         bindP (liftR (me_rtsp env (nd_Addr speaker) (nm_RtspPort meta))) (\<lambda>localAddress.
         bindP (rtsp_send env (rtsp_address speaker meta) localAddress (mute_parameter env localAddress isMuted))
           (\<lambda>_. retP ()))))"

definition SetMuteForSpeaker :: "mgmt_env \<Rightarrow> string \<Rightarrow> bool \<Rightarrow> (mgmt_world, unit) proc" where
  "SetMuteForSpeaker env speakerID isMuted =
     update_by_leader env (SetMuteCall speakerID isMuted) (setMute_leader env speakerID isMuted)"

section \<open>Nodes that join and leave\<close>

text \<open>
  The zone of a node that joins, and whether it leads it: the first zone it leads, else the last
  one it is a speaker of.
\<close>

primrec rejoin_zone :: "string \<Rightarrow> zone_config list \<Rightarrow> zone_config option \<Rightarrow> (zone_config \<times> bool) option" where
  "rejoin_zone name [] updateZone = map_option (\<lambda>z. (z, False)) updateZone"
| "rejoin_zone name (zone # zones) updateZone =
     (if zc_Leader zone = name then Some (zone, True)
      else rejoin_zone name zones (if name \<in> set (zc_Speakers zone) then Some zone else updateZone))"

definition zone_members :: "mgmt_env \<Rightarrow> zone_config \<Rightarrow> node list" where
  "zone_members env zone = FilterMembersByFn (\<lambda>n. nd_Name n \<in> set (zc_Speakers zone)) (me_members env)"

definition rejoin_leader :: "mgmt_env \<Rightarrow> string \<Rightarrow> zone_config \<Rightarrow> (mgmt_world, unit) proc" where
  "rejoin_leader env name zone =
     bindP (liftR (getSpeakerClient env name)) (\<lambda>client.
     let ids = filter (\<lambda>n. n \<noteq> name) (map nd_Name (zone_members env zone)) in
     bindP (tell env client (ForwardRequest ids)) (\<lambda>_.
     bindP (tell env client (BroadcastRequest True)) (\<lambda>_.
       tell env client (NameChangeRequest (zc_DisplayName zone)))))"

text \<open>A zone leader that is not found is passed over; a call to it that fails is not.\<close>

definition rejoin_member :: "mgmt_env \<Rightarrow> string \<Rightarrow> zone_config \<Rightarrow> (mgmt_world, unit) proc" where
  "rejoin_member env name zone =
     bindP
       (case getSpeakerClient env (zc_Leader zone) of
          Err e \<Rightarrow> retP ()
        | r \<Rightarrow> bindP (liftR r) (\<lambda>client. tell env client (ForwardRequest [name]))) (\<lambda>_.
     bindP (liftR (getSpeakerClient env name)) (\<lambda>client. tell env client (BroadcastRequest False)))"

text \<open>Errors are only logged, except those of \<open>removeFromAllSpeakers\<close>.\<close>

definition HandleMusicNodeJoin :: "mgmt_env \<Rightarrow> node \<Rightarrow> (mgmt_world, unit) proc" where
  "HandleMusicNodeJoin env node =
     bindP (on_store (AmLeader (me_raft env))) (\<lambda>leading.
       if \<not> leading then retP ()
       else
         bindP (zone_configs_of env) (\<lambda>zones.
           case rejoin_zone (nd_Name node) zones None of
             None \<Rightarrow> retP ()
           | Some (zone, wasLeader) \<Rightarrow>
               bindP (fatalP (removeFromAllSpeakers env [nd_Name node])) (\<lambda>_.
                 catchP (if wasLeader then rejoin_leader env (nd_Name node) zone
                         else rejoin_member env (nd_Name node) zone)
                   (\<lambda>e. retP ()))))"

definition promote :: "mgmt_env \<Rightarrow> zone_config \<Rightarrow> string \<Rightarrow> (mgmt_world, unit) proc" where
  "promote env zone newLeader =
     bindP (liftR (getSpeakerClient env newLeader)) (\<lambda>client.
     bindP (tell env client (ForwardRequest (filter (\<lambda>i. i \<noteq> newLeader) (zc_Speakers zone)))) (\<lambda>_.
     bindP (tell env client (NameChangeRequest (zc_DisplayName zone))) (\<lambda>_.
     bindP (tell env client (BroadcastRequest True)) (\<lambda>_.
       fatalP (on_store (SaveZoneConfig (me_raft env) (zone\<lparr>zc_Leader := newLeader\<rparr>)))))))"

definition HandleMusicNodeLeave :: "mgmt_env \<Rightarrow> node \<Rightarrow> (mgmt_world, unit) proc" where
  "HandleMusicNodeLeave env node =
     bindP (on_store (AmLeader (me_raft env))) (\<lambda>leading.
       if \<not> leading then retP ()
       else
         bindP (zone_configs_of env) (\<lambda>zones.
           case find (\<lambda>z. zc_Leader z = nd_Name node) zones of
             None \<Rightarrow> retP ()
           | Some zone \<Rightarrow>
               (case zone_members env zone of
                  [] \<Rightarrow> retP ()
                | newLeader # _ \<Rightarrow> catchP (promote env zone (nd_Name newLeader)) (\<lambda>e. retP ()))))"

section \<open>The service\<close>

definition distributed_service :: "mgmt_env \<Rightarrow> mgmt_world mgmt_service" where
  "distributed_service env =
     \<lparr>ms_GetSpeakers = GetSpeakers env, ms_SetDisplayName = SetDisplayName env, ms_CreateZone = CreateZone env,
      ms_AddSpeakersToZone = AddSpeakersToZone env, ms_RemoveSpeakersFromZone = RemoveSpeakersFromZone env,
      ms_DeleteZone = DeleteZone env, ms_ChangeZoneName = ChangeZoneName env, ms_GetZones = GetZones env,
      ms_GetTrackForZone = GetTrackForZone env, ms_GetTrackForSpeaker = GetTrackForSpeaker env,
      ms_SetMuteForSpeaker = SetMuteForSpeaker env, ms_GetIsMutedForSpeaker = GetIsMutedForSpeaker env\<rparr>"

end
