(* ===== verification/Mgmt_Invariant.thy ===== *)
theory Mgmt_Invariant
  imports Mgmt_Service
begin

text \<open>
  What holds of the management service in every environment: remote calls may be lost, speakers may
  crash, leadership may change at any moment. Speakers are only told things, so the configuration
  changes in the last step of an operation alone (\<open>quiet\<close>, \<open>atomic\<close>); and every zone stays stored
  under its own ID, so that looking a zone up does not depend on the order of iteration.
\<close>

section \<open>Steps that leave the configuration alone\<close>

abbreviation config_of :: "mgmt_world \<Rightarrow> config_map" where
  "config_of w \<equiv> ds_m (mw_store w)"

text \<open>\<open>quiet\<close>: the configuration is the same on every outcome; \<open>atomic\<close>: it is the same on an error.\<close>

definition quiet :: "(mgmt_world, 'a) proc \<Rightarrow> bool" where
  "quiet m \<longleftrightarrow> (\<forall>w. config_of (snd (m w)) = config_of w)"

definition atomic :: "(mgmt_world, 'a) proc \<Rightarrow> bool" where
  "atomic m \<longleftrightarrow> (\<forall>w e. fst (m w) = Err e \<longrightarrow> config_of (snd (m w)) = config_of w)"

definition never_err :: "(mgmt_world, 'a) proc \<Rightarrow> bool" where
  "never_err m \<longleftrightarrow> (\<forall>w e. fst (m w) \<noteq> Err e)"

named_theorems quiet_intros \<open>steps that leave the configuration alone\<close>

lemma quiet_keeps: "quiet m \<Longrightarrow> keeps (\<lambda>w. P (config_of w)) m"
  by (simp add: quiet_def keeps_def)

lemma quiet_atomic: "quiet m \<Longrightarrow> atomic m"
  by (simp add: quiet_def atomic_def)

lemma never_err_atomic: "never_err m \<Longrightarrow> atomic m"
  by (simp add: never_err_def atomic_def)

lemma quiet_retP [quiet_intros]: "quiet (retP a)"
  by (simp add: quiet_def)

lemma quiet_errP [quiet_intros]: "quiet (errP e)"
  by (simp add: quiet_def)

lemma quiet_liftR [quiet_intros]: "quiet (liftR r)"
  by (simp add: quiet_def liftR_def)

lemma quiet_bindP [quiet_intros]:
  assumes "quiet m" and "\<And>a. quiet (f a)"
  shows "quiet (bindP m f)"
  using assms unfolding quiet_def bindP_def by (auto split: res.splits prod.splits) (metis snd_conv)+

lemma quiet_catchP [quiet_intros]:
  assumes "quiet m" and "\<And>e. quiet (f e)"
  shows "quiet (catchP m f)"
  using assms unfolding quiet_def catchP_def by (auto split: res.splits prod.splits) (metis snd_conv)+

lemma quiet_for_each [quiet_intros]: "(\<And>x. quiet (f x)) \<Longrightarrow> quiet (for_each f xs)"
  by (induction xs) (auto intro: quiet_intros)

lemma quiet_if [quiet_intros]: "quiet m \<Longrightarrow> quiet n \<Longrightarrow> quiet (if b then m else n)"
  by simp

lemma atomic_bindP:
  assumes "quiet m" and "\<And>a. atomic (f a)"
  shows "atomic (bindP m f)"
  unfolding atomic_def
proof (intro allI impI)
  fix w e assume err: "fst (bindP m f w) = Err e"
  obtain r w1 where m: "m w = (r, w1)" by (cases "m w")
  then have w1: "config_of w1 = config_of w" using assms(1) by (metis quiet_def snd_conv)
  show "config_of (snd (bindP m f w)) = config_of w"
    using err m w1 assms(2) by (cases r) (auto simp: bindP_def atomic_def)
qed

lemma never_err_fatalP: "never_err (fatalP m)"
  by (auto simp: never_err_def fatalP_def catchP_def liftR_def split: res.splits prod.splits)

lemma never_err_bindP: "never_err m \<Longrightarrow> (\<And>a. never_err (f a)) \<Longrightarrow> never_err (bindP m f)"
  unfolding never_err_def bindP_def by (auto split: res.splits prod.splits) (metis fst_conv)

section \<open>The steps of the service\<close>

lemma quiet_at_speaker [quiet_intros]: "quiet (at_speaker env address m)"
  by (auto simp: quiet_def at_speaker_def Let_def split: option.splits res.splits prod.splits)

lemma quiet_speaker_call [quiet_intros]: "quiet (speaker_call env client q)"
  unfolding speaker_call_def by (rule quiet_intros)

lemma quiet_tell [quiet_intros]: "quiet (tell env client q)"
  unfolding tell_def by (intro quiet_intros)

lemma quiet_store_reads [quiet_intros]:
  "quiet (on_store (AmLeader rf))" "quiet (on_store (GetLeader rf))" "quiet (on_store (GetSpeakerConfig i))"
  "quiet (zone_configs_of env)"
  by (auto simp: quiet_def on_store_def AmLeader_def GetLeader_def GetSpeakerConfig_def raft_call_def
      zone_configs_of_def GetZoneConfigs_def)

lemma quiet_GetSpeakers [quiet_intros]: "quiet (GetSpeakers env)"
  by (auto simp: quiet_def GetSpeakers_def bindP_def liftR_def split: res.splits)

lemma quiet_with_zone: "(\<And>z. quiet (f z)) \<Longrightarrow> quiet (with_zone env p i f)"
  unfolding with_zone_def Let_def by (intro quiet_intros)

lemma atomic_with_zone: "(\<And>z. atomic (f z)) \<Longrightarrow> atomic (with_zone env p i f)"
  unfolding with_zone_def Let_def
  by (intro atomic_bindP quiet_intros) (auto intro: quiet_atomic quiet_intros)

lemma quiet_speaker_steps [quiet_intros]:
  "quiet (removeFromAllSpeakers env ids)" "quiet (prepare_speaker env zc i)" "quiet (add_speaker env zc i)"
  "quiet (rebroadcast env zc i)" "quiet (rejoin_leader env i zc)" "quiet (track_at env i)" "quiet (rtsp_send env a l q)"
  unfolding removeFromAllSpeakers_def prepare_speaker_def add_speaker_def rebroadcast_def rejoin_leader_def
    track_at_def rtsp_send_def Let_def
  by (intro quiet_intros; simp add: quiet_intros split: speaker_reply.splits)+

lemma quiet_rejoin_member [quiet_intros]: "quiet (rejoin_member env i zc)"
  unfolding rejoin_member_def
  by (intro quiet_bindP quiet_tell quiet_liftR) (auto intro!: quiet_intros split: res.splits)

lemma quiet_queries [quiet_intros]:
  "quiet (GetZones env)" "quiet (GetTrackForZone env i)" "quiet (GetTrackForSpeaker env i)"
  "quiet (GetIsMutedForSpeaker env i)" "quiet (setMute_leader env i b)"
  unfolding GetZones_def GetTrackForZone_def GetTrackForSpeaker_def GetIsMutedForSpeaker_def setMute_leader_def Let_def
  by (intro quiet_intros quiet_with_zone; simp add: quiet_intros split: speaker_reply.splits)+

section \<open>Failing operations\<close>

text \<open>The consensus library reports an error only for a command that it has not applied.\<close>

definition fails_cleanly :: "raft_lib \<Rightarrow> bool" where
  "fails_cleanly rf \<longleftrightarrow> (\<forall>t c e logs. ra_Apply rf t c = (Err e, logs) \<longrightarrow> logs = [])"

lemma on_store_saves:
  "on_store (SaveZoneConfig rf z) = bindP (on_store (AmLeader rf)) (\<lambda>leading. if \<not> leading then errP ''not leader''
     else on_store (raft_Apply rf \<lparr>cm_Op = ''set'', cm_Key = zc_ID z, cm_Value = no_entry\<lparr>ent_Zone := z\<rparr>\<rparr>))"
  "on_store (SaveSpeakerConfig rf c) = bindP (on_store (AmLeader rf)) (\<lambda>leading. if \<not> leading then errP ''not leader''
     else on_store (raft_Apply rf \<lparr>cm_Op = ''set'', cm_Key = sc_ID c, cm_Value = no_entry\<lparr>ent_Speaker := c\<rparr>\<rparr>))"
  "on_store (DeleteZoneConfig rf i) = bindP (on_store (AmLeader rf)) (\<lambda>leading. if \<not> leading then errP ''not leader''
     else on_store (raft_Apply rf \<lparr>cm_Op = ''delete'', cm_Key = i, cm_Value = no_entry\<rparr>))"
  by (auto simp: fun_eq_iff SaveZoneConfig_def SaveSpeakerConfig_def DeleteZoneConfig_def on_store_def bindP_def
      AmLeader_def raft_call_def)

lemma on_store_raft_Apply:
  "on_store (raft_Apply rf c) w =
     (if ds_raft (mw_store w) then
        case ra_Apply rf (ds_now (mw_store w)) c of (err, logs) \<Rightarrow>
          (err, w\<lparr>mw_store := (mw_store w)\<lparr>ds_now := ds_now (mw_store w) + 1, ds_m := fold Apply logs (config_of w)\<rparr>\<rparr>)
      else (Panic nil_deref, w))"
  by (simp add: on_store_def raft_Apply_def raft_call_def commit_def liftR_def bindP_def split: prod.splits)

lemma atomic_saves:
  assumes "fails_cleanly rf"
  shows "atomic (on_store (SaveZoneConfig rf z))" "atomic (on_store (SaveSpeakerConfig rf c))"
    "atomic (on_store (DeleteZoneConfig rf i))"
proof -
  have "atomic (on_store (raft_Apply rf c))" for c
    unfolding atomic_def on_store_raft_Apply
  proof (intro allI impI)
    fix w :: mgmt_world and e
    obtain err logs where out: "ra_Apply rf (ds_now (mw_store w)) c = (err, logs)" by fastforce
    assume "fst (if ds_raft (mw_store w) then case ra_Apply rf (ds_now (mw_store w)) c of (err, logs) \<Rightarrow>
        (err, w\<lparr>mw_store := (mw_store w)\<lparr>ds_now := ds_now (mw_store w) + 1, ds_m := fold Apply logs (config_of w)\<rparr>\<rparr>)
      else (Panic nil_deref, w)) = Err e"
    with out assms have "ds_raft (mw_store w)" "logs = []" by (auto simp: fails_cleanly_def split: if_splits)
    with out show "config_of (snd (if ds_raft (mw_store w) then case ra_Apply rf (ds_now (mw_store w)) c of (err, logs) \<Rightarrow>
        (err, w\<lparr>mw_store := (mw_store w)\<lparr>ds_now := ds_now (mw_store w) + 1, ds_m := fold Apply logs (config_of w)\<rparr>\<rparr>)
      else (Panic nil_deref, w))) = config_of w" by simp
  qed
  moreover have "atomic (errP e :: (mgmt_world, unit) proc)" for e by (intro quiet_atomic quiet_intros)
  ultimately show "atomic (on_store (SaveZoneConfig rf z))" "atomic (on_store (SaveSpeakerConfig rf c))"
    "atomic (on_store (DeleteZoneConfig rf i))"
    by (auto simp: on_store_saves intro!: atomic_bindP quiet_store_reads)
qed

lemma atomic_createZone: "atomic (createZone_leader env n ids)"
proof -
  have "never_err (retP i :: (mgmt_world, string) proc)" for i by (simp add: never_err_def)
  then show ?thesis
    unfolding createZone_leader_def Let_def
    by (intro atomic_bindP quiet_intros never_err_atomic never_err_bindP never_err_fatalP)
qed

lemma atomic_leader_operations:
  assumes "fails_cleanly (me_raft env)"
  shows "atomic (setDisplayName_leader env i n b)" "atomic (addSpeakers_leader env i ids)"
    "atomic (removeSpeakers_leader env i ids)" "atomic (deleteZone_leader env i)" "atomic (changeZoneName_leader env i n)"
proof -
  note saves = atomic_saves [OF assms]
  have ret: "atomic (retP () :: (mgmt_world, unit) proc)" by (intro quiet_atomic quiet_intros)
  show "atomic (setDisplayName_leader env i n b)"
    unfolding setDisplayName_leader_def Let_def
    by (intro atomic_bindP saves quiet_intros) (simp add: quiet_intros split: speaker_reply.splits)
  show "atomic (addSpeakers_leader env i ids)"
    unfolding addSpeakers_leader_def using ret
    by (auto intro!: atomic_with_zone atomic_bindP saves quiet_intros)
  show "atomic (removeSpeakers_leader env i ids)"
    unfolding removeSpeakers_leader_def using ret
    by (auto intro!: atomic_with_zone atomic_bindP saves quiet_intros)
  show "atomic (deleteZone_leader env i)"
    unfolding deleteZone_leader_def by (intro atomic_with_zone atomic_bindP saves quiet_intros)
  show "atomic (changeZoneName_leader env i n)"
    unfolding changeZoneName_leader_def by (intro atomic_with_zone atomic_bindP saves quiet_intros)
qed

section \<open>Zones under their own IDs\<close>

definition zone_keyed :: "config_map \<Rightarrow> bool" where
  "zone_keyed m \<longleftrightarrow> (\<forall>k e. m k = Some e \<longrightarrow> zc_ID (ent_Zone e) \<in> {[], k})"

definition command_keyed :: "command option \<Rightarrow> bool" where
  "command_keyed l \<longleftrightarrow>
     (let c = Unmarshal_command l in cm_Op c = ''set'' \<longrightarrow> zc_ID (ent_Zone (cm_Value c)) \<in> {[], cm_Key c})"

lemma Apply_keyed: "command_keyed l \<Longrightarrow> zone_keyed m \<Longrightarrow> zone_keyed (Apply l m)"
  by (auto simp: Apply_def applySet_def applyDelete_def command_keyed_def zone_keyed_def Let_def split: if_splits)

lemma replay_keyed: "list_all command_keyed ls \<Longrightarrow> zone_keyed m \<Longrightarrow> zone_keyed (fold Apply ls m)"
  by (induction ls arbitrary: m) (auto simp: Apply_keyed)

text \<open>
  The log holds only commands of this program, so the library delivers keyed commands when it is
  given one; and the other management nodes run this program too.
\<close>

definition delivers_keyed :: "mgmt_env \<Rightarrow> bool" where
  "delivers_keyed env \<longleftrightarrow>
     (\<forall>t c. command_keyed (Some c) \<longrightarrow> list_all command_keyed (snd (ra_Apply (me_raft env) t c)))
     \<and> (\<forall>address call. keeps (\<lambda>w. zone_keyed (config_of w)) (me_remote env address call))"

definition keyed :: "mgmt_env \<Rightarrow> mgmt_world \<Rightarrow> bool" where
  "keyed env w \<longleftrightarrow> (delivers_keyed env \<longrightarrow> zone_keyed (config_of w))"

lemma keeps_keyed_quiet: "quiet m \<Longrightarrow> keeps (keyed env) m"
  unfolding keyed_def by (rule quiet_keeps)

lemmas keeps_keyed_steps = quiet_store_reads [THEN keeps_keyed_quiet] quiet_tell [THEN keeps_keyed_quiet]
  quiet_speaker_call [THEN keeps_keyed_quiet] quiet_speaker_steps [THEN keeps_keyed_quiet]
  quiet_rejoin_member [THEN keeps_keyed_quiet] quiet_queries [THEN keeps_keyed_quiet]
  quiet_GetSpeakers [THEN keeps_keyed_quiet]

lemma keeps_keyed_raft:
  "command_keyed (Some c) \<Longrightarrow> keeps (keyed env) (on_store (raft_Apply (me_raft env) c))"
  by (rule keepsI) (auto simp: on_store_raft_Apply keyed_def delivers_keyed_def intro!: replay_keyed split: prod.splits,
      metis snd_conv)

lemma keeps_keyed_saves:
  "keeps (keyed env) (on_store (SaveZoneConfig (me_raft env) z))"
  "keeps (keyed env) (on_store (SaveSpeakerConfig (me_raft env) c))"
  "keeps (keyed env) (on_store (DeleteZoneConfig (me_raft env) i))"
  by (auto simp: on_store_saves command_keyed_def Unmarshal_command_def zero_values
      intro!: keeps_bindP keeps_keyed_raft keeps_keyed_steps)

text \<open>The operations of the leader, those of a node that asks the leader, and the notifications.\<close>

lemma keeps_keyed_ask: "keeps (keyed env) (ask_leader env call)"
proof -
  have "keeps (keyed env) (me_remote env a call)" for a
    by (auto simp: keeps_def keyed_def delivers_keyed_def)
  then show ?thesis
    unfolding ask_leader_def by (intro keeps_bindP keeps_liftR keeps_keyed_steps)
qed

lemma keeps_keyed_with_zone:
  "(\<And>z. keeps (keyed env) (f z)) \<Longrightarrow> keeps (keyed env) (with_zone env p i f)"
  unfolding with_zone_def Let_def
  by (intro keeps_bindP keeps_keyed_steps) auto

lemma keeps_keyed_leader:
  "keeps (keyed env) (setDisplayName_leader env i n b)" "keeps (keyed env) (createZone_leader env n ids)"
  "keeps (keyed env) (addSpeakers_leader env i ids)" "keeps (keyed env) (removeSpeakers_leader env i ids)"
  "keeps (keyed env) (deleteZone_leader env i)" "keeps (keyed env) (changeZoneName_leader env i n)"
  "keeps (keyed env) (promote env z i)"
  unfolding setDisplayName_leader_def createZone_leader_def addSpeakers_leader_def removeSpeakers_leader_def
    deleteZone_leader_def changeZoneName_leader_def promote_def fatalP_def Let_def
  by (intro keeps_bindP keeps_catchP keeps_if keeps_keyed_with_zone keeps_keyed_saves keeps_retP keeps_liftR
      keeps_for_each keeps_keyed_steps; simp split: speaker_reply.splits)+

lemma keeps_keyed_update:
  "keeps (keyed env) m \<Longrightarrow> keeps (keyed env) (update_by_leader env call m)"
  unfolding update_by_leader_def
  by (intro keeps_bindP keeps_keyed_steps) (auto intro!: keeps_bindP keeps_keyed_ask keeps_liftR)

lemma keeps_keyed_service:
  "keeps (keyed env) (SetDisplayName env i n b)" "keeps (keyed env) (AddSpeakersToZone env i ids)"
  "keeps (keyed env) (RemoveSpeakersFromZone env i ids)" "keeps (keyed env) (DeleteZone env i)"
  "keeps (keyed env) (ChangeZoneName env i n)" "keeps (keyed env) (SetMuteForSpeaker env i b)"
  "keeps (keyed env) (CreateZone env n ids)"
  unfolding SetDisplayName_def AddSpeakersToZone_def RemoveSpeakersFromZone_def DeleteZone_def ChangeZoneName_def
    SetMuteForSpeaker_def CreateZone_def
  by (auto intro!: keeps_keyed_update keeps_keyed_leader keeps_bindP keeps_liftR keeps_keyed_steps keeps_keyed_ask)

interpretation mgmt: invariant_service "distributed_service env" "keyed env" for env
  by unfold_locales
    (simp_all add: distributed_service_def keeps_keyed_service keeps_keyed_quiet quiet_queries quiet_GetSpeakers)

lemma keeps_keyed_notifications:
  "keeps (keyed env) (HandleMusicNodeJoin env n)" "keeps (keyed env) (HandleMusicNodeLeave env n)"
  unfolding HandleMusicNodeJoin_def HandleMusicNodeLeave_def fatalP_def
  by (auto intro!: keeps_bindP keeps_catchP keeps_liftR keeps_keyed_leader keeps_keyed_steps split: option.splits list.splits)

text \<open>Under the invariant a zone is found by its ID whatever the order of iteration.\<close>

lemma find_zone_keyed:
  assumes "zone_keyed m" and "range_order ks m" and "m i = Some e" and "zc_ID (ent_Zone e) = i" and "i \<noteq> []"
  shows "find_zone i (zone_configs m ks []) = ent_Zone e"
proof -
  let ?zs = "zone_configs m ks []"
  have zs: "set ?zs = {ent_Zone e |e. e \<in> ran m \<and> zc_ID (ent_Zone e) \<noteq> []}" by (rule set_zone_configs [OF assms(2)])
  have "ent_Zone e \<in> set ?zs" using assms(3-5) by (auto simp: zs ran_def)
  then obtain z where z: "find (\<lambda>z. zc_ID z = i) ?zs = Some z"
    using assms(4) by (cases "find (\<lambda>z. zc_ID z = i) ?zs") (auto simp: find_None_iff)
  then have "z \<in> set ?zs" "zc_ID z = i" by (auto simp: find_Some_iff)
  then obtain e' k where "m k = Some e'" "z = ent_Zone e'" by (auto simp: zs ran_def)
  with \<open>zc_ID z = i\<close> assms(1,3,5) have "e' = e" by (fastforce simp: zone_keyed_def)
  with z \<open>z = ent_Zone e'\<close> show ?thesis by (simp add: find_zone_def)
qed

section \<open>Histories\<close>

text \<open>
  What happens to a management node: a call of the API, or the notification that a music node has
  joined or left, each in an environment of its own; a failure does not stop the next event.
\<close>

datatype mgmt_event = Api_Call mgmt_call | Node_Joined node | Node_Left node

fun handle_event :: "mgmt_env \<Rightarrow> mgmt_event \<Rightarrow> mgmt_world \<Rightarrow> mgmt_world" where
  "handle_event env (Api_Call call) w = snd (serve_mgmt (distributed_service env) call w)"
| "handle_event env (Node_Joined n) w = snd (HandleMusicNodeJoin env n w)"
| "handle_event env (Node_Left n) w = snd (HandleMusicNodeLeave env n w)"

lemma handle_event_keyed: "keyed env w \<Longrightarrow> keyed env (handle_event env ev w)"
  using keepsD [OF mgmt.serve_keeps] keepsD [OF keeps_keyed_notifications(1)] keepsD [OF keeps_keyed_notifications(2)]
  by (cases ev) auto

lemma atomic_answer:
  assumes "atomic m" and "catchP (bindP m (\<lambda>a. retP (f a))) (\<lambda>e. retP (g e)) w = (Ret r, w')" and "\<And>a. r \<noteq> f a"
  shows "config_of w' = config_of w"
proof -
  obtain out w1 where m: "m w = (out, w1)" by (cases "m w")
  with assms(2,3) obtain e where "out = Err e" "w' = w1"
    by (cases out) (auto simp: catchP_def bindP_def)
  with m assms(1) show ?thesis by (metis atomic_def fst_conv snd_conv)
qed

lemma atomic_by_leader:
  assumes "\<And>t. ra_Leading rf t" and "atomic m'"
  shows "atomic (bindP (on_store (AmLeader rf)) (\<lambda>leading. if \<not> leading then m else m'))"
proof -
  have "bindP (on_store (AmLeader rf)) (\<lambda>leading. if \<not> leading then m else m') =
      bindP (on_store (AmLeader rf)) (\<lambda>leading. m')"
    using assms(1) by (auto simp: fun_eq_iff bindP_def on_store_def AmLeader_def raft_call_def)
  then show ?thesis using assms(2) by (auto intro: atomic_bindP quiet_store_reads)
qed

lemma atomic_service:
  assumes "\<And>t. ra_Leading (me_raft env) t" and "fails_cleanly (me_raft env)"
  shows "atomic (SetDisplayName env i n b)" "atomic (CreateZone env n ids)" "atomic (AddSpeakersToZone env i ids)"
    "atomic (RemoveSpeakersFromZone env i ids)" "atomic (DeleteZone env i)" "atomic (ChangeZoneName env i n)"
    "atomic (SetMuteForSpeaker env i b)"
  unfolding SetDisplayName_def CreateZone_def AddSpeakersToZone_def RemoveSpeakersFromZone_def DeleteZone_def
    ChangeZoneName_def SetMuteForSpeaker_def update_by_leader_def
  by (intro atomic_by_leader assms(1) atomic_createZone atomic_leader_operations [OF assms(2)]
      quiet_atomic [OF quiet_queries(5)])+

lemma atomic_update_reply:
  "atomic m \<Longrightarrow> update_reply m w = (Ret r, w') \<Longrightarrow> r \<noteq> UpdateResponse 200 [] \<Longrightarrow> config_of w' = config_of w"
  unfolding update_reply_def by (rule atomic_answer)

lemma quiet_answer: "quiet m \<Longrightarrow> m w = (Ret r, w') \<Longrightarrow> config_of w' = config_of w"
  by (metis quiet_def snd_conv)

lemma quiet_api_queries:
  "quiet (serve_mgmt (distributed_service env) GetSpeakersCall)" "quiet (serve_mgmt (distributed_service env) GetZonesCall)"
  "quiet (serve_mgmt (distributed_service env) (GetTrackCall z i))" "quiet (serve_mgmt (distributed_service env) (GetMuteCall i))"
  unfolding serve_mgmt.simps api_defs distributed_service_def mgmt_service.select_convs by (intro quiet_intros)+

section \<open>Properties\<close>

text \<open>
  C6. Every zone is stored under its own ID, through any history of API calls and of nodes that join
  and leave, with any loss of remote calls, failure of the consensus library and change of
  leadership on the way; therefore a stored zone is found by its ID, in whatever order the map is
  visited.
\<close>

theorem zones_stay_under_their_ids:
  assumes "zone_keyed (config_of w)" and "list_all (\<lambda>(env, ev). delivers_keyed env) history"
    and "w' = fold (\<lambda>(env, ev). handle_event env ev) history w"
  shows "zone_keyed (config_of w')
    \<and> (\<forall>ks i e. range_order ks (config_of w') \<and> config_of w' i = Some e \<and> zc_ID (ent_Zone e) \<noteq> [] \<longrightarrow>
        find_zone i (zone_configs (config_of w') ks []) = ent_Zone e)"
proof -
  have "zone_keyed (config_of w')"
    unfolding assms(3) using assms(1,2)
  proof (induction history arbitrary: w)
    case (Cons h history)
    obtain env ev where h: "h = (env, ev)" by fastforce
    have "zone_keyed (config_of (handle_event env ev w))"
      using handle_event_keyed [of env w ev] Cons.prems by (simp add: keyed_def h)
    with Cons h show ?case by simp
  qed simp
  moreover have "zc_ID (ent_Zone e) = i" if "config_of w' i = Some e" "zc_ID (ent_Zone e) \<noteq> []" for i e
    using calculation that by (auto simp: zone_keyed_def)
  ultimately show ?thesis using find_zone_keyed by metis
qed

text \<open>
  C4. An operation that the API answers with an error has not changed the configuration: the speakers
  come first and the store last, so whatever call is lost or refused on the way, the zones and names
  on record are those from before. For a node that leads, and a consensus library that reports an
  error only for a command it has not applied.
\<close>

theorem failed_call_keeps_configuration:
  assumes "\<And>t. ra_Leading (me_raft env) t" and "fails_cleanly (me_raft env)"
    and "serve_mgmt (distributed_service env) call w = (Ret reply, w')"
    and "reply = UpdateResponse code msg \<or> reply = CreateResponse code msg i" and "code \<noteq> 200"
  shows "config_of w' = config_of w"
proof -
  note atomic = atomic_service [OF assms(1,2)]
  have ne: "reply \<noteq> UpdateResponse 200 []" "\<And>i. reply \<noteq> CreateResponse 200 [] i" using assms(4,5) by auto
  have update: "config_of w' = config_of w"
    if "(if bad then retP no else update_reply m) w = (Ret reply, w')" and "atomic m" for bad no m
    using that ne(1) atomic_update_reply by (auto split: if_splits)
  note called = assms(3) [unfolded distributed_service_def]
  show ?thesis
  proof (cases call)
    case (CreateZoneCall q)
    with called show ?thesis
      using atomic_answer [OF atomic(2) _ ne(2)] by (simp add: api_CreateZone_def)
  next
    case (SetDisplayNameCall i n b)
    with called show ?thesis
      using atomic_update_reply [OF atomic(1) _ ne(1)] by (simp add: api_SetDisplayNameForSpeaker_def)
  next
    case (AddSpeakersCall q)
    with called show ?thesis
      by (intro update [OF _ atomic(3)]) (simp only: serve_mgmt.simps api_AddSpeakersToZone_def mgmt_service.select_convs)
  next
    case (RemoveSpeakersCall q)
    with called show ?thesis
      by (intro update [OF _ atomic(4)]) (simp only: serve_mgmt.simps api_RemoveSpeakersFromZone_def mgmt_service.select_convs)
  next
    case (DeleteZoneCall q)
    with called show ?thesis
      by (intro update [OF _ atomic(5)]) (simp only: serve_mgmt.simps api_DeleteZone_def mgmt_service.select_convs)
  next
    case (ChangeZoneNameCall q)
    with called show ?thesis
      by (intro update [OF _ atomic(6)]) (simp only: serve_mgmt.simps api_ChangeZoneName_def mgmt_service.select_convs)
  next
    case (SetMuteCall i b)
    with called show ?thesis
      by (intro update [OF _ atomic(7)]) (simp only: serve_mgmt.simps api_SetMuteForSpeaker_def mgmt_service.select_convs)
  qed (use quiet_api_queries [of env] quiet_answer [of "serve_mgmt (distributed_service env) call", OF _ assms(3)] in simp_all)
qed

text \<open>A cluster for the witnesses: the given speakers, each at an address that is its name.\<close>

definition zone_node :: "string \<Rightarrow> node" where
  "zone_node name = (music_node name)\<lparr>nd_Addr := name\<rparr>"

definition sample_env :: "string list \<Rightarrow> mgmt_env" where
  "sample_env names =
     \<lparr>me_members = map zone_node names, me_raft = sample_raft,
      me_order = (\<lambda>m. if m ''17'' = None then [] else [''17'']),
      me_route = (\<lambda>address. Some (takeWhile (\<lambda>c. c \<noteq> CHR '':'') address)), me_hosts = (\<lambda>name. sample_host),
      me_fault = (\<lambda>t. Delivered), me_dial = (\<lambda>address. Ret ()), me_rtsp = (\<lambda>address port. Ret ''10.0.0.2''),
      me_random = 17, me_now = 77, me_resolve = (\<lambda>leader. None), me_addrs = Ret [], me_errorf = (\<lambda>s. s),
      me_remote = (\<lambda>address call. retP (UpdateResponse 500 ''not leader''))\<rparr>"

definition sample_world :: "string list \<Rightarrow> mgmt_world" where
  "sample_world names =
     NewDistributedMgmtService ((NewDistributedStore ''m1'' 4000 ''data'')\<lparr>ds_raft := True\<rparr>)
       (\<lambda>name. if name \<in> set names then Some (sample_speaker name (map zone_node names)) else None)"

lemma sample_leads: "ra_Leading (me_raft (sample_env names)) t"
  by (simp add: sample_env_def sample_raft_def)

theorem zones_stay_under_their_ids_witness:
  "zone_keyed (config_of (fold (\<lambda>(env, ev). handle_event env ev)
     [(sample_env [''den''], Api_Call (CreateZoneCall \<lparr>zq_ZoneId = [], zq_DisplayName = ''Up'', zq_SpeakerIds = [''den'']\<rparr>)),
      (sample_env [], Node_Left (zone_node ''den''))] (sample_world [''den''])))"
proof -
  have "zone_keyed (config_of (sample_world [''den'']))"
    by (simp add: sample_world_def NewDistributedMgmtService_def NewDistributedStore_def zone_keyed_def)
  moreover have "delivers_keyed (sample_env ns)" for ns
    by (auto simp: delivers_keyed_def sample_env_def sample_raft_def)
  ultimately show ?thesis
    using zones_stay_under_their_ids [OF _ _ refl, of "sample_world [''den'']"
        "[(sample_env [''den''], Api_Call (CreateZoneCall \<lparr>zq_ZoneId = [], zq_DisplayName = ''Up'', zq_SpeakerIds = [''den'']\<rparr>)),
          (sample_env [], Node_Left (zone_node ''den''))]"] by simp
qed

theorem failed_call_keeps_configuration_witness:
  "\<exists>msg w'. serve_mgmt (distributed_service (sample_env [''den'']))
      (CreateZoneCall \<lparr>zq_ZoneId = [], zq_DisplayName = ''Up'', zq_SpeakerIds = [''attic'']\<rparr>) (sample_world [''den'']) =
      (Ret (CreateResponse 500 msg []), w') \<and> config_of w' = config_of (sample_world [''den''])"
proof -
  let ?env = "sample_env [''den'']" and ?q = "\<lparr>zq_ZoneId = [], zq_DisplayName = ''Up'', zq_SpeakerIds = [''attic'']\<rparr>"
  have "getSpeakerClient ?env ''attic'' = Err ''could not find speaker with id: attic''"
    by (simp add: getSpeakerClient_def sample_env_def speaker_filter_def zone_node_def music_node_def DecodeNodeMeta_def)
  then have "\<exists>w'. serve_mgmt (distributed_service ?env) (CreateZoneCall ?q) (sample_world [''den'']) =
      (Ret (CreateResponse 500 ''could not find speaker with id: attic'' []), w')"
    by (simp add: api_CreateZone_def distributed_service_def CreateZone_def createZone_leader_def prepare_speaker_def
        on_store_def AmLeader_def raft_call_def sample_world_def NewDistributedMgmtService_def bindP_def catchP_def liftR_def
        sample_leads Let_def)
  then obtain w' where w': "serve_mgmt (distributed_service ?env) (CreateZoneCall ?q) (sample_world [''den'']) =
      (Ret (CreateResponse 500 ''could not find speaker with id: attic'' []), w')" by (elim exE) (rule that)
  have "fails_cleanly (me_raft ?env)"
    by (simp add: sample_env_def sample_raft_def fails_cleanly_def)
  then have "config_of w' = config_of (sample_world [''den''])"
    by (rule failed_call_keeps_configuration [OF sample_leads _ w',
          of 500 "''could not find speaker with id: attic''" "[]"]) simp_all
  with w' show ?thesis by (intro exI conjI)
qed

end
