(* ===== verification/Mgmt_Zones.thy ===== *)
theory Mgmt_Zones
  imports Mgmt_Invariant
begin

text \<open>
  What the management service does to a healthy cluster.

  The abstract state is what can be told about each speaker (\<open>view\<close>) and the configuration map.
  \<open>runs env a m r a'\<close> says that in every healthy world whose abstract state is \<open>a\<close> the operation \<open>m\<close>
  returns \<open>r\<close> and leaves a healthy world with abstract state \<open>a'\<close>; the rules below compose such
  statements along the code, and each operation of the service gets one.
\<close>

section \<open>Healthy clusters\<close>

definition music_names :: "mgmt_env \<Rightarrow> string set" where
  "music_names env = {nd_Name n |n. n \<in> set (me_members env) \<and> has_type Music n}"

definition others :: "mgmt_env \<Rightarrow> string \<Rightarrow> string set" where
  "others env name = music_names env - {name}"

text \<open>
  The members' metadata decodes and their names are distinct; every music node can be reached at the
  addresses it announces and runs a healthy speaker that knows the same members; no remote call is
  lost; this node leads, and the consensus library applies every command.
\<close>

definition reachable :: "mgmt_env \<Rightarrow> node \<Rightarrow> node_meta \<Rightarrow> bool" where
  "reachable env n meta \<longleftrightarrow> me_dial env (api_address n meta) = Ret ()
     \<and> me_route env (api_address n meta) = Some (nd_Name n)
     \<and> me_route env (rtsp_address n meta) = Some (nd_Name n)
     \<and> is_ret (me_rtsp env (nd_Addr n) (nm_RtspPort meta))"

definition healthy_env :: "mgmt_env \<Rightarrow> bool" where
  "healthy_env env \<longleftrightarrow> list_all (\<lambda>n. nd_Meta n \<noteq> None) (me_members env) \<and> distinct (map nd_Name (me_members env))
     \<and> (\<forall>n meta. n \<in> set (me_members env) \<and> nd_Meta n = Some meta \<and> has_type Music n \<longrightarrow> reachable env n meta)
     \<and> (\<forall>t. me_fault env t = Delivered) \<and> (\<forall>t. ra_Leading (me_raft env) t)
     \<and> (\<forall>t c. ra_Apply (me_raft env) t c = (Ret (), [Some c]))"

definition healthy :: "mgmt_env \<Rightarrow> mgmt_world \<Rightarrow> bool" where
  "healthy env w \<longleftrightarrow> healthy_env env \<and> ds_raft (mw_store w)
     \<and> (\<forall>name \<in> music_names env. \<exists>s. mw_speakers w name = Some s \<and> speaker_ok (me_hosts env name) s
          \<and> speaker_reach s = others env name)"

type_synonym zone_state = "(string \<Rightarrow> view option) \<times> config_map"

definition views :: "mgmt_world \<Rightarrow> string \<Rightarrow> view option" where
  "views w name = map_option speaker_view (mw_speakers w name)"

definition zone_state :: "mgmt_world \<Rightarrow> zone_state" where
  "zone_state w = (views w, ds_m (mw_store w))"

definition runs :: "mgmt_env \<Rightarrow> zone_state \<Rightarrow> (mgmt_world, 'a) proc \<Rightarrow> 'a \<Rightarrow> zone_state \<Rightarrow> bool" where
  "runs env a m r a' \<longleftrightarrow>
     (\<forall>w. healthy env w \<and> zone_state w = a \<longrightarrow> (\<exists>w'. m w = (Ret r, w') \<and> healthy env w' \<and> zone_state w' = a'))"

lemma runsI:
  "(\<And>w. healthy env w \<Longrightarrow> zone_state w = a \<Longrightarrow> \<exists>w'. m w = (Ret r, w') \<and> healthy env w' \<and> zone_state w' = a')
    \<Longrightarrow> runs env a m r a'"
  by (simp add: runs_def)

lemma runsD:
  "runs env (zone_state w) m r a' \<Longrightarrow> healthy env w \<Longrightarrow> \<exists>w'. m w = (Ret r, w') \<and> healthy env w' \<and> zone_state w' = a'"
  by (simp add: runs_def)

lemma runs_retP [intro]: "runs env a (retP r) r a"
  by (rule runsI) auto

lemma runs_bindP [intro]: "runs env a m r a1 \<Longrightarrow> runs env a1 (f r) r' a2 \<Longrightarrow> runs env a (bindP m f) r' a2"
  by (fastforce simp: runs_def bindP_def)

lemma runs_liftR [intro]: "runs env a (liftR (Ret r)) r a"
  by (rule runsI) (auto simp: liftR_def)

lemma runs_catchP [intro]: "runs env a m r a' \<Longrightarrow> runs env a (catchP m f) r a'"
  by (fastforce simp: runs_def catchP_def)

lemma runs_fatalP [intro]: "runs env a m r a' \<Longrightarrow> runs env a (fatalP m) r a'"
  by (auto simp: fatalP_def)

text \<open>The same for an operation that returns an error.\<close>

definition fails :: "mgmt_env \<Rightarrow> zone_state \<Rightarrow> (mgmt_world, 'a) proc \<Rightarrow> string \<Rightarrow> zone_state \<Rightarrow> bool" where
  "fails env a m e a' \<longleftrightarrow>
     (\<forall>w. healthy env w \<and> zone_state w = a \<longrightarrow> (\<exists>w'. m w = (Err e, w') \<and> healthy env w' \<and> zone_state w' = a'))"

lemma fails_later: "runs env a m r a1 \<Longrightarrow> fails env a1 (f r) e a2 \<Longrightarrow> fails env a (bindP m f) e a2"
  unfolding runs_def fails_def bindP_def by fastforce

lemma fails_first: "fails env a m e a' \<Longrightarrow> fails env a (bindP m f) e a'"
  unfolding fails_def bindP_def by fastforce

lemma fails_liftR: "fails env a (liftR (Err e)) e a"
  by (simp add: fails_def liftR_def)

lemma for_each_map: "for_each f (map g xs) = for_each (\<lambda>x. f (g x)) xs"
  by (induction xs) simp_all

text \<open>
  A loop over speakers whose body changes the view of one speaker, in a way that doing twice does
  not change: it changes the views of all of them, in any order.
\<close>

definition at_each :: "(string \<Rightarrow> view \<Rightarrow> view) \<Rightarrow> string set \<Rightarrow> (string \<Rightarrow> view option) \<Rightarrow> string \<Rightarrow> view option" where
  "at_each h X vs = (\<lambda>n. if n \<in> X then map_option (h n) (vs n) else vs n)"

lemma at_each_empty [simp]: "at_each h {} vs = vs"
  by (simp add: at_each_def)

lemma at_each_insert:
  "(\<And>v. h x (h x v) = h x v) \<Longrightarrow> at_each h X (at_each h {x} vs) = at_each h (insert x X) vs"
  by (auto simp: at_each_def fun_eq_iff option.map_comp comp_def)

lemma at_each_id: "(\<And>v. h x v = v) \<Longrightarrow> at_each h {x} vs = vs"
  by (cases "vs x") (auto simp: at_each_def)

lemma runs_for_each:
  assumes "\<And>x vs. x \<in> set xs \<Longrightarrow> runs env (vs, m) (f x) () (at_each h {x} vs, m)"
    and "\<And>x v. h x (h x v) = h x v"
  shows "runs env (vs, m) (for_each f xs) () (at_each h (set xs) vs, m)"
  using assms(1)
proof (induction xs arbitrary: vs)
  case (Cons x xs)
  have "runs env (at_each h {x} vs, m) (for_each f xs) () (at_each h (set xs) (at_each h {x} vs), m)"
    using Cons by simp
  then show ?case using Cons.prems by (auto simp: at_each_insert assms(2))
qed auto

section \<open>Speakers in a healthy cluster\<close>

definition address_of :: "mgmt_env \<Rightarrow> string \<Rightarrow> string" where
  "address_of env name =
     (case find (\<lambda>n. nd_Name n = name) (me_members env) of
        None \<Rightarrow> [] | Some n \<Rightarrow> api_address n (the (nd_Meta n)))"

abbreviation told :: "mgmt_env \<Rightarrow> string \<Rightarrow> speaker_request \<Rightarrow> (string \<Rightarrow> view option) \<Rightarrow> string \<Rightarrow> view option" where
  "told env name q \<equiv> at_each (\<lambda>n. view_after (others env n) q) {name}"

lemma filter_res_eq:
  "list_all (\<lambda>n. nd_Meta n \<noteq> None) ns \<Longrightarrow>
   filter_res (speaker_filter name) ns acc = Ret (acc @ filter (\<lambda>n. has_type Music n \<and> name = nd_Name n) ns)"
  by (induction ns arbitrary: acc)
    (auto simp: speaker_filter_def DecodeNodeMeta_def has_type_def split: option.splits)

lemma filter_unique:
  "distinct (map f xs) \<Longrightarrow> x \<in> set xs \<Longrightarrow> P x \<Longrightarrow> filter (\<lambda>y. P y \<and> f x = f y) xs = [x]"
proof (induction xs)
  case (Cons y ys)
  have "filter (\<lambda>z. P z \<and> f x = f z) ys = []" if "x = y"
    using that Cons.prems(1) by (auto simp: filter_empty_conv)
  moreover have "f x \<noteq> f y" if "x \<noteq> y" using that Cons.prems(1,2) by (metis distinct.simps(2) imageI list.simps(9) list.set_map set_ConsD)
  ultimately show ?case using Cons by (cases "x = y") auto
qed simp

lemma find_unique: "distinct (map f xs) \<Longrightarrow> x \<in> set xs \<Longrightarrow> find (\<lambda>y. f y = f x) xs = Some x"
  by (induction xs) (auto simp: image_iff)

lemma music_speakers:
  assumes "healthy_env env" and "name \<in> music_names env"
  obtains n meta where "n \<in> set (me_members env)" "nd_Meta n = Some meta" "has_type Music n" "nd_Name n = name"
    "filter_res (speaker_filter name) (me_members env) [] = Ret [n]" "reachable env n meta"
    "address_of env name = api_address n meta"
proof -
  from assms(2) obtain n where n: "n \<in> set (me_members env)" "has_type Music n" "nd_Name n = name"
    by (auto simp: music_names_def)
  then obtain meta where meta: "nd_Meta n = Some meta" by (auto simp: has_type_def split: option.splits)
  have ok: "list_all (\<lambda>n. nd_Meta n \<noteq> None) (me_members env)" "distinct (map nd_Name (me_members env))"
    using assms(1) by (auto simp: healthy_env_def)
  have "filter_res (speaker_filter name) (me_members env) [] = Ret [n]"
    using filter_res_eq [OF ok(1), of name "[]"] filter_unique [OF ok(2) n(1), of "has_type Music"] n by simp
  moreover have "address_of env name = api_address n meta"
    using find_unique [OF ok(2) n(1)] n(3) meta by (simp add: address_of_def)
  moreover have "reachable env n meta" using assms(1) n meta by (simp add: healthy_env_def)
  ultimately show ?thesis using that n meta by blast
qed

lemma getSpeakerClient_eq:
  assumes "healthy_env env" and "name \<in> music_names env"
  shows "getSpeakerClient env name = Ret (address_of env name)"
  using assms by (rule music_speakers) (simp add: getSpeakerClient_def DecodeNodeMeta_def reachable_def)

lemma getSpeakerClient_none:
  assumes "healthy_env env" and "name \<notin> music_names env"
  shows "getSpeakerClient env name = Err (''could not find speaker with id: '' @ name)"
proof -
  have "filter (\<lambda>n. has_type Music n \<and> name = nd_Name n) (me_members env) = []"
    using assms(2) by (auto simp: filter_empty_conv music_names_def)
  then show ?thesis
    using assms(1) filter_res_eq [of "me_members env" name "[]"] by (simp add: getSpeakerClient_def healthy_env_def)
qed

lemma healthy_tell:
  assumes "healthy env w" and "name \<in> music_names env"
  shows "\<exists>w' v. speaker_call env (address_of env name) q w = (Ret (reply_after q v), w') \<and> views w name = Some v
    \<and> healthy env w' \<and> zone_state w' = (told env name q (views w), ds_m (mw_store w))"
proof -
  have henv: "healthy_env env" using assms(1) by (simp add: healthy_def)
  obtain s where s: "mw_speakers w name = Some s" "speaker_ok (me_hosts env name) s" "speaker_reach s = others env name"
    using assms by (auto simp: healthy_def)
  from serve_speaker_view [OF s(2), of q] obtain s' where
    s': "serve_speaker (me_hosts env name) q s = (Ret (reply_after q (speaker_view s)), s')" "speaker_ok (me_hosts env name) s'"
      "speaker_reach s' = others env name" "speaker_view s' = view_after (others env name) q (speaker_view s)"
    using s(3) by auto
  have "me_route env (address_of env name) = Some name"
    by (rule music_speakers [OF henv assms(2)]) (simp add: reachable_def)
  moreover have "me_fault env (mw_calls w) = Delivered" using henv by (simp add: healthy_env_def)
  ultimately have call: "speaker_call env (address_of env name) q w = (Ret (reply_after q (speaker_view s)),
      w\<lparr>mw_calls := mw_calls w + 1, mw_speakers := (mw_speakers w)(name \<mapsto> s')\<rparr>)"
    by (simp add: speaker_call_def at_speaker_def s(1) s'(1))
  show ?thesis
    unfolding call using assms s s'
    by (auto simp: healthy_def zone_state_def views_def at_each_def fun_eq_iff)
qed

lemma runs_tell [intro]:
  assumes "name \<in> music_names env"
  shows "runs env (vs, m) (tell env (address_of env name) q) () (told env name q vs, m)"
proof (rule runsI)
  fix w assume w: "healthy env w" "zone_state w = (vs, m)"
  from healthy_tell [OF w(1) assms, of q] w(2) show
    "\<exists>w'. tell env (address_of env name) q w = (Ret (), w') \<and> healthy env w' \<and> zone_state w' = (told env name q vs, m)"
    by (auto simp: tell_def bindP_def zone_state_def)
qed

lemma runs_client:
  assumes "healthy_env env" and "name \<in> music_names env" and "runs env a (f (address_of env name)) r a'"
  shows "runs env a (bindP (liftR (getSpeakerClient env name)) f) r a'"
  using assms(3) by (auto simp: getSpeakerClient_eq [OF assms(1,2)])

section \<open>The store in a healthy cluster\<close>

lemma runs_AmLeader: "runs env a (on_store (AmLeader (me_raft env))) True a"
  by (rule runsI)
    (auto simp: on_store_def AmLeader_def raft_call_def healthy_def healthy_env_def zone_state_def views_def)

lemma runs_by_leader:
  assumes "runs env a m r a'"
  shows "runs env a (bindP (on_store (AmLeader (me_raft env))) (\<lambda>leading. if \<not> leading then m' else m)) r a'"
  using runs_bindP [OF runs_AmLeader, where f = "\<lambda>leading. if \<not> leading then m' else m"] assms by auto

lemma runs_GetSpeakerConfig:
  "runs env (vs, m) (on_store (GetSpeakerConfig ID)) (ent_Speaker (case m ID of None \<Rightarrow> no_entry | Some e \<Rightarrow> e)) (vs, m)"
  by (rule runsI) (auto simp: on_store_def GetSpeakerConfig_def healthy_def zone_state_def views_def)

lemma runs_saves:
  shows "runs env (vs, m) (on_store (SaveZoneConfig (me_raft env) z)) () (vs, m(zc_ID z \<mapsto> no_entry\<lparr>ent_Zone := z\<rparr>))"
    and "runs env (vs, m) (on_store (SaveSpeakerConfig (me_raft env) c)) () (vs, m(sc_ID c \<mapsto> no_entry\<lparr>ent_Speaker := c\<rparr>))"
    and "runs env (vs, m) (on_store (DeleteZoneConfig (me_raft env) i)) () (vs, m(i := None))"
  by (rule runsI; auto simp: on_store_def save_defs healthy_def healthy_env_def zone_state_def views_def
      Apply_def Unmarshal_command_def applySet_def applyDelete_def)+

lemma runs_zone_configs:
  "runs env (vs, m) (zone_configs_of env) (zone_configs m (me_order env m) []) (vs, m)"
  by (rule runsI)
    (auto simp: zone_configs_of_def on_store_def GetZoneConfigs_def healthy_def zone_state_def views_def)

lemma runs_with_zone:
  assumes "find_zone zoneID (zone_configs m (me_order env m) []) = zone" and "zc_ID zone \<noteq> []"
    and "runs env (vs, m) (f zone) r a'"
  shows "runs env (vs, m) (with_zone env prefix zoneID f) r a'"
  unfolding with_zone_def
  by (rule runs_bindP [OF runs_zone_configs]) (use assms in \<open>simp add: Let_def\<close>)

lemma runs_GetSpeakers:
  assumes "healthy_env env"
  shows "\<exists>infos. runs env (vs, m) (GetSpeakers env) infos (vs, m) \<and> set (map si_ID infos) = music_names env"
proof -
  let ?infos = "\<lambda>st. map (speaker_info_of st) (filter (has_type Music) (me_members env))"
  have ids: "map si_ID (?infos st) = map nd_Name (filter (has_type Music) (me_members env))" for st
    by (simp add: speaker_info_of_def Let_def comp_def)
  have same: "?infos st = ?infos st'" if "ds_m st = ds_m st'" for st st'
    using that by (simp add: speaker_info_of_def)
  have run: "GetSpeakers env w = (Ret (?infos (mw_store w)), w)" for w
    using assms by (simp add: GetSpeakers_def FilterMembers_eq healthy_env_def bindP_def liftR_def)
  let ?st = "(NewDistributedStore [] 0 [])\<lparr>ds_m := m\<rparr>"
  have "runs env (vs, m) (GetSpeakers env) (?infos ?st) (vs, m)"
  proof (rule runsI)
    fix w assume "healthy env w" and w: "zone_state w = (vs, m)"
    have "?infos (mw_store w) = ?infos ?st" by (rule same) (use w in \<open>simp add: zone_state_def\<close>)
    with \<open>healthy env w\<close> w show "\<exists>w'. GetSpeakers env w = (Ret (?infos ?st), w') \<and> healthy env w' \<and> zone_state w' = (vs, m)"
      by (simp only: run) blast
  qed
  moreover have "set (map si_ID (?infos ?st)) = music_names env"
    unfolding ids by (auto simp: music_names_def)
  ultimately show ?thesis by blast
qed

lemma runs_removeFromAllSpeakers:
  assumes "healthy_env env"
  shows "runs env (vs, m) (removeFromAllSpeakers env ids) ()
    (at_each (\<lambda>n. view_after (others env n) (RemoveForwardRequest ids False)) (music_names env) vs, m)"
proof -
  obtain infos where infos: "runs env (vs, m) (GetSpeakers env) infos (vs, m)" "set (map si_ID infos) = music_names env"
    using runs_GetSpeakers [OF assms] by blast
  let ?body = "\<lambda>i. bindP (liftR (getSpeakerClient env i)) (\<lambda>client. tell env client (RemoveForwardRequest ids False))"
  have "runs env (vs, m) (for_each ?body (map si_ID infos)) ()
      (at_each (\<lambda>n. view_after (others env n) (RemoveForwardRequest ids False)) (set (map si_ID infos)) vs, m)"
    by (rule runs_for_each) (use infos(2) in \<open>auto intro!: runs_client assms\<close>)
  then show ?thesis
    unfolding removeFromAllSpeakers_def infos(2) for_each_map by (rule runs_bindP [OF infos(1)])
qed

section \<open>Creating a zone\<close>

lemma at_each_at_each: "at_each g X (at_each h X vs) = at_each (\<lambda>n v. g n (h n v)) X vs"
  by (auto simp: at_each_def fun_eq_iff option.map_comp comp_def)

lemma at_each_cong: "(\<And>n v. n \<in> X \<Longrightarrow> g n v = h n v) \<Longrightarrow> at_each g X vs = at_each h X vs"
  by (auto simp: at_each_def fun_eq_iff intro: option.map_cong)

lemma runs_tells:
  assumes "healthy_env env" and "name \<in> music_names env"
  shows "runs env (vs, m) (for_each (tell env (address_of env name)) qs) ()
    (at_each (\<lambda>n. fold (view_after (others env n)) qs) {name} vs, m)"
proof (induction qs arbitrary: vs)
  case Nil
  have "at_each (\<lambda>n. fold (view_after (others env n)) []) {name} vs = vs"
    by (auto simp: at_each_def option.map_id)
  then show ?case by (simp only: for_each.simps runs_retP)
next
  case (Cons q qs)
  have eq: "at_each (\<lambda>n. fold (view_after (others env n)) (q # qs)) {name} vs =
      at_each (\<lambda>n. fold (view_after (others env n)) qs) {name} (told env name q vs)"
    unfolding at_each_at_each by (rule at_each_cong) simp
  show ?case
    unfolding eq for_each.simps by (rule runs_bindP [OF runs_tell [OF assms(2)] Cons.IH])
qed

lemma runs_instruct:
  assumes "healthy_env env" and "name \<in> music_names env"
    and "\<And>client. f client = for_each (tell env client) qs"
  shows "runs env (vs, m) (bindP (liftR (getSpeakerClient env name)) f) ()
    (at_each (\<lambda>n. fold (view_after (others env n)) qs) {name} vs, m)"
  using runs_tells [OF assms(1,2)] by (intro runs_client assms) (simp add: assms(3))

text \<open>The view of a zone's speaker, and of any other, after the zone was created.\<close>

definition in_zone :: "string \<Rightarrow> string \<Rightarrow> string \<Rightarrow> view \<Rightarrow> view" where
  "in_zone displayName leader n v =
     v\<lparr>vw_name := (if n = leader \<and> TrimSpace displayName \<noteq> [] then TrimSpace displayName else vw_name v),
       vw_advertised := (n = leader), vw_sessions := {}\<rparr>"

definition zone_formed :: "string \<Rightarrow> string list \<Rightarrow> string \<Rightarrow> view \<Rightarrow> view" where
  "zone_formed displayName ids n v =
     (if n \<in> set ids then
        (in_zone displayName (hd ids) n v)
          \<lparr>vw_pending := vw_pending v \<union> (if n = hd ids then set ids - {n} else {})\<rparr>
      else v\<lparr>vw_sessions := vw_sessions v - set ids\<rparr>)"

lemma runs_prepare_speaker:
  assumes "healthy_env env" and "name \<in> music_names env"
  shows "runs env (vs, m) (prepare_speaker env zc name) ()
    (at_each (in_zone (zc_DisplayName zc) (zc_Leader zc)) {name} vs, m)"
proof -
  let ?qs = "RemoveForwardRequest [] True # (if name \<noteq> zc_Leader zc then [BroadcastRequest False]
    else [NameChangeRequest (zc_DisplayName zc), BroadcastRequest True])"
  have "runs env (vs, m) (prepare_speaker env zc name) () (at_each (\<lambda>n. fold (view_after (others env n)) ?qs) {name} vs, m)"
    unfolding prepare_speaker_def by (rule runs_instruct [OF assms]) (simp add: bindP_unit)
  moreover have "at_each (\<lambda>n. fold (view_after (others env n)) ?qs) {name} vs =
      at_each (in_zone (zc_DisplayName zc) (zc_Leader zc)) {name} vs"
    by (rule at_each_cong) (auto simp: in_zone_def)
  ultimately show ?thesis by simp
qed

lemma runs_createZone:
  assumes env: "healthy_env env" and ids: "set ids \<subseteq> music_names env" "ids \<noteq> []"
  shows "runs env (vs, m) (createZone_leader env displayName ids) (Itoa (me_random env))
    (at_each (zone_formed displayName ids) (music_names env) vs,
     m(Itoa (me_random env) \<mapsto> no_entry\<lparr>ent_Zone := new_zone env displayName ids\<rparr>))"
proof -
  let ?zc = "new_zone env displayName ids" and ?l = "hd ids"
  have zc: "zc_Leader ?zc = ?l" "zc_DisplayName ?zc = displayName" "zc_ID ?zc = Itoa (me_random env)"
    using ids(2) by (simp_all add: new_zone_def)
  have l: "?l \<in> music_names env" using ids by auto
  let ?vs1 = "at_each (in_zone displayName ?l) (set ids) vs"
  let ?vs2 = "at_each (\<lambda>n. view_after (others env n) (RemoveForwardRequest ids False)) (music_names env) ?vs1"
  let ?q = "ForwardRequest (filter (\<lambda>v. v \<noteq> ?l) ids)"
  have sets: "{x \<in> set ids. x \<noteq> ?l} \<inter> (music_names env - {?l}) = set ids - {?l}" "?l \<in> set ids"
    "\<And>x. x \<notin> set ids \<Longrightarrow> set ids \<inter> (music_names env - {x}) = set ids" "\<And>x. x \<in> set ids \<Longrightarrow> x \<in> music_names env"
    using ids by auto
  have "runs env (vs, m) (for_each (prepare_speaker env ?zc) ids) () (?vs1, m)"
    using ids(1) runs_prepare_speaker [OF env, of _ _ _ ?zc] by (intro runs_for_each) (auto simp: zc in_zone_def)
  moreover have "runs env (?vs1, m) (removeFromAllSpeakers env ids) () (?vs2, m)"
    by (rule runs_removeFromAllSpeakers [OF env])
  moreover have "runs env (?vs2, m) (bindP (liftR (getSpeakerClient env ?l)) (\<lambda>client. tell env client ?q)) ()
      (told env ?l ?q ?vs2, m)"
    by (rule runs_client [OF env l]) (rule runs_tell [OF l])
  moreover have "told env ?l ?q ?vs2 = at_each (zone_formed displayName ids) (music_names env) vs"
  proof
    fix n
    consider "vs n = None" | v where "vs n = Some v" "n = ?l" | v where "vs n = Some v" "n \<noteq> ?l" "n \<in> set ids"
      | v where "vs n = Some v" "n \<notin> set ids" "n \<noteq> ?l" using sets(2) by (cases "vs n") auto
    then show "told env ?l ?q ?vs2 n = at_each (zone_formed displayName ids) (music_names env) vs n"
      by cases (simp_all add: at_each_def zone_formed_def in_zone_def others_def l sets, auto)
  qed
  ultimately show ?thesis
    using runs_saves(1) [of env "at_each (zone_formed displayName ids) (music_names env) vs" m ?zc] ids(2)
    by (auto simp: createZone_leader_def zc Let_def intro!: runs_bindP [where r = "()"])
qed

section \<open>Changing a zone\<close>

text \<open>A step that ends with a call to the leader of the zone and a change of the configuration.\<close>

lemma runs_leader_then:
  assumes "healthy_env env" and "l \<in> music_names env" and "\<And>client. f client = bindP (tell env client q) (\<lambda>_. save)"
    and "runs env (told env l q vs, m) save r a'"
  shows "runs env (vs, m) (bindP (liftR (getSpeakerClient env l)) f) r a'"
  by (rule runs_client [OF assms(1,2)]) (unfold assms(3), rule runs_bindP [OF runs_tell [OF assms(2)] assms(4)])

definition added :: "string \<Rightarrow> string \<Rightarrow> view \<Rightarrow> view" where
  "added leader n v = (if n = leader then v else v\<lparr>vw_advertised := False, vw_sessions := {}\<rparr>)"

definition speakers_added :: "string \<Rightarrow> string list \<Rightarrow> string \<Rightarrow> view \<Rightarrow> view" where
  "speakers_added leader ids n v =
     (if n = leader then v\<lparr>vw_sessions := vw_sessions v - (set ids - {n}), vw_pending := vw_pending v \<union> (set ids - {n})\<rparr>
      else if n \<in> set ids then v\<lparr>vw_advertised := False, vw_sessions := {}\<rparr>
      else v\<lparr>vw_sessions := vw_sessions v - set ids\<rparr>)"

lemma runs_add_speaker:
  assumes "healthy_env env" and "name \<in> music_names env"
  shows "runs env (vs, m) (add_speaker env zone name) () (at_each (added (zc_Leader zone)) {name} vs, m)"
proof (cases "name = zc_Leader zone")
  case True
  then have "at_each (added (zc_Leader zone)) {name} vs = vs" by (simp add: at_each_id added_def)
  with True show ?thesis by (simp add: add_speaker_def runs_def)
next
  case False
  let ?qs = "[RemoveForwardRequest [] True, BroadcastRequest False]"
  have "at_each (added (zc_Leader zone)) {name} vs = at_each (\<lambda>n. fold (view_after (others env n)) ?qs) {name} vs"
    by (rule at_each_cong) (use False in \<open>auto simp: added_def\<close>)
  with False show ?thesis
    using runs_instruct [OF assms, of _ ?qs] by (simp add: add_speaker_def bindP_unit)
qed

lemma runs_addSpeakers:
  assumes env: "healthy_env env" and ids: "set ids \<subseteq> music_names env" "ids \<noteq> []"
    and zone: "find_zone zoneID (zone_configs m (me_order env m) []) = zone" "zc_ID zone \<noteq> []"
    and l: "zc_Leader zone \<in> music_names env"
  shows "runs env (vs, m) (addSpeakers_leader env zoneID ids) ()
    (at_each (speakers_added (zc_Leader zone) ids) (music_names env) vs,
     m(zc_ID zone \<mapsto> no_entry\<lparr>ent_Zone := zone\<lparr>zc_Speakers := zc_Speakers zone @ ids\<rparr>\<rparr>))"
proof -
  let ?l = "zc_Leader zone" and ?z = "zone\<lparr>zc_Speakers := zc_Speakers zone @ ids\<rparr>"
  let ?vs1 = "at_each (added ?l) (set ids) vs"
  let ?vs2 = "at_each (\<lambda>n. view_after (others env n) (RemoveForwardRequest ids False)) (music_names env) ?vs1"
  have sets: "set ids \<inter> (music_names env - {x}) = set ids - {x}" for x using ids(1) by auto
  have sub: "x \<in> set ids \<Longrightarrow> x \<in> music_names env" for x using ids(1) by auto
  have "runs env (vs, m) (for_each (add_speaker env zone) ids) () (?vs1, m)"
    using ids(1) runs_add_speaker [OF env, of _ _ _ zone] by (intro runs_for_each) (auto simp: added_def)
  moreover have "runs env (?vs1, m) (removeFromAllSpeakers env ids) () (?vs2, m)"
    by (rule runs_removeFromAllSpeakers [OF env])
  moreover have "told env ?l (ForwardRequest ids) ?vs2 = at_each (speakers_added ?l ids) (music_names env) vs"
  proof
    fix n
    consider "vs n = None" | v where "vs n = Some v" "n = ?l" | v where "vs n = Some v" "n \<noteq> ?l" "n \<in> set ids"
      | v where "vs n = Some v" "n \<notin> set ids" "n \<noteq> ?l" by (cases "vs n") auto
    then show "told env ?l (ForwardRequest ids) ?vs2 n = at_each (speakers_added ?l ids) (music_names env) vs n"
      by cases (simp_all add: at_each_def speakers_added_def added_def others_def l sets sub, auto)
  qed
  ultimately show ?thesis
    using runs_saves(1) [of env "at_each (speakers_added ?l ids) (music_names env) vs" m ?z] ids(2)
    unfolding addSpeakers_leader_def
    by (auto intro!: runs_with_zone [OF zone] runs_bindP [where r = "()"] runs_leader_then [OF env l refl])
qed

definition rebroadcasts :: "string \<Rightarrow> string \<Rightarrow> view \<Rightarrow> view" where
  "rebroadcasts leader n v = (if n = leader then v else v\<lparr>vw_advertised := True\<rparr>)"

lemma runs_rebroadcast:
  assumes "healthy_env env" and "name = zc_Leader zone \<or> name \<in> music_names env"
  shows "runs env (vs, m) (rebroadcast env zone name) () (at_each (rebroadcasts (zc_Leader zone)) {name} vs, m)"
proof (cases "name = zc_Leader zone")
  case True
  then have "at_each (rebroadcasts (zc_Leader zone)) {name} vs = vs"
    by (simp add: at_each_id rebroadcasts_def)
  with True show ?thesis by (simp add: rebroadcast_def runs_def)
next
  case False
  have "at_each (rebroadcasts (zc_Leader zone)) {name} vs = told env name (BroadcastRequest True) vs"
    by (rule at_each_cong) (use False in \<open>auto simp: rebroadcasts_def\<close>)
  with False assms show ?thesis by (auto simp: rebroadcast_def intro!: runs_client)
qed

lemma runs_rebroadcast_all:
  assumes "healthy_env env" and "\<And>i. i \<in> set ids \<Longrightarrow> i = zc_Leader zone \<or> i \<in> music_names env"
  shows "runs env (vs, m) (for_each (rebroadcast env zone) ids) () (at_each (rebroadcasts (zc_Leader zone)) (set ids) vs, m)"
  using runs_rebroadcast [OF assms(1)] assms(2) by (intro runs_for_each) (auto simp: rebroadcasts_def)

definition speakers_removed :: "string \<Rightarrow> string list \<Rightarrow> string \<Rightarrow> view \<Rightarrow> view" where
  "speakers_removed leader ids n v =
     (if n = leader then v\<lparr>vw_sessions := vw_sessions v - (set ids - {n})\<rparr>
      else if n \<in> set ids then v\<lparr>vw_advertised := True\<rparr> else v)"

lemma runs_removeSpeakers:
  assumes env: "healthy_env env" and ids: "set ids \<subseteq> music_names env" "ids \<noteq> []"
    and zone: "find_zone zoneID (zone_configs m (me_order env m) []) = zone" "zc_ID zone \<noteq> []"
    and l: "zc_Leader zone \<in> music_names env"
  shows "runs env (vs, m) (removeSpeakers_leader env zoneID ids) ()
    (at_each (speakers_removed (zc_Leader zone) ids) (music_names env) vs,
     m(zc_ID zone \<mapsto> no_entry\<lparr>ent_Zone := zone\<lparr>zc_Speakers := remaining_speakers (zc_Speakers zone) ids\<rparr>\<rparr>))"
proof -
  let ?l = "zc_Leader zone" and ?z = "zone\<lparr>zc_Speakers := remaining_speakers (zc_Speakers zone) ids\<rparr>"
  let ?vs1 = "at_each (rebroadcasts ?l) (set ids) vs" and ?q = "RemoveForwardRequest ids False"
  have sets: "set ids \<inter> (music_names env - {x}) = set ids - {x}" for x using ids(1) by auto
  have sub: "x \<in> set ids \<Longrightarrow> x \<in> music_names env" for x using ids(1) by auto
  have "runs env (vs, m) (for_each (rebroadcast env zone) ids) () (?vs1, m)"
    using ids(1) by (intro runs_rebroadcast_all [OF env]) auto
  moreover have "told env ?l ?q ?vs1 = at_each (speakers_removed ?l ids) (music_names env) vs"
  proof
    fix n
    consider "vs n = None" | v where "vs n = Some v" "n = ?l" | v where "vs n = Some v" "n \<noteq> ?l" "n \<in> set ids"
      | v where "vs n = Some v" "n \<notin> set ids" "n \<noteq> ?l" by (cases "vs n") auto
    then show "told env ?l ?q ?vs1 n = at_each (speakers_removed ?l ids) (music_names env) vs n"
      by cases (simp_all add: at_each_def speakers_removed_def rebroadcasts_def others_def l sets sub, auto)
  qed
  ultimately show ?thesis
    using runs_saves(1) [of env "at_each (speakers_removed ?l ids) (music_names env) vs" m ?z] ids(2)
    unfolding removeSpeakers_leader_def
    by (auto intro!: runs_with_zone [OF zone] runs_bindP [where r = "()"] runs_leader_then [OF env l refl])
qed

text \<open>What the loop over the speakers and the listed ones computes.\<close>

lemma keep_speaker_eq:
  "keep_speaker s ids found = (if found then [] else replicate (length (takeWhile (\<lambda>i. i \<noteq> s) ids)) s)"
  by (induction ids arbitrary: found) (auto simp: Let_def)

lemma remaining_speakers_eq:
  "remaining_speakers speakers ids =
     concat (map (\<lambda>s. replicate (length (takeWhile (\<lambda>i. i \<noteq> s) ids)) s) speakers)"
  by (simp add: remaining_speakers_def keep_speaker_eq)

lemma remaining_speakers_one: "remaining_speakers speakers [i] = filter (\<lambda>s. s \<noteq> i) speakers"
  unfolding remaining_speakers_eq by (induction speakers) auto

lemma count_remaining:
  "count_list (remaining_speakers speakers ids) s =
     count_list speakers s * length (takeWhile (\<lambda>i. i \<noteq> s) ids)"
proof -
  have "count_list (replicate n x) s = (if x = s then n else 0)" for n x by (induction n) auto
  then show ?thesis unfolding remaining_speakers_eq by (induction speakers) auto
qed

text \<open>Deleting a zone.\<close>

definition zone_deleted :: "zone_config \<Rightarrow> string \<Rightarrow> string \<Rightarrow> view \<Rightarrow> view" where
  "zone_deleted zone displayName n v =
     (if n = zc_Leader zone then
        v\<lparr>vw_sessions := {}, vw_name := (if TrimSpace displayName = [] then vw_name v else TrimSpace displayName)\<rparr>
      else if n \<in> set (zc_Speakers zone) then v\<lparr>vw_advertised := True\<rparr> else v)"

lemma runs_deleteZone:
  assumes env: "healthy_env env" and ids: "set (zc_Speakers zone) \<subseteq> music_names env"
    and zone: "find_zone zoneID (zone_configs m (me_order env m) []) = zone" "zc_ID zone \<noteq> []"
    and l: "zc_Leader zone \<in> music_names env" "zc_Leader zone \<noteq> []"
  shows "runs env (vs, m) (deleteZone_leader env zoneID) ()
    (at_each (zone_deleted zone (sc_DisplayName (ent_Speaker
        (case m (zc_Leader zone) of None \<Rightarrow> no_entry | Some e \<Rightarrow> e)))) (music_names env) vs,
     m(zc_ID zone := None))"
proof -
  let ?l = "zc_Leader zone" and ?dn = "sc_DisplayName (ent_Speaker (case m (zc_Leader zone) of None \<Rightarrow> no_entry | Some e \<Rightarrow> e))"
  let ?vs1 = "at_each (rebroadcasts ?l) (set (zc_Speakers zone)) vs"
  let ?vs2 = "told env ?l (RemoveForwardRequest [] True) ?vs1"
  have "runs env (vs, m) (for_each (rebroadcast env zone) (zc_Speakers zone)) () (?vs1, m)"
    using ids by (intro runs_rebroadcast_all [OF env]) auto
  moreover have "told env ?l (NameChangeRequest dn) ?vs2 = at_each (zone_deleted zone dn) (music_names env) vs" for dn
  proof
    fix n
    have sub: "x \<in> set (zc_Speakers zone) \<Longrightarrow> x \<in> music_names env" for x using ids by auto
    consider "vs n = None" | v where "vs n = Some v" "n = ?l" | v where "vs n = Some v" "n \<noteq> ?l" "n \<in> set (zc_Speakers zone)"
      | v where "vs n = Some v" "n \<noteq> ?l" "n \<notin> set (zc_Speakers zone)" by (cases "vs n") auto
    then show "told env ?l (NameChangeRequest dn) ?vs2 n = at_each (zone_deleted zone dn) (music_names env) vs n"
      by cases (simp_all add: at_each_def zone_deleted_def rebroadcasts_def l sub, auto)
  qed
  moreover have "runs env (?vs1, m) (bindP (liftR (getSpeakerClient env ?l)) (\<lambda>client.
      bindP (tell env client (RemoveForwardRequest [] True)) (\<lambda>_.
      bindP (on_store (GetSpeakerConfig ?l)) (\<lambda>c. tell env client (NameChangeRequest (sc_DisplayName c)))))) ()
      (told env ?l (NameChangeRequest ?dn) ?vs2, m)"
    by (rule runs_client [OF env l(1)], rule runs_bindP [OF runs_tell [OF l(1)]],
        rule runs_bindP [OF runs_GetSpeakerConfig], rule runs_tell [OF l(1)])
  ultimately show ?thesis
    using runs_saves(3) [of env "at_each (zone_deleted zone ?dn) (music_names env) vs" m "zc_ID zone"] l(2)
    unfolding deleteZone_leader_def
    by (auto intro!: runs_with_zone [OF zone] runs_bindP [where r = "()"])
qed

text \<open>A new leader.\<close>

definition promoted :: "mgmt_env \<Rightarrow> zone_config \<Rightarrow> string \<Rightarrow> view \<Rightarrow> view" where
  "promoted env zone n v =
     v\<lparr>vw_pending := vw_pending v \<union> (set (zc_Speakers zone) \<inter> others env n),
       vw_name := (if TrimSpace (zc_DisplayName zone) = [] then vw_name v else TrimSpace (zc_DisplayName zone)),
       vw_advertised := True\<rparr>"

lemma runs_promote:
  assumes env: "healthy_env env" and l: "l \<in> music_names env"
  shows "runs env (vs, m) (promote env zone l) ()
    (at_each (promoted env zone) {l} vs,
     m(zc_ID zone \<mapsto> no_entry\<lparr>ent_Zone := zone\<lparr>zc_Leader := l\<rparr>\<rparr>))"
proof -
  let ?qs = "[ForwardRequest (filter (\<lambda>i. i \<noteq> l) (zc_Speakers zone)), NameChangeRequest (zc_DisplayName zone), BroadcastRequest True]"
  let ?vs = "at_each (\<lambda>n. fold (view_after (others env n)) ?qs) {l} vs" and ?z = "zone\<lparr>zc_Leader := l\<rparr>"
  have "promote env zone l = bindP (bindP (liftR (getSpeakerClient env l)) (\<lambda>client. for_each (tell env client) ?qs))
      (\<lambda>_. fatalP (on_store (SaveZoneConfig (me_raft env) ?z)))"
    by (simp add: promote_def bindP_assoc bindP_unit)
  moreover have "runs env (vs, m) (bindP (liftR (getSpeakerClient env l)) (\<lambda>client. for_each (tell env client) ?qs)) () (?vs, m)"
    by (rule runs_instruct [OF env l]) (rule refl)
  moreover have "?vs = at_each (promoted env zone) {l} vs"
  proof (rule at_each_cong)
    fix n v assume "n \<in> {l}"
    then have "{x \<in> set (zc_Speakers zone). x \<noteq> l} \<inter> others env l = set (zc_Speakers zone) \<inter> others env n"
      by (auto simp: others_def)
    with \<open>n \<in> {l}\<close> show "fold (view_after (others env n)) ?qs v = promoted env zone n v"
      by (simp add: promoted_def)
  qed
  ultimately show ?thesis
    using runs_fatalP [OF runs_saves(1) [of env ?vs m ?z]] by (auto intro!: runs_bindP [where r = "()"])
qed

lemma find_filter: "find P xs = Some x \<Longrightarrow> \<exists>ys. filter P xs = x # ys"
  by (induction xs) (auto split: if_splits)

lemma runs_leave:
  assumes env: "healthy_env env"
    and zone: "find (\<lambda>z. zc_Leader z = nd_Name node) (zone_configs m (me_order env m) []) = Some zone"
    and l: "find (\<lambda>n. nd_Name n \<in> set (zc_Speakers zone)) (me_members env) = Some n" "nd_Name n \<in> music_names env"
    and "runs env (vs, m) (promote env zone (nd_Name n)) () a'"
  shows "runs env (vs, m) (HandleMusicNodeLeave env node) () a'"
proof -
  have "\<exists>ns. zone_members env zone = n # ns"
    using find_filter [OF l(1)] by (simp add: zone_members_def)
  then show ?thesis
    unfolding HandleMusicNodeLeave_def using assms(5) zone
    by (auto intro!: runs_by_leader runs_bindP [OF runs_zone_configs] runs_catchP)
qed

section \<open>Muting\<close>

lemma mute_body:
  "''volume: '' @ format_f (Fin (-144)) = ''volume: -144.000000''" "''volume: '' @ format_f (Fin 0) = ''volume: 0.000000''"
  by code_simp+

lemma mute_body_parts:
  "contains ''volume'' ''volume: -144.000000''" "contains ''volume'' ''volume: 0.000000''"
  "split_str ''volume:'' ''volume: -144.000000'' = [[], '' -144.000000'']"
  "split_str ''volume:'' ''volume: 0.000000'' = [[], '' 0.000000'']"
  "TrimSpace '' -144.000000'' = ''-144.000000''" "TrimSpace '' 0.000000'' = ''0.000000''"
  by code_simp+

definition muting_player :: "bool \<Rightarrow> fplayer \<Rightarrow> fplayer" where
  "muting_player b p = (if b then p\<lparr>fp_isMuted := True\<rparr> else p\<lparr>fp_isMuted := False, fp_volume := Fin 1\<rparr>)"

lemma handle_muting:
  assumes "fw_player (ap_player a) = Some p" and "contains ''volume'' (rq_Body q)"
    and "split_str ''volume:'' (rq_Body q) = [pre, part]" and "ho_parse_float h (TrimSpace part) = Ret vol"
    and "rq_Headers q ''Content-Type'' = Some ''text/parameters''" and "rq_Headers q ''X-BCG-Muted'' = Some val"
  shows "\<exists>w. handlSetParameter h forwarding_player_ops q resp la ra a =
      (Ret (resp\<lparr>rs_Status := Ok\<rparr>), a\<lparr>ap_player := w\<rparr>)
    \<and> fw_player w = Some (if val = ''muted'' then p\<lparr>fp_isMuted := True\<rparr>
        else p\<lparr>fp_isMuted := False, fp_volume := normalizeVolume vol\<rparr>)"
proof (cases "val = ''muted''")
  case True
  with assms forwarding_player.mute_request [of a q pre part "[]" h vol resp la ra] show ?thesis
    by (auto simp: forwarding_player_ops_def fplayer_op_defs)
next
  case False
  with assms forwarding_player.unmute_request [of a q pre part "[]" h vol val resp la ra] show ?thesis
    by (auto simp: forwarding_player_ops_def fplayer_op_defs)
qed

lemma handle_mute:
  assumes "fw_player (ap_player a) = Some p"
    and "ho_parse_float h ''-144.000000'' = Ret (Fin (-144))" and "ho_parse_float h ''0.000000'' = Ret (Fin 0)"
    and "rq_Headers q ''Content-Type'' = Some ''text/parameters''"
    and "rq_Headers q ''X-BCG-Muted'' = Some (if b then ''muted'' else ''unmuted'')"
    and "rq_Body q = ''volume: '' @ format_f (Fin (if b then -144 else 0))"
  shows "\<exists>w. handlSetParameter h forwarding_player_ops q resp la ra a =
      (Ret (resp\<lparr>rs_Status := Ok\<rparr>), a\<lparr>ap_player := w\<rparr>) \<and> fw_player w = Some (muting_player b p)"
proof (cases b)
  case True
  have body: "rq_Body q = ''volume: -144.000000''" using assms(6) True by (simp only: if_True mute_body)
  from handle_muting [OF assms(1), of q "[]" "'' -144.000000''" h "Fin (-144)" "''muted''" resp la ra,
      unfolded body mute_body_parts(3-), OF mute_body_parts(1) refl assms(2,4)] assms(5) True
  show ?thesis by (simp add: muting_player_def)
next
  case False
  have body: "rq_Body q = ''volume: 0.000000''" using assms(6) False by (simp only: if_False mute_body)
  from handle_muting [OF assms(1), of q "[]" "'' 0.000000''" h "Fin 0" "''unmuted''" resp la ra,
      unfolded body mute_body_parts(3-), OF mute_body_parts(2) refl assms(3,4)] assms(5) False
  show ?thesis by (simp add: muting_player_def normalizeVolume_def)
qed

lemma mute_parameter_stamped:
  "rq_Headers (stamped fresh_client (mute_parameter env local b)) ''Content-Type'' = Some ''text/parameters''"
  "rq_Headers (stamped fresh_client (mute_parameter env local b)) ''X-BCG-Muted'' = Some (if b then ''muted'' else ''unmuted'')"
  "rq_Body (stamped fresh_client (mute_parameter env local b)) = ''volume: '' @ format_f (Fin (if b then -144 else 0))"
  by (simp_all add: stamped_def mute_parameter_def)

section \<open>Properties\<close>

lemma healthy_runs:
  assumes "healthy env w" and "healthy_env env \<Longrightarrow> runs env (views w, config_of w) m r (vs, c)"
  shows "\<exists>w'. m w = (Ret r, w') \<and> healthy env w' \<and> views w' = vs \<and> config_of w' = c"
proof -
  have "runs env (zone_state w) m r (vs, c)" using assms by (simp add: zone_state_def healthy_def)
  from runsD [OF this assms(1)] show ?thesis by (auto simp: zone_state_def)
qed

lemma healthy_views: "healthy env w \<Longrightarrow> n \<in> music_names env \<Longrightarrow> \<exists>v. views w n = Some v"
  by (auto simp: healthy_def views_def)

text \<open>
  C3. \<^verbatim>\<open>CreateZone\<close> forms the zone it is asked for. In a healthy cluster, for a non-empty list of music
  nodes: it returns the ID of the zone, which is stored with its name, its first speaker as leader
  and its speakers; the leader is advertised under the zone's name, has given up its sessions and
  is establishing one with exactly the other speakers of the zone; these are not advertised and
  forward to nobody; and no speaker outside the zone keeps a session with one of the zone, while
  its name, its advertisement and the sessions it is establishing are left alone.
\<close>

theorem create_zone_forms_zone:
  assumes "healthy env w" and "set ids \<subseteq> music_names env" and "ids \<noteq> []" and "TrimSpace displayName \<noteq> []"
  shows "\<exists>w'. CreateZone env displayName ids w = (Ret (Itoa (me_random env)), w') \<and> healthy env w'
    \<and> config_of w' = (config_of w)(Itoa (me_random env) \<mapsto> no_entry\<lparr>ent_Zone :=
        \<lparr>zc_ID = Itoa (me_random env), zc_DisplayName = displayName, zc_Leader = hd ids, zc_Speakers = ids\<rparr>\<rparr>)
    \<and> (\<forall>n v. n \<in> music_names env \<and> views w n = Some v \<longrightarrow> views w' n = Some
        (if n = hd ids then v\<lparr>vw_name := TrimSpace displayName, vw_advertised := True, vw_sessions := {},
           vw_pending := vw_pending v \<union> (set ids - {n})\<rparr>
         else if n \<in> set ids then v\<lparr>vw_advertised := False, vw_sessions := {}\<rparr>
         else v\<lparr>vw_sessions := vw_sessions v - set ids\<rparr>))"
proof -
  have "hd ids \<in> set ids" using assms(3) by simp
  then have zone: "zone_formed displayName ids n v =
      (if n = hd ids then v\<lparr>vw_name := TrimSpace displayName, vw_advertised := True, vw_sessions := {},
         vw_pending := vw_pending v \<union> (set ids - {n})\<rparr>
       else if n \<in> set ids then v\<lparr>vw_advertised := False, vw_sessions := {}\<rparr>
       else v\<lparr>vw_sessions := vw_sessions v - set ids\<rparr>)" for n v
    using assms(4) by (auto simp: zone_formed_def in_zone_def)
  have "runs env (views w, config_of w) (CreateZone env displayName ids) (Itoa (me_random env))
      (at_each (zone_formed displayName ids) (music_names env) (views w),
       (config_of w)(Itoa (me_random env) \<mapsto> no_entry\<lparr>ent_Zone := new_zone env displayName ids\<rparr>))"
    if "healthy_env env"
    unfolding CreateZone_def by (intro runs_by_leader runs_createZone that assms)
  from healthy_runs [OF assms(1) this] assms(3) show ?thesis
    by (fastforce simp: at_each_def zone new_zone_def)
qed

lemma sample_music_names: "music_names (sample_env names) = set names"
  by (force simp: music_names_def sample_env_def zone_node_def music_node_def has_type_def)

lemma route_of_address: "CHR '':'' \<notin> set name \<Longrightarrow> takeWhile (\<lambda>c. c \<noteq> CHR '':'') (name @ CHR '':'' # s) = name"
  by (induction name) auto

lemma zone_node_simps [simp]:
  "nd_Name (zone_node name) = name" "nd_Addr (zone_node name) = name" "has_type Music (zone_node name)"
  "nd_Meta (zone_node name) = Some \<lparr>nm_RtspPort = 5000, nm_APIPort = 7777, nm_RaftPort = 0, nm_NodeType = Music\<rparr>"
  by (simp_all add: zone_node_def music_node_def has_type_def)

lemma sample_healthy:
  assumes "distinct names" and "\<And>name. name \<in> set names \<Longrightarrow> CHR '':'' \<notin> set name"
  shows "healthy (sample_env names) (sample_world names)"
proof -
  let ?env = "sample_env names"
  have "reachable ?env n meta" if "n \<in> set (me_members ?env)" for n meta
    using that assms(2) by (auto simp: reachable_def sample_env_def api_address_def rtsp_address_def route_of_address)
  moreover have "me_members ?env = map zone_node names" "\<And>t. me_fault ?env t = Delivered" "me_raft ?env = sample_raft"
    by (simp_all add: sample_env_def)
  ultimately have "healthy_env ?env"
    unfolding healthy_env_def using assms(1)
    by (auto simp: sample_raft_def list_all_iff comp_def)
  moreover have "speaker_ok sample_host (sample_speaker name (map zone_node names))" for name
    by (auto simp: speaker_ok_def sample_speaker_def NewSpeakerServer_def NewAirplayServer_def sample_host_def
        advert_ok_def list_all_iff)
  moreover have "speaker_reach (sample_speaker name (map zone_node names)) = others ?env name" for name
    unfolding others_def sample_music_names
    by (force simp: speaker_reach_def sample_speaker_def NewSpeakerServer_def)
  ultimately show ?thesis
    by (auto simp: healthy_def sample_music_names sample_world_def NewDistributedMgmtService_def) (simp add: sample_env_def)
qed

theorem create_zone_forms_zone_witness:
  "\<exists>w' v. CreateZone (sample_env [''den'', ''hall'']) ''Up'' [''den'', ''hall''] (sample_world [''den'', ''hall'']) =
      (Ret (Itoa 17), w')
    \<and> views w' ''den'' = Some v \<and> vw_advertised v \<and> ''hall'' \<in> vw_pending v"
proof -
  let ?env = "sample_env [''den'', ''hall'']" and ?w = "sample_world [''den'', ''hall'']"
  have h: "healthy ?env ?w" by (rule sample_healthy) auto
  have names: "music_names ?env = {''den'', ''hall''}" unfolding sample_music_names by simp
  obtain v where v: "views ?w ''den'' = Some v" using healthy_views [OF h] names by blast
  have r: "me_random ?env = 17" by (simp add: sample_env_def)
  have "TrimSpace ''Up'' \<noteq> []" by code_simp
  from create_zone_forms_zone [OF h _ _ this, of "[''den'', ''hall'']", unfolded names r] obtain w' where
    w': "CreateZone ?env ''Up'' [''den'', ''hall''] ?w = (Ret (Itoa 17), w')"
    and views: "\<And>n v. n \<in> {''den'', ''hall''} \<and> views ?w n = Some v \<Longrightarrow> views w' n = Some
        (if n = hd [''den'', ''hall''] then v\<lparr>vw_name := TrimSpace ''Up'', vw_advertised := True, vw_sessions := {},
           vw_pending := vw_pending v \<union> (set [''den'', ''hall''] - {n})\<rparr>
         else if n \<in> set [''den'', ''hall''] then v\<lparr>vw_advertised := False, vw_sessions := {}\<rparr>
         else v\<lparr>vw_sessions := vw_sessions v - set [''den'', ''hall'']\<rparr>)" by auto
  from views [of "''den''" v] v have "views w' ''den'' = Some (v\<lparr>vw_name := TrimSpace ''Up'', vw_advertised := True,
      vw_sessions := {}, vw_pending := vw_pending v \<union> (set [''den'', ''hall''] - {''den''})\<rparr>)" by simp
  with w' show ?thesis by (intro exI conjI) (assumption, assumption, simp_all)
qed

text \<open>The zone with a given ID in the store.\<close>

definition stored_zone :: "mgmt_env \<Rightarrow> mgmt_world \<Rightarrow> zone_config \<Rightarrow> bool" where
  "stored_zone env w zone \<longleftrightarrow> range_order (me_order env (config_of w)) (config_of w) \<and> zone_keyed (config_of w)
     \<and> map_option ent_Zone (config_of w (zc_ID zone)) = Some zone \<and> zc_ID zone \<noteq> []"

lemma stored_zone_found:
  "stored_zone env w zone \<Longrightarrow> find_zone (zc_ID zone) (zone_configs (config_of w) (me_order env (config_of w)) []) = zone"
  using find_zone_keyed by (fastforce simp: stored_zone_def)

lemma stored_zone_id: "stored_zone env w zone \<Longrightarrow> zc_ID zone \<noteq> []"
  by (simp add: stored_zone_def)

text \<open>
  C22. \<^verbatim>\<open>RemoveSpeakersFromZone\<close> turns the broadcast of the removed speakers on again and drops the
  leader's sessions with them; but the list of speakers it stores is right only when one speaker is
  removed. Removing \<open>k\<close> speakers lists every remaining speaker \<open>k\<close> times, and lists a removed one
  as often as there are listed speakers before it.
\<close>

theorem remove_speakers_multiplies_the_rest:
  assumes "healthy env w" and "stored_zone env w zone" and "zc_Leader zone \<in> music_names env"
    and "set ids \<subseteq> music_names env" and "ids \<noteq> []"
  shows "\<exists>w' speakers. RemoveSpeakersFromZone env (zc_ID zone) ids w = (Ret (), w') \<and> healthy env w'
    \<and> config_of w' = (config_of w)(zc_ID zone \<mapsto> no_entry\<lparr>ent_Zone := zone\<lparr>zc_Speakers := speakers\<rparr>\<rparr>)
    \<and> (length ids = 1 \<longrightarrow> speakers = filter (\<lambda>s. s \<notin> set ids) (zc_Speakers zone))
    \<and> (\<forall>s. s \<notin> set ids \<longrightarrow> count_list speakers s = length ids * count_list (zc_Speakers zone) s)
    \<and> (\<forall>s. count_list speakers s = count_list (zc_Speakers zone) s * length (takeWhile (\<lambda>i. i \<noteq> s) ids))
    \<and> (\<forall>n v. n \<in> music_names env \<and> views w n = Some v \<longrightarrow> views w' n = Some
        (if n = zc_Leader zone then v\<lparr>vw_sessions := vw_sessions v - (set ids - {n})\<rparr>
         else if n \<in> set ids then v\<lparr>vw_advertised := True\<rparr> else v))"
proof -
  let ?S = "remaining_speakers (zc_Speakers zone) ids"
  have run: "runs env (views w, config_of w) (RemoveSpeakersFromZone env (zc_ID zone) ids) ()
      (at_each (speakers_removed (zc_Leader zone) ids) (music_names env) (views w),
       (config_of w)(zc_ID zone \<mapsto> no_entry\<lparr>ent_Zone := zone\<lparr>zc_Speakers := ?S\<rparr>\<rparr>))"
    if "healthy_env env"
    unfolding RemoveSpeakersFromZone_def update_by_leader_def
    by (intro runs_by_leader runs_removeSpeakers that assms(3-5) stored_zone_found [OF assms(2)] stored_zone_id [OF assms(2)])
  have "?S = filter (\<lambda>s. s \<notin> set ids) (zc_Speakers zone)" if "length ids = 1"
    using that remaining_speakers_one by (auto simp: length_Suc_conv)
  moreover have "length (takeWhile (\<lambda>i. i \<noteq> s) ids) = length ids" if "s \<notin> set ids" for s
    using that by (induction ids) auto
  moreover obtain w' where "RemoveSpeakersFromZone env (zc_ID zone) ids w = (Ret (), w')" "healthy env w'"
    "views w' = at_each (speakers_removed (zc_Leader zone) ids) (music_names env) (views w)"
    "config_of w' = (config_of w)(zc_ID zone \<mapsto> no_entry\<lparr>ent_Zone := zone\<lparr>zc_Speakers := ?S\<rparr>\<rparr>)"
    using healthy_runs [OF assms(1) run] by blast
  ultimately show ?thesis
    by (intro exI [of _ w'] exI [of _ ?S]) (simp add: count_remaining at_each_def speakers_removed_def mult.commute)
qed

text \<open>
  C18. \<^verbatim>\<open>DeleteZone\<close> gives the speakers back: every speaker of the zone is advertised again, the
  leader has no sessions left, and the zone is gone from the store, which is otherwise unchanged.
  The leader gets its display name back if it has one; if it has none the leader keeps the name of
  the deleted zone.
\<close>

theorem delete_zone_frees_speakers:
  assumes "healthy env w" and "stored_zone env w zone" and "zc_Leader zone \<in> music_names env" and "zc_Leader zone \<noteq> []"
    and "set (zc_Speakers zone) \<subseteq> music_names env"
    and "GetSpeakerConfig (zc_Leader zone) (mw_store w) = (Ret config, mw_store w)"
  shows "\<exists>w'. DeleteZone env (zc_ID zone) w = (Ret (), w') \<and> healthy env w'
    \<and> config_of w' = (config_of w)(zc_ID zone := None)
    \<and> (\<forall>n v. n \<in> music_names env \<and> views w n = Some v \<longrightarrow> views w' n = Some
        (if n = zc_Leader zone then v\<lparr>vw_sessions := {}, vw_name :=
             (if TrimSpace (sc_DisplayName config) = [] then vw_name v else TrimSpace (sc_DisplayName config))\<rparr>
         else if n \<in> set (zc_Speakers zone) then v\<lparr>vw_advertised := True\<rparr> else v))"
proof -
  have config: "ent_Speaker (case config_of w (zc_Leader zone) of None \<Rightarrow> no_entry | Some e \<Rightarrow> e) = config"
    using assms(6) by (simp add: GetSpeakerConfig_def)
  have run: "runs env (views w, config_of w) (DeleteZone env (zc_ID zone)) ()
      (at_each (zone_deleted zone (sc_DisplayName config)) (music_names env) (views w), (config_of w)(zc_ID zone := None))"
    if "healthy_env env"
    unfolding DeleteZone_def update_by_leader_def config [symmetric]
    by (intro runs_by_leader runs_deleteZone that assms(3-5) stored_zone_found [OF assms(2)] stored_zone_id [OF assms(2)])
  from healthy_runs [OF assms(1) run] show ?thesis
    by (fastforce simp: at_each_def zone_deleted_def)
qed

text \<open>
  C19. A zone survives its leader: when the node that leads a zone has left, the first member of the
  zone in the member list becomes its leader. It is advertised under the zone's name, it is
  establishing sessions with the other speakers of the zone that are still there, and the store
  names it as the leader; the speakers of the zone, the departed one among them, stay on record.
\<close>

theorem leader_leaves_next_takes_over:
  assumes "healthy env w"
    and "find (\<lambda>z. zc_Leader z = nd_Name node) (zone_configs (config_of w) (me_order env (config_of w)) []) = Some zone"
    and "find (\<lambda>n. nd_Name n \<in> set (zc_Speakers zone)) (me_members env) = Some next_leader"
    and "nd_Name next_leader \<in> music_names env"
  shows "\<exists>w'. HandleMusicNodeLeave env node w = (Ret (), w') \<and> healthy env w'
    \<and> config_of w' = (config_of w)(zc_ID zone \<mapsto> no_entry\<lparr>ent_Zone := zone\<lparr>zc_Leader := nd_Name next_leader\<rparr>\<rparr>)
    \<and> (\<forall>n v. views w n = Some v \<longrightarrow> views w' n = Some
        (if n = nd_Name next_leader then v\<lparr>vw_advertised := True,
           vw_name := (if TrimSpace (zc_DisplayName zone) = [] then vw_name v else TrimSpace (zc_DisplayName zone)),
           vw_pending := vw_pending v \<union> (set (zc_Speakers zone) \<inter> (music_names env - {n}))\<rparr>
         else v))"
proof -
  have run: "runs env (views w, config_of w) (HandleMusicNodeLeave env node) ()
      (at_each (promoted env zone) {nd_Name next_leader} (views w),
       (config_of w)(zc_ID zone \<mapsto> no_entry\<lparr>ent_Zone := zone\<lparr>zc_Leader := nd_Name next_leader\<rparr>\<rparr>))"
    if "healthy_env env"
    by (rule runs_leave [OF that assms(2-4) runs_promote [OF that assms(4)]])
  from healthy_runs [OF assms(1) run] show ?thesis
    by (fastforce simp: at_each_def promoted_def others_def)
qed

text \<open>
  C37. Muting and unmuting a speaker over its RTSP port reaches its player: muting mutes it and keeps
  its volume; unmuting unmutes it, but also sets the volume to the maximum, whatever it was before.
\<close>

theorem unmuting_resets_volume:
  assumes "healthy env w" and "speaker \<in> music_names env" and "mw_speakers w speaker = Some s"
    and "ho_parse_float (me_hosts env speaker) ''-144.000000'' = Ret (Fin (-144))"
    and "ho_parse_float (me_hosts env speaker) ''0.000000'' = Ret (Fin 0)"
  shows "\<exists>w' s'. SetMuteForSpeaker env speaker isMuted w = (Ret (), w') \<and> mw_speakers w' speaker = Some s'
    \<and> fp_isMuted (player_of s') = isMuted
    \<and> fp_volume (player_of s') = (if isMuted then fp_volume (player_of s) else Fin 1)
    \<and> fp_sessions (player_of s') = fp_sessions (player_of s)"
proof -
  have env: "healthy_env env" using assms(1) by (simp add: healthy_def)
  obtain n meta where n: "nd_Meta n = Some meta" "nd_Name n = speaker"
    "filter_res (speaker_filter speaker) (me_members env) [] = Ret [n]" "reachable env n meta"
    by (rule music_speakers [OF env assms(2)])
  then obtain local where route: "me_rtsp env (nd_Addr n) (nm_RtspPort meta) = Ret local"
    "me_route env (rtsp_address n meta) = Some speaker"
    by (auto simp: reachable_def elim: is_ret.elims)
  obtain p where p: "fw_player (ap_player (sv_airplay s)) = Some p"
    using assms(1-3) by (auto simp: healthy_def speaker_ok_def)
  let ?q = "stamped fresh_client (mute_parameter env local isMuted)"
  obtain pw where pw: "handlSetParameter (me_hosts env speaker) forwarding_player_ops ?q (initial_response ?q)
      (rtsp_address n meta) local (sv_airplay s) = (Ret ((initial_response ?q)\<lparr>rs_Status := Ok\<rparr>), (sv_airplay s)\<lparr>ap_player := pw\<rparr>)"
    "fw_player pw = Some (muting_player isMuted p)"
    using handle_mute [OF p assms(4,5) mute_parameter_stamped] by blast
  define w1 where "w1 = snd (on_store (AmLeader (me_raft env)) w)"
  have w1: "on_store (AmLeader (me_raft env)) w = (Ret True, w1)" "mw_speakers w1 = mw_speakers w"
    using assms(1) by (auto simp: w1_def on_store_def AmLeader_def raft_call_def healthy_def healthy_env_def)
  let ?w' = "w1\<lparr>mw_calls := mw_calls w1 + 1, mw_speakers := (mw_speakers w1)(speaker \<mapsto> s\<lparr>sv_airplay := (sv_airplay s)\<lparr>ap_player := pw\<rparr>\<rparr>)\<rparr>"
  have "rtsp_send env (rtsp_address n meta) local (mute_parameter env local isMuted) w1 =
      (Ret ((initial_response ?q)\<lparr>rs_Status := Ok\<rparr>), ?w')"
    using env by (simp add: rtsp_send_def at_speaker_def route w1(2) assms(3) on_airplay_def pw healthy_env_def Let_def)
  then have "SetMuteForSpeaker env speaker isMuted w = (Ret (), ?w')"
    by (simp add: SetMuteForSpeaker_def update_by_leader_def setMute_leader_def bindP_def liftR_def w1 n route DecodeNodeMeta_def Let_def)
  then show ?thesis by (simp add: player_of_def pw(2) p muting_player_def)
qed

text \<open>
  A zone that was created without speakers can never be given any: its leader is the empty name,
  which is no speaker's, so adding speakers fails. It fails only after the speakers have been told
  to stop: each of them has lost its sessions and is no longer advertised, and belongs to no zone.
\<close>

theorem empty_zone_silences_added_speakers:
  assumes "healthy env w" and "stored_zone env w zone" and "zc_Leader zone = []" and "[] \<notin> music_names env"
    and "set ids \<subseteq> music_names env" and "ids \<noteq> []"
  shows "\<exists>w'. AddSpeakersToZone env (zc_ID zone) ids w = (Err ''could not find speaker with id: '', w')
    \<and> config_of w' = config_of w
    \<and> (\<forall>n. n \<in> set ids \<longrightarrow> (\<exists>v. views w' n = Some v \<and> \<not> vw_advertised v \<and> vw_sessions v = {}))"
proof -
  have env: "healthy_env env" using assms(1) by (simp add: healthy_def)
  let ?vs1 = "at_each (added []) (set ids) (views w)"
  let ?vs2 = "at_each (\<lambda>n. view_after (others env n) (RemoveForwardRequest ids False)) (music_names env) ?vs1"
  have none: "getSpeakerClient env [] = Err ''could not find speaker with id: ''"
    using getSpeakerClient_none [OF env assms(4)] by simp
  have "runs env (views w, config_of w) (for_each (add_speaker env zone) ids) () (?vs1, config_of w)"
    using assms(5) runs_add_speaker [OF env, of _ _ _ zone] assms(3)
    by (intro runs_for_each) (auto simp: added_def)
  note add = this
  have "fails env (views w, config_of w) (addSpeakers_leader env (zc_ID zone) ids) ''could not find speaker with id: '' (?vs2, config_of w)"
    using assms(6) unfolding addSpeakers_leader_def with_zone_def
    by (auto simp: Let_def stored_zone_found [OF assms(2)] stored_zone_id [OF assms(2)] assms(3) none
        intro!: fails_later [OF runs_zone_configs] fails_later [OF add] fails_later [OF runs_removeFromAllSpeakers [OF env]]
          fails_first [OF fails_liftR])
  then have "fails env (views w, config_of w) (AddSpeakersToZone env (zc_ID zone) ids) ''could not find speaker with id: '' (?vs2, config_of w)"
    unfolding AddSpeakersToZone_def update_by_leader_def by (auto intro!: fails_later [OF runs_AmLeader])
  then obtain w' where w': "AddSpeakersToZone env (zc_ID zone) ids w = (Err ''could not find speaker with id: '', w')"
    "views w' = ?vs2" "config_of w' = config_of w"
    using assms(1) unfolding fails_def zone_state_def by fastforce
  moreover have "\<exists>v. ?vs2 n = Some v \<and> \<not> vw_advertised v \<and> vw_sessions v = {}" if n: "n \<in> set ids" for n
  proof -
    have "n \<in> music_names env" "n \<noteq> []" using n assms(4,5) by auto
    then show ?thesis using healthy_views [OF assms(1), of n] n by (auto simp: at_each_def added_def)
  qed
  ultimately show ?thesis by (intro exI [of _ w']) simp
qed

text \<open>The witnesses: a cluster with a zone on record.\<close>

definition zoned_world :: "string list \<Rightarrow> zone_config \<Rightarrow> mgmt_world" where
  "zoned_world names zone =
     (sample_world names)\<lparr>mw_store := (mw_store (sample_world names))\<lparr>ds_m := [zc_ID zone \<mapsto> no_entry\<lparr>ent_Zone := zone\<rparr>]\<rparr>\<rparr>"

lemma zoned_healthy:
  "distinct names \<Longrightarrow> (\<And>name. name \<in> set names \<Longrightarrow> CHR '':'' \<notin> set name) \<Longrightarrow> healthy (sample_env names) (zoned_world names zone)"
  using sample_healthy [of names] by (simp add: healthy_def zoned_world_def)

lemma zoned_stored: "zc_ID zone = ''17'' \<Longrightarrow> stored_zone (sample_env names) (zoned_world names zone) zone"
  by (auto simp: stored_zone_def zoned_world_def sample_env_def range_order_def zone_keyed_def)

lemma sample_zone_simps [simp]:
  "zc_ID (sample_zone i ids) = i" "zc_Speakers (sample_zone i ids) = ids" "zc_Leader (sample_zone i (s # ids)) = s"
  "zc_Leader (sample_zone i []) = []" "zc_DisplayName (sample_zone i ids) = ''Upstairs''"
  by (simp_all add: sample_zone_def)

lemma zoned_config: "config_of (zoned_world names zone) = [zc_ID zone \<mapsto> no_entry\<lparr>ent_Zone := zone\<rparr>]"
  by (simp add: zoned_world_def)

theorem remove_speakers_multiplies_the_rest_witness:
  "\<exists>w' e. RemoveSpeakersFromZone (sample_env [''den'', ''hall'', ''loft'']) ''17'' [''hall'', ''loft'']
      (zoned_world [''den'', ''hall'', ''loft''] (sample_zone ''17'' [''den'', ''hall'', ''loft''])) = (Ret (), w')
    \<and> config_of w' ''17'' = Some e \<and> count_list (zc_Speakers (ent_Zone e)) ''den'' = 2"
proof -
  let ?names = "[''den'', ''hall'', ''loft'']" and ?ids = "[''hall'', ''loft'']"
  let ?zone = "sample_zone ''17'' ?names"
  have h: "healthy (sample_env ?names) (zoned_world ?names ?zone)" by (rule zoned_healthy) auto
  obtain w' S where "RemoveSpeakersFromZone (sample_env ?names) (zc_ID ?zone) ?ids (zoned_world ?names ?zone) = (Ret (), w')"
    and "config_of w' = (config_of (zoned_world ?names ?zone))(zc_ID ?zone \<mapsto> no_entry\<lparr>ent_Zone := ?zone\<lparr>zc_Speakers := S\<rparr>\<rparr>)"
    and "\<forall>s. s \<notin> set ?ids \<longrightarrow> count_list S s = length ?ids * count_list (zc_Speakers ?zone) s"
    using remove_speakers_multiplies_the_rest [OF h zoned_stored, of ?ids, unfolded sample_music_names] by auto
  then show ?thesis by (intro exI [of _ w'] exI [of _ "no_entry\<lparr>ent_Zone := ?zone\<lparr>zc_Speakers := S\<rparr>\<rparr>"]) simp
qed

theorem delete_zone_frees_speakers_witness:
  "\<exists>w'. DeleteZone (sample_env [''den'', ''hall'']) ''17'' (zoned_world [''den'', ''hall''] (sample_zone ''17'' [''den'', ''hall''])) =
      (Ret (), w') \<and> config_of w' = Map.empty"
proof -
  let ?names = "[''den'', ''hall'']"
  let ?zone = "sample_zone ''17'' ?names"
  have h: "healthy (sample_env ?names) (zoned_world ?names ?zone)" by (rule zoned_healthy) auto
  have "GetSpeakerConfig (zc_Leader ?zone) (mw_store (zoned_world ?names ?zone)) =
      (Ret no_speaker_config, mw_store (zoned_world ?names ?zone))"
    by (simp add: GetSpeakerConfig_def zoned_config no_entry_def)
  then obtain w' where "DeleteZone (sample_env ?names) (zc_ID ?zone) (zoned_world ?names ?zone) = (Ret (), w')"
    "config_of w' = (config_of (zoned_world ?names ?zone))(zc_ID ?zone := None)"
    using delete_zone_frees_speakers [OF h zoned_stored, unfolded sample_music_names] by auto
  then show ?thesis by (intro exI [of _ w']) (simp add: zoned_config)
qed

theorem leader_leaves_next_takes_over_witness:
  "\<exists>w'. HandleMusicNodeLeave (sample_env [''hall'', ''loft'']) (zone_node ''den'')
      (zoned_world [''hall'', ''loft''] (sample_zone ''17'' [''den'', ''hall'', ''loft''])) = (Ret (), w')
    \<and> map_option (\<lambda>e. zc_Leader (ent_Zone e)) (config_of w' ''17'') = Some ''hall''"
proof -
  let ?names = "[''hall'', ''loft'']" and ?zone = "sample_zone ''17'' [''den'', ''hall'', ''loft'']"
  let ?w = "zoned_world ?names ?zone" and ?env = "sample_env ?names"
  have h: "healthy ?env ?w" by (rule zoned_healthy) auto
  have env: "me_members ?env = map zone_node ?names" "me_order ?env (config_of ?w) = [''17'']"
    by (simp_all add: sample_env_def zoned_config)
  then obtain w' where "HandleMusicNodeLeave ?env (zone_node ''den'') ?w = (Ret (), w')"
    "config_of w' = (config_of ?w)(zc_ID ?zone \<mapsto> no_entry\<lparr>ent_Zone := ?zone\<lparr>zc_Leader := nd_Name (zone_node ''hall'')\<rparr>\<rparr>)"
    using leader_leaves_next_takes_over [OF h, of "zone_node ''den''" ?zone "zone_node ''hall''", unfolded sample_music_names]
    by (auto simp: zoned_config)
  then show ?thesis by (intro exI [of _ w']) simp
qed

theorem unmuting_resets_volume_witness:
  "\<exists>w' s'. SetMuteForSpeaker (sample_env [''den'']) ''den'' False (sample_world [''den'']) = (Ret (), w')
    \<and> mw_speakers w' ''den'' = Some s' \<and> fp_volume (player_of s') = Fin 1"
proof -
  have h: "healthy (sample_env [''den'']) (sample_world [''den''])" by (rule sample_healthy) auto
  have s: "mw_speakers (sample_world [''den'']) ''den'' = Some (sample_speaker ''den'' (map zone_node [''den'']))"
    by (simp add: sample_world_def NewDistributedMgmtService_def)
  have "ho_parse_float (me_hosts (sample_env [''den'']) ''den'') ''-144.000000'' = Ret (Fin (-144))"
    "ho_parse_float (me_hosts (sample_env [''den'']) ''den'') ''0.000000'' = Ret (Fin 0)"
    by (simp_all add: sample_env_def sample_host_def)
  from unmuting_resets_volume [OF h _ s this, of False, unfolded sample_music_names] show ?thesis by auto
qed

theorem empty_zone_silences_added_speakers_witness:
  "\<exists>w' v. AddSpeakersToZone (sample_env [''den'']) ''17'' [''den''] (zoned_world [''den''] (sample_zone ''17'' [])) =
      (Err ''could not find speaker with id: '', w') \<and> views w' ''den'' = Some v \<and> \<not> vw_advertised v"
proof -
  let ?w = "zoned_world [''den''] (sample_zone ''17'' [])"
  have h: "healthy (sample_env [''den'']) ?w" by (rule zoned_healthy) auto
  obtain w' where "AddSpeakersToZone (sample_env [''den'']) (zc_ID (sample_zone ''17'' [])) [''den''] ?w =
      (Err ''could not find speaker with id: '', w')"
    "\<forall>n. n \<in> set [''den''] \<longrightarrow> (\<exists>v. views w' n = Some v \<and> \<not> vw_advertised v \<and> vw_sessions v = {})"
    using empty_zone_silences_added_speakers [OF h zoned_stored, of "[''den'']", unfolded sample_music_names] by auto
  then show ?thesis by auto
qed

end
