(* ===== verification/Mgmt_Members.thy ===== *)
theory Mgmt_Members
  imports Mgmt_Zones
begin

text \<open>
  How the speakers of a zone change in a healthy cluster: speakers that are added to it, and a
  speaker that comes back to the zone it belongs to.
\<close>

section \<open>A speaker that returns\<close>

lemma rejoin_zone_leads:
  assumes "rejoin_zone name zones u = Some (zone, leads)" and "\<And>z. u = Some z \<Longrightarrow> zc_Leader z \<noteq> name"
  shows "leads \<longleftrightarrow> zc_Leader zone = name"
  using assms by (induction zones arbitrary: u) (auto split: if_splits)

definition returned_leader :: "mgmt_env \<Rightarrow> zone_config \<Rightarrow> string \<Rightarrow> view \<Rightarrow> view" where
  "returned_leader env zone n v =
     v\<lparr>vw_pending := vw_pending v \<union> (set (zc_Speakers zone) \<inter> others env n), vw_advertised := True,
       vw_name := (if TrimSpace (zc_DisplayName zone) = [] then vw_name v else TrimSpace (zc_DisplayName zone))\<rparr>"

lemma runs_rejoin_leader:
  assumes "healthy_env env" and "name \<in> music_names env"
  shows "runs env (vs, m) (rejoin_leader env name zone) () (at_each (returned_leader env zone) {name} vs, m)"
proof -
  let ?ids = "filter (\<lambda>n. n \<noteq> name) (map nd_Name (zone_members env zone))"
  let ?qs = "[ForwardRequest ?ids, BroadcastRequest True, NameChangeRequest (zc_DisplayName zone)]"
  have ids: "set ?ids \<inter> others env name = set (zc_Speakers zone) \<inter> others env name"
    by (auto simp: zone_members_def others_def music_names_def)
  have "runs env (vs, m) (rejoin_leader env name zone) () (at_each (\<lambda>n. fold (view_after (others env n)) ?qs) {name} vs, m)"
    unfolding rejoin_leader_def by (rule runs_instruct [OF assms]) (simp add: bindP_unit Let_def)
  moreover have "at_each (\<lambda>n. fold (view_after (others env n)) ?qs) {name} vs = at_each (returned_leader env zone) {name} vs"
    by (rule at_each_cong) (use ids in \<open>auto simp: returned_leader_def\<close>)
  ultimately show ?thesis by simp
qed

definition returned_member :: "zone_config \<Rightarrow> string \<Rightarrow> string \<Rightarrow> view \<Rightarrow> view" where
  "returned_member zone name n v =
     (if n = name then v\<lparr>vw_advertised := False\<rparr>
      else if n = zc_Leader zone then v\<lparr>vw_pending := insert name (vw_pending v)\<rparr> else v)"

lemma runs_rejoin_member:
  assumes env: "healthy_env env" and name: "name \<in> music_names env" and l: "zc_Leader zone \<noteq> name"
  shows "runs env (vs, m) (rejoin_member env name zone) ()
    (at_each (returned_member zone name) (music_names env) vs, m)"
proof -
  let ?l = "zc_Leader zone" and ?off = "BroadcastRequest False"
  let ?vs = "if ?l \<in> music_names env then told env ?l (ForwardRequest [name]) vs else vs"
  have "runs env (vs, m)
      (case getSpeakerClient env ?l of Err e \<Rightarrow> retP ()
       | r \<Rightarrow> bindP (liftR r) (\<lambda>client. tell env client (ForwardRequest [name]))) () (?vs, m)"
  proof (cases "?l \<in> music_names env")
    case True
    with runs_tell [OF True] show ?thesis by (auto simp: getSpeakerClient_eq [OF env True])
  next
    case False
    then show ?thesis by (auto simp: getSpeakerClient_none [OF env False])
  qed
  then have "runs env (vs, m) (rejoin_member env name zone) () (told env name ?off ?vs, m)"
    unfolding rejoin_member_def by (rule runs_bindP) (rule runs_client [OF env name], rule runs_tell [OF name])
  moreover have "told env name ?off ?vs n = at_each (returned_member zone name) (music_names env) vs n" for n
    using name l by (cases "vs n") (auto simp: at_each_def returned_member_def others_def)
  then have "told env name ?off ?vs = at_each (returned_member zone name) (music_names env) vs" ..
  ultimately show ?thesis by simp
qed

text \<open>The view of a speaker after another one, or itself, has returned to its zone.\<close>

definition zone_rejoined :: "mgmt_env \<Rightarrow> zone_config \<Rightarrow> string \<Rightarrow> string \<Rightarrow> view \<Rightarrow> view" where
  "zone_rejoined env zone name n v =
     (if n = name then
        (if zc_Leader zone = name then returned_leader env zone n v else v\<lparr>vw_advertised := False\<rparr>)
      else v\<lparr>vw_sessions := vw_sessions v - {name},
             vw_pending := vw_pending v \<union> (if n = zc_Leader zone then {name} else {})\<rparr>)"

lemma runs_join:
  assumes env: "healthy_env env" and name: "nd_Name node \<in> music_names env"
    and zone: "rejoin_zone (nd_Name node) (zone_configs m (me_order env m) []) None = Some (zone, leads)"
  shows "runs env (vs, m) (HandleMusicNodeJoin env node) ()
    (at_each (zone_rejoined env zone (nd_Name node)) (music_names env) vs, m)"
proof -
  let ?n = "nd_Name node"
  let ?vs = "at_each (\<lambda>n. view_after (others env n) (RemoveForwardRequest [?n] False)) (music_names env) vs"
  let ?m = "if leads then rejoin_leader env ?n zone else rejoin_member env ?n zone"
  have leads: "leads \<longleftrightarrow> zc_Leader zone = ?n" using zone by (rule rejoin_zone_leads) simp
  have "runs env (?vs, m) ?m () (at_each (zone_rejoined env zone ?n) (music_names env) vs, m)"
  proof (cases leads)
    case True
    have "at_each (returned_leader env zone) {?n} ?vs = at_each (zone_rejoined env zone ?n) (music_names env) vs"
      using name True leads
      by (auto simp: fun_eq_iff at_each_def zone_rejoined_def returned_leader_def others_def option.map_comp comp_def
          intro!: option.map_cong)
    with True runs_rejoin_leader [OF env name, of ?vs m zone] show ?thesis by simp
  next
    case False
    have "at_each (returned_member zone ?n) (music_names env) ?vs = at_each (zone_rejoined env zone ?n) (music_names env) vs"
      unfolding at_each_at_each
      by (rule at_each_cong) (use name False leads in \<open>auto simp: zone_rejoined_def returned_member_def others_def\<close>)
    with False leads runs_rejoin_member [OF env name, of zone ?vs m] show ?thesis by simp
  qed
  then have "runs env (vs, m) (bindP (fatalP (removeFromAllSpeakers env [?n])) (\<lambda>_. catchP ?m (\<lambda>e. retP ()))) ()
      (at_each (zone_rejoined env zone ?n) (music_names env) vs, m)"
    by (intro runs_bindP [OF runs_fatalP [OF runs_removeFromAllSpeakers [OF env]]] runs_catchP)
  then show ?thesis
    unfolding HandleMusicNodeJoin_def by (intro runs_by_leader runs_bindP [OF runs_zone_configs]) (simp add: zone)
qed

section \<open>Properties\<close>

text \<open>
  C20. A speaker that comes back takes its place in its zone. If it leads the zone it is advertised
  under the zone's name again and establishes sessions with the speakers of the zone that are there.
  If it does not, it is not advertised, and the leader of the zone, if it is there, drops an old
  session with it and establishes a new one. All others drop their sessions with it, and the
  configuration is unchanged. When the leader is away as well the returning speaker is silent: it is
  neither advertised nor forwarded to.
\<close>

theorem returning_speaker_takes_its_place:
  assumes "healthy env w" and "nd_Name node \<in> music_names env"
    and "rejoin_zone (nd_Name node) (zone_configs (config_of w) (me_order env (config_of w)) []) None = Some (zone, leads)"
  shows "\<exists>w'. HandleMusicNodeJoin env node w = (Ret (), w') \<and> healthy env w' \<and> config_of w' = config_of w
    \<and> (leads \<longleftrightarrow> zc_Leader zone = nd_Name node)
    \<and> (\<forall>n v. n \<in> music_names env \<and> views w n = Some v \<longrightarrow> views w' n = Some
        (if n = nd_Name node then
           (if leads then v\<lparr>vw_advertised := True, vw_pending := vw_pending v \<union> (set (zc_Speakers zone) \<inter> (music_names env - {n})),
              vw_name := (if TrimSpace (zc_DisplayName zone) = [] then vw_name v else TrimSpace (zc_DisplayName zone))\<rparr>
            else v\<lparr>vw_advertised := False\<rparr>)
         else v\<lparr>vw_sessions := vw_sessions v - {nd_Name node},
                vw_pending := vw_pending v \<union> (if n = zc_Leader zone then {nd_Name node} else {})\<rparr>))"
proof -
  have leads: "leads \<longleftrightarrow> zc_Leader zone = nd_Name node" using assms(3) by (rule rejoin_zone_leads) simp
  obtain w' where "HandleMusicNodeJoin env node w = (Ret (), w')" "healthy env w'" "config_of w' = config_of w"
    "views w' = at_each (zone_rejoined env zone (nd_Name node)) (music_names env) (views w)"
    using healthy_runs [OF assms(1) runs_join [OF _ assms(2,3)]] by blast
  with leads show ?thesis
    by (intro exI [of _ w']) (simp add: at_each_def zone_rejoined_def returned_leader_def others_def)
qed

text \<open>
  C21. \<^verbatim>\<open>AddSpeakersToZone\<close> takes speakers into a zone: they give up their sessions and their
  advertisement, the leader of the zone establishes sessions with them in place of old ones, nobody
  else keeps a session with them, and the zone is stored with the new speakers at its end.
\<close>

theorem added_speakers_join_zone:
  assumes "healthy env w" and "stored_zone env w zone" and "zc_Leader zone \<in> music_names env"
    and "set ids \<subseteq> music_names env" and "ids \<noteq> []"
  shows "\<exists>w'. AddSpeakersToZone env (zc_ID zone) ids w = (Ret (), w') \<and> healthy env w'
    \<and> config_of w' = (config_of w)(zc_ID zone \<mapsto> no_entry\<lparr>ent_Zone := zone\<lparr>zc_Speakers := zc_Speakers zone @ ids\<rparr>\<rparr>)
    \<and> (\<forall>n v. n \<in> music_names env \<and> views w n = Some v \<longrightarrow> views w' n = Some
        (if n = zc_Leader zone then
           v\<lparr>vw_sessions := vw_sessions v - (set ids - {n}), vw_pending := vw_pending v \<union> (set ids - {n})\<rparr>
         else if n \<in> set ids then v\<lparr>vw_advertised := False, vw_sessions := {}\<rparr>
         else v\<lparr>vw_sessions := vw_sessions v - set ids\<rparr>))"
proof -
  have run: "runs env (views w, config_of w) (AddSpeakersToZone env (zc_ID zone) ids) ()
      (at_each (speakers_added (zc_Leader zone) ids) (music_names env) (views w),
       (config_of w)(zc_ID zone \<mapsto> no_entry\<lparr>ent_Zone := zone\<lparr>zc_Speakers := zc_Speakers zone @ ids\<rparr>\<rparr>))"
    if "healthy_env env"
    unfolding AddSpeakersToZone_def update_by_leader_def
    by (intro runs_by_leader runs_addSpeakers that assms(3-5) stored_zone_found [OF assms(2)] stored_zone_id [OF assms(2)])
  obtain w' where "AddSpeakersToZone env (zc_ID zone) ids w = (Ret (), w')" "healthy env w'"
    "views w' = at_each (speakers_added (zc_Leader zone) ids) (music_names env) (views w)"
    "config_of w' = (config_of w)(zc_ID zone \<mapsto> no_entry\<lparr>ent_Zone := zone\<lparr>zc_Speakers := zc_Speakers zone @ ids\<rparr>\<rparr>)"
    using healthy_runs [OF assms(1) run] by blast
  then show ?thesis by (intro exI [of _ w']) (simp add: at_each_def speakers_added_def)
qed

theorem returning_speaker_takes_its_place_witness:
  "\<exists>w' v. HandleMusicNodeJoin (sample_env [''den'', ''hall'']) (zone_node ''hall'')
      (zoned_world [''den'', ''hall''] (sample_zone ''17'' [''den'', ''hall''])) = (Ret (), w')
    \<and> views w' ''hall'' = Some v \<and> \<not> vw_advertised v"
proof -
  let ?names = "[''den'', ''hall'']" and ?zone = "sample_zone ''17'' [''den'', ''hall'']"
  let ?w = "zoned_world ?names ?zone" and ?env = "sample_env ?names"
  have h: "healthy ?env ?w" by (rule zoned_healthy) auto
  have "rejoin_zone (nd_Name (zone_node ''hall'')) (zone_configs (config_of ?w) (me_order ?env (config_of ?w)) []) None =
      Some (?zone, False)"
    by (simp add: sample_env_def zoned_config)
  from returning_speaker_takes_its_place [OF h _ this, unfolded sample_music_names]
  obtain w' where "HandleMusicNodeJoin ?env (zone_node ''hall'') ?w = (Ret (), w')"
    "\<forall>v. views ?w ''hall'' = Some v \<longrightarrow> views w' ''hall'' = Some (v\<lparr>vw_advertised := False\<rparr>)"
    by auto
  moreover obtain v where "views ?w ''hall'' = Some v"
    using healthy_views [OF h, of "''hall''", unfolded sample_music_names] by auto
  ultimately show ?thesis by (intro exI [of _ w'] exI [of _ "v\<lparr>vw_advertised := False\<rparr>"]) simp
qed

theorem added_speakers_join_zone_witness:
  "\<exists>w'. AddSpeakersToZone (sample_env [''den'', ''hall'']) ''17'' [''hall'']
      (zoned_world [''den'', ''hall''] (sample_zone ''17'' [''den''])) = (Ret (), w')
    \<and> map_option (\<lambda>e. zc_Speakers (ent_Zone e)) (config_of w' ''17'') = Some [''den'', ''hall'']"
proof -
  let ?names = "[''den'', ''hall'']" and ?zone = "sample_zone ''17'' [''den'']"
  have h: "healthy (sample_env ?names) (zoned_world ?names ?zone)" by (rule zoned_healthy) auto
  obtain w' where "AddSpeakersToZone (sample_env ?names) (zc_ID ?zone) [''hall''] (zoned_world ?names ?zone) = (Ret (), w')"
    "config_of w' = (config_of (zoned_world ?names ?zone))(zc_ID ?zone \<mapsto>
       no_entry\<lparr>ent_Zone := ?zone\<lparr>zc_Speakers := zc_Speakers ?zone @ [''hall'']\<rparr>\<rparr>)"
    using added_speakers_join_zone [OF h zoned_stored, of "[''hall'']", unfolded sample_music_names] by auto
  then show ?thesis by (intro exI [of _ w']) simp
qed

end
