(* ===== verification/Mgmt_Follower.thy ===== *)
theory Mgmt_Follower
  imports Mgmt_Invariant
begin

text \<open>
  Calls that reach a management node that does not lead: the service passes every change on to the
  leader's API and hands the answer back. The two nodes share one world here, so that what the
  leader does to the speakers and to the configuration is what the follower's caller sees; the
  leader runs the same service in an environment of its own.
\<close>

section \<open>Passing calls on\<close>

text \<open>The calls that need the leader, well formed; a call without its ID is refused on the spot.\<close>

fun needs_leader :: "mgmt_call \<Rightarrow> bool" where
  "needs_leader (SetDisplayNameCall i n b) = True"
| "needs_leader (CreateZoneCall q) = True"
| "needs_leader (AddSpeakersCall q) = (zq_ZoneId q \<noteq> [])"
| "needs_leader (RemoveSpeakersCall q) = (zq_ZoneId q \<noteq> [])"
| "needs_leader (DeleteZoneCall q) = (zq_ZoneId q \<noteq> [])"
| "needs_leader (ChangeZoneNameCall q) = (zq_ZoneId q \<noteq> [])"
| "needs_leader (SetMuteCall i b) = (i \<noteq> [])"
| "needs_leader _ = False"

text \<open>What becomes of a call and of its answer on the way.\<close>

fun without_broadcast :: "mgmt_call \<Rightarrow> mgmt_call" where
  "without_broadcast (SetDisplayNameCall i n b) = SetDisplayNameCall i n False"
| "without_broadcast call = call"

fun relayed :: "mgmt_env \<Rightarrow> mgmt_reply \<Rightarrow> mgmt_reply" where
  "relayed env (UpdateResponse code msg) = UpdateResponse code (if code = 200 then msg else me_errorf env msg)"
| "relayed env (CreateResponse code msg i) = CreateResponse code (if code = 200 then msg else me_errorf env msg) i"
| "relayed env reply = reply"

text \<open>The world when the call goes out: the follower has asked twice, whether it leads and who does.\<close>

definition asked :: "mgmt_world \<Rightarrow> mgmt_world" where
  "asked w = w\<lparr>mw_store := (mw_store w)\<lparr>ds_now := ds_now (mw_store w) + 2\<rparr>\<rparr>"

definition follows :: "mgmt_env \<Rightarrow> mgmt_world \<Rightarrow> string \<Rightarrow> bool" where
  "follows env w client \<longleftrightarrow> ds_raft (mw_store w) \<and> \<not> ra_Leading (me_raft env) (ds_now (mw_store w))
     \<and> getLeaderClient env (ra_Leader (me_raft env) (ds_now (mw_store w) + 1)) = Ret client"

lemma follower_asks:
  assumes "follows env w client" and "me_remote env client call (asked w) = (Ret reply, w')"
  shows "bindP (on_store (AmLeader (me_raft env))) (\<lambda>leading. if \<not> leading then bindP (ask_leader env call) f else m) w =
    f reply w'"
  using assms
  by (simp add: follows_def asked_def bindP_def on_store_def AmLeader_def GetLeader_def raft_call_def ask_leader_def liftR_def)

lemma update_reply_Ret:
  assumes "update_reply m w = (Ret reply, w')"
  shows "reply = UpdateResponse 200 [] \<or> (\<exists>e. reply = UpdateResponse 500 e)"
  using assms by (auto simp: update_reply_def catchP_def bindP_def split: prod.splits res.splits)

lemma update_answer:
  assumes "serve_mgmt ms call w = (Ret reply, w')" and "needs_leader call" and "\<forall>q. call \<noteq> CreateZoneCall q"
  shows "reply = UpdateResponse 200 [] \<or> (\<exists>e. reply = UpdateResponse 500 e)"
  using assms
  by (cases call) (auto simp: api_SetDisplayNameForSpeaker_def api_AddSpeakersToZone_def api_RemoveSpeakersFromZone_def
      api_DeleteZone_def api_ChangeZoneName_def api_SetMuteForSpeaker_def dest: update_reply_Ret)

text \<open>The update calls: the leader's answer to the call that was passed on is handed back.\<close>

lemma follower_updates:
  assumes "follows env w client" and "me_remote env client call (asked w) = (Ret reply, w')"
    and "reply = UpdateResponse 200 [] \<or> (\<exists>e. reply = UpdateResponse 500 e)"
  shows "update_reply (update_by_leader env call m) w = (Ret (relayed env reply), w')"
proof -
  have "update_by_leader env call m w = (update_outcome env reply, w')"
    unfolding update_by_leader_def by (simp add: follower_asks [OF assms(1,2)] liftR_def)
  then show ?thesis
    using assms(3) by (auto simp: update_reply_def catchP_def bindP_def)
qed

lemma follower_creates:
  assumes "follows env w client" and "serve_mgmt ms (CreateZoneCall q') (asked w) = (Ret reply, w')"
    and "me_remote env client (CreateZoneCall (no_zone_request\<lparr>zq_DisplayName := zq_DisplayName q,
      zq_SpeakerIds := zq_SpeakerIds q\<rparr>)) (asked w) = (Ret reply, w')"
  shows "api_CreateZone (distributed_service env) q w = (Ret (relayed env reply), w')"
proof -
  have "CreateZone env (zq_DisplayName q) (zq_SpeakerIds q) w = (create_outcome env reply, w')"
    unfolding CreateZone_def by (simp add: follower_asks [OF assms(1,3)] liftR_def)
  moreover have "(\<exists>i. reply = CreateResponse 200 [] i) \<or> (\<exists>e. reply = CreateResponse 500 e [])"
    using assms(2) by (auto simp: api_CreateZone_def catchP_def bindP_def split: prod.splits res.splits)
  ultimately show ?thesis
    by (auto simp: api_CreateZone_def distributed_service_def catchP_def bindP_def)
qed

section \<open>Properties\<close>

text \<open>
  C7. Every management node answers as the leader does: a change asked of a node that does not lead has
  the effect it has when the leader is asked, and the same answer, with an error's text formatted
  once more on the way. The exception is the change of a speaker's display name, which arrives
  without the wish to update what the speaker broadcasts. The connection delivers what the leader
  answers.
\<close>

theorem follower_answers_as_leader:
  assumes "needs_leader call" and "follows env w client"
    and "\<And>c reply w'. serve_mgmt (distributed_service leader_env) c (asked w) = (Ret reply, w') \<Longrightarrow>
      me_remote env client c (asked w) = (Ret reply, w')"
    and "serve_mgmt (distributed_service leader_env) (without_broadcast call) (asked w) = (Ret reply, w')"
  shows "serve_mgmt (distributed_service env) call w = (Ret (relayed env reply), w')"
proof -
  have update: "update_reply (update_by_leader env c m) w = (Ret (relayed env reply), w')"
    if "serve_mgmt (distributed_service leader_env) c (asked w) = (Ret reply, w')" and "needs_leader c"
      and "\<forall>q. c \<noteq> CreateZoneCall q" for c m
    using that by (intro follower_updates [OF assms(2)] assms(3) update_answer [of _ c])
  show ?thesis
  proof (cases call)
    case (SetDisplayNameCall i n b)
    with assms(4) show ?thesis
      by (simp add: api_SetDisplayNameForSpeaker_def distributed_service_def SetDisplayName_def update)
  next
    case (CreateZoneCall q)
    with assms(4) have leader: "serve_mgmt (distributed_service leader_env) (CreateZoneCall q) (asked w) = (Ret reply, w')"
      by simp
    then have "me_remote env client (CreateZoneCall (no_zone_request\<lparr>zq_DisplayName := zq_DisplayName q,
        zq_SpeakerIds := zq_SpeakerIds q\<rparr>)) (asked w) = (Ret reply, w')"
      by (intro assms(3)) (simp add: api_CreateZone_def no_zone_request_def)
    from follower_creates [OF assms(2) leader this] CreateZoneCall show ?thesis by simp
  next
    case (AddSpeakersCall q)
    with assms(1,4) show ?thesis
      by (simp add: api_AddSpeakersToZone_def distributed_service_def AddSpeakersToZone_def no_zone_request_def update)
  next
    case (RemoveSpeakersCall q)
    with assms(1,4) show ?thesis
      by (simp add: api_RemoveSpeakersFromZone_def distributed_service_def RemoveSpeakersFromZone_def no_zone_request_def update)
  next
    case (DeleteZoneCall q)
    with assms(1,4) show ?thesis
      by (simp add: api_DeleteZone_def distributed_service_def DeleteZone_def no_zone_request_def update)
  next
    case (ChangeZoneNameCall q)
    with assms(1,4) show ?thesis
      by (simp add: api_ChangeZoneName_def distributed_service_def ChangeZoneName_def no_zone_request_def update)
  next
    case (SetMuteCall i b)
    with assms(1,4) show ?thesis
      by (simp add: api_SetMuteForSpeaker_def distributed_service_def SetMuteForSpeaker_def update)
  qed (use assms(1) in simp_all)
qed

text \<open>The witness: a node that does not lead, and the leader at its API.\<close>

definition leader_node :: node where
  "leader_node = \<lparr>nd_Name = ''m1'', nd_Addr = ''10.0.0.2'',
     nd_Meta = Some \<lparr>nm_RtspPort = 0, nm_APIPort = 7777, nm_RaftPort = 4000, nm_NodeType = Mgmt\<rparr>\<rparr>"

definition follower_env :: mgmt_env where
  "follower_env = (sample_env [])\<lparr>me_members := [leader_node], me_raft := sample_raft\<lparr>ra_Leading := \<lambda>t. False\<rparr>,
     me_resolve := \<lambda>leader. Some \<lparr>ta_IP = Some ''10.0.0.2'', ta_Port = 4000\<rparr>,
     me_remote := \<lambda>client. serve_mgmt (distributed_service (sample_env []))\<rparr>"

theorem follower_answers_as_leader_witness:
  "\<exists>w'. serve_mgmt (distributed_service follower_env)
      (CreateZoneCall \<lparr>zq_ZoneId = [], zq_DisplayName = ''Up'', zq_SpeakerIds = []\<rparr>) (sample_world []) =
      (Ret (CreateResponse 200 [] (Itoa 17)), w')"
proof -
  let ?call = "CreateZoneCall \<lparr>zq_ZoneId = [], zq_DisplayName = ''Up'', zq_SpeakerIds = []\<rparr>"
  have "follows follower_env (sample_world []) (''10.0.0.2:'' @ Itoa 7777)"
    by (simp add: follows_def follower_env_def sample_env_def sample_raft_def sample_world_def NewDistributedMgmtService_def
        getLeaderClient_def getLeaderAPIAddress_def FilterMembers_eq leader_node_def has_type_def node_type_defs
        DecodeNodeMeta_def leader_match_def api_address_def)
  moreover have "\<exists>w'. serve_mgmt (distributed_service (sample_env [])) ?call (asked (sample_world [])) =
      (Ret (CreateResponse 200 [] (Itoa 17)), w')"
    by (simp add: api_CreateZone_def distributed_service_def CreateZone_def createZone_leader_def new_zone_def on_store_def
        AmLeader_def raft_call_def save_defs sample_world_def asked_def NewDistributedMgmtService_def bindP_def catchP_def
        fatalP_def liftR_def sample_env_def sample_raft_def commit_def raft_Apply_def Let_def)
  then obtain w' where "serve_mgmt (distributed_service (sample_env [])) (without_broadcast ?call) (asked (sample_world [])) =
      (Ret (CreateResponse 200 [] (Itoa 17)), w')" by (auto simp only: without_broadcast.simps)
  moreover have "me_remote follower_env client = serve_mgmt (distributed_service (sample_env []))" for client
    by (simp add: follower_env_def)
  ultimately have "serve_mgmt (distributed_service follower_env) ?call (sample_world []) =
      (Ret (relayed follower_env (CreateResponse 200 [] (Itoa 17))), w')"
    by (intro follower_answers_as_leader [of ?call follower_env "sample_world []" "''10.0.0.2:'' @ Itoa 7777"]) simp_all
  then show ?thesis by auto
qed

end
