(* ===== verification/Control_Plane.thy ===== *)
theory Control_Plane
  imports Go_Strings "HOL-Library.Multiset"
begin

text \<open>
  The Envoy control plane of the frontend node, \<^verbatim>\<open>cmd/frontend/control/control.go\<close>: the resources that
  tell the proxy to listen on one port and to pass every call on to the management nodes.

  The resources are plain data; each record has the fields that the code sets. The configuration of
  a filter, which the code converts to a generic message, is kept as the message it was made from.
  The names of Envoy's filters are constants of a library and stay symbolic. The snapshot cache is
  an interface value: \<open>None\<close> is nil, on which a method panics, and otherwise it maps the names of
  proxies to snapshots. A snapshot and the control plane share the load assignment in the code; they
  are equal again at the end of every operation.
\<close>

section \<open>Resources\<close>

datatype protocol = TCP | UDP

record socket_address =
  so_Protocol :: protocol
  so_Address :: string
  so_PortValue :: "32 word"

record lb_endpoint =
  lb_Address :: socket_address

record locality =
  lo_LbEndpoints :: "lb_endpoint list"

record load_assignment =
  la_ClusterName :: string
  la_Endpoints :: "locality list"

datatype api_type = REST | GRPC

record config_source =
  cf_ApiType :: api_type
  cf_GrpcServices :: "string list"

datatype discovery_type = STATIC | EDS

record envoy_cluster =
  ec_Name :: string
  ec_ConnectTimeout :: int
  ec_Type :: discovery_type
  ec_EdsConfig :: config_source
  ec_Http2 :: bool

record envoy_route =
  ro_Prefix :: string
  ro_Cluster :: string
  ro_MaxGrpcTimeout :: int

record cors_policy =
  co_AllowOrigin :: "string list"
  co_AllowMethods :: string
  co_AllowHeaders :: string
  co_MaxAge :: string
  co_ExposeHeaders :: string
  co_Enabled :: bool

record virtual_host =
  vh_Name :: string
  vh_Domains :: "string list"
  vh_Routes :: "envoy_route list"
  vh_Cors :: cors_policy

datatype codec_type = AUTO | HTTP1 | HTTP2
datatype filter_name = GRPCWeb | CORS | Router | HTTPConnectionManager

record connection_manager =
  hm_CodecType :: codec_type
  hm_StatPrefix :: string
  hm_RouteName :: string
  hm_VirtualHosts :: "virtual_host list"
  hm_HttpFilters :: "filter_name list"

record listener_filter =
  lf_Name :: filter_name
  lf_Config :: "connection_manager option"

record envoy_listener =
  li_Name :: string
  li_Address :: socket_address
  li_FilterChains :: "listener_filter list list"

record snapshot =
  sn_Version :: string
  sn_Endpoints :: "load_assignment list"
  sn_Clusters :: "envoy_cluster list"
  sn_Listeners :: "envoy_listener list"

type_synonym snapshot_cache = "string \<rightharpoonup> snapshot"

text \<open>
  The library: whether a message converts to its generic form, the outcome of building a snapshot,
  and whether the cache takes it.
\<close>

record envoy_lib =
  el_MessageToStruct :: "connection_manager \<Rightarrow> unit res"
  el_NewSnapshot :: "snapshot \<Rightarrow> unit res"
  el_SetSnapshot :: "snapshot \<Rightarrow> bool"

section \<open>Building the resources\<close>

definition clusterName :: string where "clusterName = ''mgmt-cluster''"
definition listenerName :: string where "listenerName = ''listener_0''"
definition listenerPort :: "32 word" where "listenerPort = 9211"
definition envoyNodeName :: string where "envoyNodeName = ''bcg-frontend-envoy''"

definition hash_ID :: "string option \<Rightarrow> string" where
  "hash_ID node = (case node of None \<Rightarrow> ''unknown'' | Some i \<Rightarrow> i)"

record mgmt_endpoint =
  ep_Host :: string
  ep_Port :: "32 word"

definition buildEndpoint :: "mgmt_endpoint \<Rightarrow> lb_endpoint" where
  "buildEndpoint mgmtEndpoint =
     \<lparr>lb_Address = \<lparr>so_Protocol = TCP, so_Address = ep_Host mgmtEndpoint, so_PortValue = ep_Port mgmtEndpoint\<rparr>\<rparr>"

primrec build_endpoints :: "mgmt_endpoint list \<Rightarrow> lb_endpoint list \<Rightarrow> lb_endpoint list" where
  "build_endpoints [] endpoints = endpoints"
| "build_endpoints (e # es) endpoints = build_endpoints es (endpoints @ [buildEndpoint e])"

definition buildEndpoints :: "mgmt_endpoint list \<Rightarrow> load_assignment" where
  "buildEndpoints mgmtEndpoints =
     \<lparr>la_ClusterName = clusterName, la_Endpoints = [\<lparr>lo_LbEndpoints = build_endpoints mgmtEndpoints []\<rparr>]\<rparr>"

definition buildCluster :: envoy_cluster where
  "buildCluster =
     (let edsSource = \<lparr>cf_ApiType = GRPC, cf_GrpcServices = [''xds_cluster'']\<rparr> in
      \<lparr>ec_Name = clusterName, ec_ConnectTimeout = 250 * 1000000, ec_Type = EDS, ec_EdsConfig = edsSource,
       ec_Http2 = True\<rparr>)"

definition cors_headers :: string where
  "cors_headers = ''keep-alive,user-agent,cache-control,content-type,content-transfer-encoding,custom-header-1,'' @
     ''x-accept-content-transfer-encoding,x-accept-response-streaming,x-user-agent,x-grpc-web,grpc-timeout''"

text \<open>The parts of \<^verbatim>\<open>buildListener\<close>: the route, the policy for other origins, and the manager of connections.\<close>

definition listener_route :: envoy_route where
  "listener_route = \<lparr>ro_Prefix = ''/'', ro_Cluster = clusterName, ro_MaxGrpcTimeout = 0\<rparr>"

definition listener_cors :: cors_policy where
  "listener_cors =
     \<lparr>co_AllowOrigin = [''*''], co_AllowMethods = ''GET, PUT, DELETE, POST, OPTIONS'', co_AllowHeaders = cors_headers,
      co_MaxAge = ''1728000'', co_ExposeHeaders = ''custom-header-1,grpc-status,grpc-message'', co_Enabled = True\<rparr>"

definition listener_manager :: connection_manager where
  "listener_manager =
     (let v = \<lparr>vh_Name = ''local_service'', vh_Domains = [''*''], vh_Routes = [listener_route], vh_Cors = listener_cors\<rparr> in
      \<lparr>hm_CodecType = AUTO, hm_StatPrefix = ''ingress_http'', hm_RouteName = ''local_route'', hm_VirtualHosts = [v],
       hm_HttpFilters = [GRPCWeb, CORS, Router]\<rparr>)"

text \<open>A failing conversion is only logged, and leaves the filter without configuration.\<close>

definition buildListener :: "envoy_lib \<Rightarrow> envoy_listener" where
  "buildListener lib =
     (let manager = listener_manager;
          pbst = (if is_ret (el_MessageToStruct lib manager) then Some manager else None) in
      \<lparr>li_Name = listenerName,
       li_Address = \<lparr>so_Protocol = TCP, so_Address = ''0.0.0.0'', so_PortValue = listenerPort\<rparr>,
       li_FilterChains = [[\<lparr>lf_Name = HTTPConnectionManager, lf_Config = pbst\<rparr>]]\<rparr>)"

section \<open>The control plane\<close>

record control_plane =
  cp_apiPort :: int
  cp_snapshotCache :: "snapshot_cache option"
  cp_cacheVersion :: "32 word"
  cp_cluster :: envoy_cluster
  cp_listener :: envoy_listener
  cp_endpoints :: load_assignment

text \<open>The snapshot of the current resources; the version is a signed 32-bit number that wraps around.\<close>

definition current_snapshot :: "control_plane \<Rightarrow> snapshot" where
  "current_snapshot cp =
     \<lparr>sn_Version = Itoa (sint (cp_cacheVersion cp)), sn_Endpoints = [cp_endpoints cp], sn_Clusters = [cp_cluster cp],
      sn_Listeners = [cp_listener cp]\<rparr>"

definition newSnapshot :: "envoy_lib \<Rightarrow> (control_plane, unit) proc" where
  "newSnapshot lib cp =
     (let snapshot = current_snapshot cp in
      case el_NewSnapshot lib snapshot of
        Err e \<Rightarrow> (Exit e, cp)
      | Panic e \<Rightarrow> (Panic e, cp)
      | Exit e \<Rightarrow> (Exit e, cp)
      | Hang \<Rightarrow> (Hang, cp)
      | Ret _ \<Rightarrow>
          (case cp_snapshotCache cp of
             None \<Rightarrow> (Panic nil_deref, cp)
           | Some cache \<Rightarrow>
               (Ret (), cp\<lparr>cp_snapshotCache := Some (if el_SetSnapshot lib snapshot then cache(envoyNodeName \<mapsto> snapshot) else cache),
                  cp_cacheVersion := cp_cacheVersion cp + 1\<rparr>)))"

text \<open>
  The control plane before its first snapshot. The cache is nil: the line of \<^verbatim>\<open>NewControlPlane\<close> that
  creates one is commented out.
\<close>

definition initial_plane :: "envoy_lib \<Rightarrow> int \<Rightarrow> control_plane" where
  "initial_plane lib apiPort =
     \<lparr>cp_apiPort = apiPort, cp_snapshotCache = None, cp_cacheVersion = 1, cp_cluster = buildCluster,
      cp_listener = buildListener lib, cp_endpoints = buildEndpoints []\<rparr>"

definition NewControlPlane :: "envoy_lib \<Rightarrow> int \<Rightarrow> control_plane res" where
  "NewControlPlane lib apiPort =
     (case newSnapshot lib (initial_plane lib apiPort) of (r, cp) \<Rightarrow> res_bind r (\<lambda>_. Ret cp))"

text \<open>
  Serving the snapshots: the error of listening is dropped, so that the server may be given no
  listener, as is the error with which it gives up; \<open>serve\<close> is the outcome with and without a listener.
\<close>

definition plane_Start :: "unit res \<Rightarrow> (bool \<Rightarrow> unit res) \<Rightarrow> unit res" where
  "plane_Start listen serve =
     (case (case listen of Ret _ \<Rightarrow> serve True | Err e \<Rightarrow> serve False | r \<Rightarrow> r) of Err e \<Rightarrow> Ret () | r \<Rightarrow> r)"

definition UpdateEndpoints :: "envoy_lib \<Rightarrow> mgmt_endpoint list \<Rightarrow> (control_plane, unit) proc" where
  "UpdateEndpoints lib mgmtEndpoints cp = newSnapshot lib (cp\<lparr>cp_endpoints := buildEndpoints mgmtEndpoints\<rparr>)"

text \<open>
  \<open>first_locality\<close> and \<open>set_first\<close> are \<^verbatim>\<open>Endpoints[0]\<close>, read and written; the index is out of range when there is
  no locality.
\<close>

definition first_locality :: "control_plane \<Rightarrow> lb_endpoint list res" where
  "first_locality cp =
     (case la_Endpoints (cp_endpoints cp) of
        [] \<Rightarrow> Panic ''runtime error: index out of range [0] with length 0''
      | l # ls \<Rightarrow> Ret (lo_LbEndpoints l))"

definition set_first :: "lb_endpoint list \<Rightarrow> control_plane \<Rightarrow> control_plane" where
  "set_first l cp =
     cp\<lparr>cp_endpoints := (cp_endpoints cp)\<lparr>la_Endpoints := (la_Endpoints (cp_endpoints cp))[0 := \<lparr>lo_LbEndpoints = l\<rparr>]\<rparr>\<rparr>"

definition AddEndpoint :: "envoy_lib \<Rightarrow> mgmt_endpoint \<Rightarrow> (control_plane, unit) proc" where
  "AddEndpoint lib mgmtEndpoint cp =
     bindP (liftR (first_locality cp)) (\<lambda>l cp. newSnapshot lib (set_first (l @ [buildEndpoint mgmtEndpoint]) cp)) cp"

text \<open>The search loop: the index of the first endpoint with the same host and port, or -1.\<close>

primrec found_index :: "mgmt_endpoint \<Rightarrow> lb_endpoint list \<Rightarrow> int \<Rightarrow> int" where
  "found_index mgmtEndpoint [] i = -1"
| "found_index mgmtEndpoint (e # es) i =
     (if so_Address (lb_Address e) = ep_Host mgmtEndpoint \<and> so_PortValue (lb_Address e) = ep_Port mgmtEndpoint then i
      else found_index mgmtEndpoint es (i + 1))"

definition RemoveEndpoint :: "envoy_lib \<Rightarrow> mgmt_endpoint \<Rightarrow> (control_plane, unit) proc" where
  "RemoveEndpoint lib mgmtEndpoint cp =
     bindP (liftR (first_locality cp)) (\<lambda>l cp.
       let foundIndex = found_index mgmtEndpoint l 0 in
       if foundIndex \<ge> 0 then
         newSnapshot lib (set_first (take (nat foundIndex) l @ drop (nat foundIndex + 1) l) cp)
       else (Ret (), cp)) cp"

section \<open>Well-formed control planes\<close>

text \<open>
  What makes a snapshot complete: every cluster that a route of a listener names is in it, and every
  cluster that discovers its endpoints has a load assignment with at least one locality.
\<close>

definition routed_clusters :: "envoy_listener \<Rightarrow> string list" where
  "routed_clusters l =
     concat (map (\<lambda>f. case lf_Config f of None \<Rightarrow> []
       | Some m \<Rightarrow> concat (map (\<lambda>v. map ro_Cluster (vh_Routes v)) (hm_VirtualHosts m))) (concat (li_FilterChains l)))"

definition complete_snapshot :: "snapshot \<Rightarrow> bool" where
  "complete_snapshot s \<longleftrightarrow>
     (\<forall>l \<in> set (sn_Listeners s). set (routed_clusters l) \<subseteq> ec_Name ` set (sn_Clusters s))
   \<and> (\<forall>c \<in> set (sn_Clusters s). ec_Type c = EDS \<longrightarrow>
        (\<exists>a \<in> set (sn_Endpoints s). la_ClusterName a = ec_Name c \<and> la_Endpoints a \<noteq> []))"

text \<open>The endpoints of a control plane, and the well-formed ones.\<close>

definition plane_endpoints :: "control_plane \<Rightarrow> lb_endpoint list" where
  "plane_endpoints cp = concat (map lo_LbEndpoints (la_Endpoints (cp_endpoints cp)))"

definition plane_ok :: "envoy_lib \<Rightarrow> control_plane \<Rightarrow> bool" where
  "plane_ok lib cp \<longleftrightarrow> cp_snapshotCache cp \<noteq> None \<and> cp_cluster cp = buildCluster \<and> cp_listener cp = buildListener lib
     \<and> la_ClusterName (cp_endpoints cp) = clusterName \<and> length (la_Endpoints (cp_endpoints cp)) = 1"

definition published :: "control_plane \<Rightarrow> snapshot option" where
  "published cp = (case cp_snapshotCache cp of None \<Rightarrow> None | Some cache \<Rightarrow> cache envoyNodeName)"

text \<open>A library on which building and storing a snapshot works.\<close>

definition lib_ok :: "envoy_lib \<Rightarrow> bool" where
  "lib_ok lib \<longleftrightarrow> (\<forall>s. el_NewSnapshot lib s = Ret ()) \<and> (\<forall>s. el_SetSnapshot lib s)"

lemma plane_ok_complete:
  assumes "plane_ok lib cp"
  shows "complete_snapshot (current_snapshot cp)"
proof -
  have "la_Endpoints (cp_endpoints cp) \<noteq> []" using assms by (auto simp: plane_ok_def)
  then show ?thesis
    using assms
    by (auto simp: plane_ok_def complete_snapshot_def current_snapshot_def routed_clusters_def buildListener_def
        buildCluster_def listener_manager_def listener_route_def Let_def split: if_splits)
qed

lemma plane_okE:
  assumes "plane_ok lib cp"
  obtains cache l where "cp_snapshotCache cp = Some cache" "la_Endpoints (cp_endpoints cp) = [\<lparr>lo_LbEndpoints = l\<rparr>]"
    "first_locality cp = Ret l" "plane_endpoints cp = l"
proof -
  obtain cache a where c: "cp_snapshotCache cp = Some cache" "la_Endpoints (cp_endpoints cp) = [a]"
    using assms by (auto simp: plane_ok_def length_Suc_conv)
  moreover have "a = \<lparr>lo_LbEndpoints = lo_LbEndpoints a\<rparr>" by simp
  ultimately show ?thesis by (intro that [of cache "lo_LbEndpoints a"]) (simp_all add: first_locality_def plane_endpoints_def)
qed

lemma set_first_ok:
  assumes "plane_ok lib cp"
  shows "plane_ok lib (set_first l cp)" and "plane_endpoints (set_first l cp) = l"
    and "cp_cacheVersion (set_first l cp) = cp_cacheVersion cp"
  using assms by (auto simp: set_first_def plane_ok_def plane_endpoints_def length_Suc_conv)

lemma buildEndpoints_ok:
  assumes "plane_ok lib cp"
  shows "plane_ok lib (cp\<lparr>cp_endpoints := buildEndpoints es\<rparr>)"
    and "plane_endpoints (cp\<lparr>cp_endpoints := buildEndpoints es\<rparr>) = map buildEndpoint es"
proof -
  have "build_endpoints es acc = acc @ map buildEndpoint es" for acc by (induction es arbitrary: acc) auto
  then show "plane_ok lib (cp\<lparr>cp_endpoints := buildEndpoints es\<rparr>)"
    "plane_endpoints (cp\<lparr>cp_endpoints := buildEndpoints es\<rparr>) = map buildEndpoint es"
    using assms by (simp_all add: plane_ok_def plane_endpoints_def buildEndpoints_def)
qed

text \<open>\<open>shows_current\<close>: the published snapshot lists the endpoints, under the version before the next.\<close>

definition shows_current :: "control_plane \<Rightarrow> bool" where
  "shows_current cp \<longleftrightarrow>
     published cp = Some (current_snapshot (cp\<lparr>cp_cacheVersion := cp_cacheVersion cp - 1\<rparr>))"

lemma newSnapshot_current:
  assumes "lib_ok lib" and "plane_ok lib cp"
  shows "\<exists>cp'. newSnapshot lib cp = (Ret (), cp') \<and> plane_ok lib cp' \<and> shows_current cp'
    \<and> plane_endpoints cp' = plane_endpoints cp \<and> cp_cacheVersion cp' = cp_cacheVersion cp + 1"
  using assms
  by (auto simp: newSnapshot_def lib_ok_def plane_ok_def published_def shows_current_def current_snapshot_def
      plane_endpoints_def Let_def)

section \<open>Registries of endpoints\<close>

text \<open>
  What the frontend relies on: operations that replace, add and remove entries, never fail on a
  good state and change its entries as the operations on multisets do.
\<close>

datatype 'e registry_op = Replace "'e list" | Add 'e | Remove 'e

fun entries_after :: "'e registry_op \<Rightarrow> 'e multiset \<Rightarrow> 'e multiset" where
  "entries_after (Replace es) M = mset es"
| "entries_after (Add e) M = M + {#e#}"
| "entries_after (Remove e) M = M - {#e#}"

locale registry =
  fixes act :: "'e registry_op \<Rightarrow> ('s, unit) proc"
    and ok :: "'s \<Rightarrow> bool"
    and entries :: "'s \<Rightarrow> 'e multiset"
  assumes act_entries: "ok s \<Longrightarrow> \<exists>s'. act op s = (Ret (), s') \<and> ok s' \<and> entries s' = entries_after op (entries s)"
begin

lemma acts_entries:
  "ok s \<Longrightarrow> \<exists>s'. for_each act ops s = (Ret (), s') \<and> ok s' \<and> entries s' = fold entries_after ops (entries s)"
proof (induction ops arbitrary: s)
  case (Cons op ops)
  obtain s1 where s1: "act op s = (Ret (), s1)" "ok s1" "entries s1 = entries_after op (entries s)"
    using act_entries [OF Cons.prems] by blast
  from Cons.IH [OF s1(2)] s1 show ?case by (simp add: bindP_def)
qed simp

end

fun plane_act :: "envoy_lib \<Rightarrow> mgmt_endpoint registry_op \<Rightarrow> (control_plane, unit) proc" where
  "plane_act lib (Replace es) = UpdateEndpoints lib es"
| "plane_act lib (Add e) = AddEndpoint lib e"
| "plane_act lib (Remove e) = RemoveEndpoint lib e"

definition endpoint_of :: "lb_endpoint \<Rightarrow> mgmt_endpoint" where
  "endpoint_of e = \<lparr>ep_Host = so_Address (lb_Address e), ep_Port = so_PortValue (lb_Address e)\<rparr>"

definition plane_entries :: "control_plane \<Rightarrow> mgmt_endpoint multiset" where
  "plane_entries cp = mset (map endpoint_of (plane_endpoints cp))"

definition plane_current :: "envoy_lib \<Rightarrow> control_plane \<Rightarrow> bool" where
  "plane_current lib cp \<longleftrightarrow> lib_ok lib \<and> plane_ok lib cp \<and> shows_current cp"

lemma endpoint_of_build [simp]: "endpoint_of (buildEndpoint e) = e"
  by (simp add: endpoint_of_def buildEndpoint_def)

text \<open>The search finds an endpoint, and cutting it out removes one copy of it.\<close>

lemma found_index_Cons:
  "found_index m (e # es) i = (if endpoint_of e = m then i else found_index m es (i + 1))"
  by (cases m) (auto simp: endpoint_of_def)

lemma found_index_first:
  "m \<notin> endpoint_of ` set ys \<Longrightarrow> endpoint_of e = m \<Longrightarrow> found_index m (ys @ e # zs) i = i + int (length ys)"
  by (induction ys arbitrary: i) (auto simp: found_index_Cons simp del: found_index.simps(2))

lemma found_index_none: "m \<notin> endpoint_of ` set ys \<Longrightarrow> found_index m ys i = -1"
  by (induction ys arbitrary: i) (auto simp: found_index_Cons simp del: found_index.simps(2))

lemma cut_found:
  "found_index m l 0 < 0 \<and> m \<notin> endpoint_of ` set l
   \<or> found_index m l 0 \<ge> 0 \<and> mset (map endpoint_of (take (nat (found_index m l 0)) l @ drop (nat (found_index m l 0) + 1) l)) =
     mset (map endpoint_of l) - {#m#}"
proof (cases "m \<in> endpoint_of ` set l")
  case True
  then have "\<exists>e \<in> set l. endpoint_of e = m" by auto
  then show ?thesis
  proof (rule split_list_first_propE)
    fix ys e zs assume l: "l = ys @ e # zs" and e: "endpoint_of e = m" and ys: "\<forall>y \<in> set ys. endpoint_of y \<noteq> m"
    then have "found_index m l 0 = int (length ys)" by (subst l, subst found_index_first) auto
    with l e show ?thesis by simp
  qed
qed (simp add: found_index_none)

lemma newSnapshot_entries:
  assumes "lib_ok lib" and "plane_ok lib cp"
  shows "\<exists>cp'. newSnapshot lib cp = (Ret (), cp') \<and> plane_current lib cp' \<and> plane_entries cp' = plane_entries cp"
  using newSnapshot_current [OF assms] assms(1) by (auto simp: plane_current_def plane_entries_def)

lemma plane_act_entries:
  assumes "plane_current lib cp"
  shows "\<exists>cp'. plane_act lib op cp = (Ret (), cp') \<and> plane_current lib cp'
    \<and> plane_entries cp' = entries_after op (plane_entries cp)"
proof -
  have lib: "lib_ok lib" and ok: "plane_ok lib cp" using assms by (simp_all add: plane_current_def)
  obtain l where l: "first_locality cp = Ret l" "plane_endpoints cp = l" using ok by (rule plane_okE)
  note published = newSnapshot_entries [OF lib set_first_ok(1) [OF ok]]
  show ?thesis
  proof (cases op)
    case (Replace es)
    then show ?thesis
      using newSnapshot_entries [OF lib buildEndpoints_ok(1) [OF ok], of es] buildEndpoints_ok(2) [OF ok, of es]
      by (auto simp: UpdateEndpoints_def plane_entries_def comp_def)
  next
    case (Add e)
    then show ?thesis
      using published [of "l @ [buildEndpoint e]"] l
      by (auto simp: AddEndpoint_def bindP_def liftR_def plane_entries_def set_first_ok(2) [OF ok])
  next
    case (Remove e)
    from cut_found [of e l] show ?thesis
    proof
      assume "found_index e l 0 < 0 \<and> e \<notin> endpoint_of ` set l"
      then show ?thesis
        using assms l Remove by (simp add: RemoveEndpoint_def bindP_def liftR_def plane_entries_def diff_single_trivial)
    next
      let ?l = "take (nat (found_index e l 0)) l @ drop (nat (found_index e l 0) + 1) l"
      assume "found_index e l 0 \<ge> 0 \<and> mset (map endpoint_of ?l) = mset (map endpoint_of l) - {#e#}"
      then show ?thesis
        using published [of ?l] l Remove
        by (auto simp: RemoveEndpoint_def bindP_def liftR_def plane_entries_def set_first_ok(2) [OF ok])
    qed
  qed
qed

interpretation plane: registry "plane_act lib" "plane_current lib" plane_entries for lib
  by unfold_locales (rule plane_act_entries)

text \<open>The control plane as it is created has no cache, and publishing its first snapshot panics.\<close>

lemma new_control_plane_panics: "lib_ok lib \<Longrightarrow> NewControlPlane lib port = Panic nil_deref"
  by (simp add: NewControlPlane_def newSnapshot_def initial_plane_def lib_ok_def)

section \<open>Properties\<close>

text \<open>
  C16. The operations keep a control plane well formed: from any control plane that has a snapshot
  cache, the resources that the constructor builds, and a published snapshot of them, every sequence
  of operations runs without a panic, because the one locality that the code indexes without a check
  stays, and leaves a complete snapshot on offer: the listener is there, every cluster its routes
  name is in the snapshot, the cluster has its load assignment, and that lists exactly the endpoints
  that the operations leave of those before. (\<^verbatim>\<open>NewControlPlane\<close> itself creates no cache and panics.)
\<close>

theorem control_plane_stays_complete:
  assumes "lib_ok lib" and "plane_ok lib cp" and "shows_current cp"
  shows "\<exists>cp' s. for_each (plane_act lib) ops cp = (Ret (), cp')
    \<and> length (la_Endpoints (cp_endpoints cp')) = 1
    \<and> published cp' = Some s \<and> complete_snapshot s
    \<and> map (so_PortValue \<circ> li_Address) (sn_Listeners s) = [listenerPort] \<and> sn_Clusters s = [buildCluster]
    \<and> sn_Endpoints s = [cp_endpoints cp']
    \<and> mset (map endpoint_of (plane_endpoints cp')) = fold entries_after ops (mset (map endpoint_of (plane_endpoints cp)))"
proof -
  have "plane_current lib cp" using assms by (simp add: plane_current_def)
  then obtain cp' where cp': "for_each (plane_act lib) ops cp = (Ret (), cp')" "plane_current lib cp'"
    "plane_entries cp' = fold entries_after ops (plane_entries cp)"
    using plane.acts_entries [of lib cp ops] by blast
  let ?old = "cp'\<lparr>cp_cacheVersion := cp_cacheVersion cp' - 1\<rparr>"
  have ok: "plane_ok lib cp'" "published cp' = Some (current_snapshot ?old)"
    using cp'(2) by (simp_all add: plane_current_def shows_current_def)
  then have "plane_ok lib ?old" by (simp add: plane_ok_def)
  from plane_ok_complete [OF this] have "complete_snapshot (current_snapshot ?old)" .
  with ok cp'(1,3) show ?thesis
    by (intro exI [of _ cp'] exI [of _ "current_snapshot ?old"])
      (simp add: plane_ok_def current_snapshot_def buildListener_def plane_entries_def Let_def)
qed

lemma mset_eq_single: "mset xs = mset [x] \<longleftrightarrow> xs = [x]"
  by simp

definition working_lib :: envoy_lib where
  "working_lib = \<lparr>el_MessageToStruct = (\<lambda>m. Ret ()), el_NewSnapshot = (\<lambda>s. Ret ()), el_SetSnapshot = (\<lambda>s. True)\<rparr>"

lemma working_lib_ok: "lib_ok working_lib"
  by (simp add: lib_ok_def working_lib_def)

text \<open>A control plane with a cache, for the witnesses.\<close>

definition sample_plane :: control_plane where
  "sample_plane = snd (newSnapshot working_lib ((initial_plane working_lib 9000)\<lparr>cp_snapshotCache := Some Map.empty\<rparr>))"

lemma sample_plane_ok:
  "plane_ok working_lib sample_plane" "shows_current sample_plane" "plane_endpoints sample_plane = []"
proof -
  let ?cp = "(initial_plane working_lib 9000)\<lparr>cp_snapshotCache := Some Map.empty\<rparr>"
  have "plane_ok working_lib ?cp" "plane_endpoints ?cp = []"
    by (simp_all add: plane_ok_def initial_plane_def buildEndpoints_def plane_endpoints_def)
  with newSnapshot_current [OF working_lib_ok, of ?cp]
  show "plane_ok working_lib sample_plane" "shows_current sample_plane" "plane_endpoints sample_plane = []"
    by (auto simp: sample_plane_def)
qed

theorem control_plane_stays_complete_witness:
  "\<exists>cp'. for_each (plane_act working_lib) [Add \<lparr>ep_Host = ''m1'', ep_Port = 7777\<rparr>, Add \<lparr>ep_Host = ''m2'', ep_Port = 7777\<rparr>,
      Remove \<lparr>ep_Host = ''m1'', ep_Port = 7777\<rparr>] sample_plane = (Ret (), cp')
    \<and> map endpoint_of (plane_endpoints cp') = [\<lparr>ep_Host = ''m2'', ep_Port = 7777\<rparr>] \<and> published cp' \<noteq> None"
proof -
  let ?ops = "[Add \<lparr>ep_Host = ''m1'', ep_Port = 7777\<rparr>, Add \<lparr>ep_Host = ''m2'', ep_Port = 7777\<rparr>,
    Remove \<lparr>ep_Host = ''m1'', ep_Port = 7777\<rparr>]"
  obtain cp' where cp': "for_each (plane_act working_lib) ?ops sample_plane = (Ret (), cp')" "published cp' \<noteq> None"
    "mset (map endpoint_of (plane_endpoints cp')) = fold entries_after ?ops {#}"
    using control_plane_stays_complete [OF working_lib_ok sample_plane_ok(1,2), of ?ops] sample_plane_ok(3) by auto
  have "fold entries_after ?ops {#} = mset [\<lparr>ep_Host = ''m2'', ep_Port = 7777\<rparr>]" by simp
  with cp'(3) have "map endpoint_of (plane_endpoints cp') = [\<lparr>ep_Host = ''m2'', ep_Port = 7777\<rparr>]"
    by (simp add: mset_eq_single del: mset_map)
  with cp'(1,2) show ?thesis by (intro exI [of _ cp'] conjI)
qed

end
