(* ===== verification/Node_Config.thy ===== *)
theory Node_Config
  imports Cluster Go_Strings
begin

text \<open>
  How the three programs start: reading the configuration file, giving the node a name that is
  written back, the node's metadata, the search for a cluster, and waiting for the end. The code
  is repeated in \<^verbatim>\<open>cmd/bcg.go\<close>, \<^verbatim>\<open>cmd/mgmt/bcg-mgmt.go\<close> and \<^verbatim>\<open>cmd/frontend/bcg-frontend.go\<close>, with a
  configuration type of its own in each.

  The state is the machine's files and the services that the process has started. The TOML library
  is a parameter for each configuration type (\<open>toml_lib\<close>), as are the outcomes of the calls to the
  membership and discovery libraries (\<open>node_env\<close>); \<open>nv_Found i\<close> is what the \<open>i\<close>-th search meets.
\<close>

section \<open>Configurations\<close>

record node_config =
  nc_APIPort :: int
  nc_ClusterPort :: int
  nc_Name :: string

record rtsp_config =
  rc_Name :: string
  rc_Port :: int

record speaker_conf =
  bc_Node :: node_config
  bc_Rtsp :: rtsp_config

record mgmt_config =
  gc_RaftPort :: int
  gc_StorageDir :: string

record mgmt_conf =
  mc_Node :: node_config
  mc_Mgmt :: mgmt_config

record frontend_node_config = node_config +
  nc_WebServerPort :: int

record frontend_conf =
  fc_Node :: frontend_node_config

record 'c toml_lib =
  tl_Unmarshal :: "string \<Rightarrow> 'c res"
  tl_Marshal :: "'c \<Rightarrow> string res"

section \<open>Machines\<close>

datatype node_service =
    Mdns_Service string int
  | Airplay_Service bool
  | API_Service int
  | Control_Plane_Service int
  | Web_UI int

record machine =
  ma_files :: "string \<rightharpoonup> string"
  ma_started :: "node_service list"

record node_env =
  nv_Generate :: string
  nv_WriteFile :: "string \<Rightarrow> unit res"
  nv_Create :: "string \<Rightarrow> int \<Rightarrow> node_meta \<Rightarrow> unit res"
  nv_Found :: "nat \<Rightarrow> discovery"
  nv_Join :: "string \<Rightarrow> unit res"
  nv_members :: "node list"
  nv_Register :: "string \<Rightarrow> int \<Rightarrow> unit res"
  nv_Shutdown :: "bool \<Rightarrow> unit res"
  nv_Listen :: "int \<Rightarrow> unit res"
  nv_Serve :: "int \<Rightarrow> unit res"
  nv_signalled :: bool

definition start_service :: "node_service \<Rightarrow> (machine, unit) proc" where
  "start_service s m = (Ret (), m\<lparr>ma_started := ma_started m @ [s]\<rparr>)"

section \<open>Reading the configuration\<close>

definition ReadFile :: "string \<Rightarrow> (machine, string) proc" where
  "ReadFile path m = (case ma_files m path of None \<Rightarrow> Err ''no such file'' | Some bytes \<Rightarrow> Ret bytes, m)"

text \<open>Writing a file; when the library reports an error, the file is taken to be as it was.\<close>

definition WriteFile :: "node_env \<Rightarrow> string \<Rightarrow> string \<Rightarrow> (machine, unit) proc" where
  "WriteFile env path bytes m =
     (case nv_WriteFile env path of
        Ret _ \<Rightarrow> (Ret (), m\<lparr>ma_files := (ma_files m)(path \<mapsto> bytes)\<rparr>)
      | r \<Rightarrow> (r, m))"

definition mapP :: "('a res \<Rightarrow> 'b res) \<Rightarrow> ('s, 'a) proc \<Rightarrow> ('s, 'b) proc" where
  "mapP f p s = (case p s of (r, s') \<Rightarrow> (f r, s'))"

definition read_config :: "'c toml_lib \<Rightarrow> string \<Rightarrow> (machine, 'c) proc" where
  "read_config toml path =
     bindP (mapP (fatal_res ''Could not open config file: '') (ReadFile path)) (\<lambda>configFile.
       liftR (fatal_res ''Could parse open config file: '' (tl_Unmarshal toml configFile)))"

text \<open>
  A configuration without a node name gets a generated one and is written back; \<open>strict\<close> is whether a
  failure to write ends the process.
\<close>

definition load_config :: "bool \<Rightarrow> ('c \<Rightarrow> string) \<Rightarrow> (string \<Rightarrow> 'c \<Rightarrow> 'c) \<Rightarrow> node_env \<Rightarrow> 'c toml_lib \<Rightarrow> string \<Rightarrow> (machine, 'c) proc" where
  "load_config strict name set_name env toml path =
     bindP (read_config toml path) (\<lambda>config.
       if name config = [] then
         (let config' = set_name (nv_Generate env) config in
          bindP (liftR (case tl_Marshal toml config' of Err e \<Rightarrow> Exit ''Could not update config'' | r \<Rightarrow> r)) (\<lambda>updated.
          bindP (if strict then mapP (fatal_res []) (WriteFile env path updated)
                 else catchP (WriteFile env path updated) (\<lambda>e. retP ())) (\<lambda>_.
            retP config')))
       else retP config)"

definition speaker_load_config :: "node_env \<Rightarrow> speaker_conf toml_lib \<Rightarrow> string \<Rightarrow> (machine, speaker_conf) proc" where
  "speaker_load_config =
     load_config True (\<lambda>c. nc_Name (bc_Node c)) (\<lambda>n c. c\<lparr>bc_Node := (bc_Node c)\<lparr>nc_Name := n\<rparr>\<rparr>)"

definition mgmt_load_config :: "node_env \<Rightarrow> mgmt_conf toml_lib \<Rightarrow> string \<Rightarrow> (machine, mgmt_conf) proc" where
  "mgmt_load_config =
     load_config True (\<lambda>c. nc_Name (mc_Node c)) (\<lambda>n c. c\<lparr>mc_Node := (mc_Node c)\<lparr>nc_Name := n\<rparr>\<rparr>)"

definition frontend_load_config :: "node_env \<Rightarrow> frontend_conf toml_lib \<Rightarrow> string \<Rightarrow> (machine, frontend_conf) proc" where
  "frontend_load_config =
     load_config False (\<lambda>c. nc_Name (fc_Node c)) (\<lambda>n c. c\<lparr>fc_Node := (fc_Node c)\<lparr>nc_Name := n\<rparr>\<rparr>)"

section \<open>Joining and waiting\<close>

text \<open>The address of the cluster that was found; the code takes the first address without a check.\<close>

definition join_address :: "service_entry \<Rightarrow> string res" where
  "join_address entry =
     (case en_AddrIPv4 entry of
        [] \<Rightarrow> Panic ''runtime error: index out of range [0] with length 0''
      | a # as \<Rightarrow> Ret (a @ '':'' @ Itoa (en_Port entry)))"

definition join_cluster :: "node_env \<Rightarrow> service_entry \<Rightarrow> unit res" where
  "join_cluster env entry =
     res_bind (join_address entry) (\<lambda>address. panic_res ''Failed to join cluster: '' (nv_Join env address))"

text \<open>
  An error of the registration is only logged, and leaves a nil server, on which the deferred \<^verbatim>\<open>Shutdown\<close>
  is called all the same: \<open>nv_Shutdown\<close> is its outcome, for a server and for nil.
\<close>

definition register_node :: "node_env \<Rightarrow> string \<Rightarrow> int \<Rightarrow> (machine, bool) proc" where
  "register_node env name port =
     catchP
       (bindP (liftR (nv_Register env name port)) (\<lambda>_.
        bindP (start_service (Mdns_Service name port)) (\<lambda>_. retP True)))
       (\<lambda>e. retP False)"

definition search_cluster :: "node_env \<Rightarrow> nat \<Rightarrow> service_entry option res" where
  "search_cluster env i = SearchForCluster (nv_Found env i)"

text \<open>
  The frontend searches until it finds a cluster, or a search ends the process; \<open>None\<close> is a loop that
  never ends.
\<close>

fun search_outcome :: "service_entry option res \<Rightarrow> service_entry res option" where
  "search_outcome (Ret None) = None"
| "search_outcome (Ret (Some entry)) = Some (Ret entry)"
| "search_outcome (Err e) = Some (Err e)"
| "search_outcome (Panic e) = Some (Panic e)"
| "search_outcome (Exit e) = Some (Exit e)"
| "search_outcome Hang = Some Hang"

partial_function (option) search_from :: "(nat \<Rightarrow> service_entry option res) \<Rightarrow> nat \<Rightarrow> service_entry res option" where
  "search_from search i =
     (case search_outcome (search i) of Some r \<Rightarrow> Some r | None \<Rightarrow> search_from search (i + 1))"

text \<open>
  The end of \<^verbatim>\<open>main\<close>: a \<^verbatim>\<open>select\<close> on the channel of signals. With a default case it does not wait.
\<close>

definition await_signal :: "bool \<Rightarrow> node_env \<Rightarrow> unit res" where
  "await_signal has_default env = (if nv_signalled env \<or> has_default then Ret () else Hang)"

text \<open>Serving an API: failing to listen, or the server giving up, ends the process.\<close>

definition startAPIServer :: "node_env \<Rightarrow> int \<Rightarrow> unit res" where
  "startAPIServer env port =
     res_bind (fatal_res ''failed to listen: '' (nv_Listen env port)) (\<lambda>_.
       fatal_res ''failed to serve: '' (nv_Serve env port))"

text \<open>The management node has a function of its own for that, which differs in the service it serves.\<close>

definition mgmt_startAPIServer :: "node_env \<Rightarrow> int \<Rightarrow> unit res" where
  "mgmt_startAPIServer env port =
     res_bind (fatal_res ''failed to listen: '' (nv_Listen env port)) (\<lambda>_.
       fatal_res ''failed to serve: '' (nv_Serve env port))"

section \<open>Waiting and names\<close>

lemma search_from_found:
  assumes "search_from search i = Some r"
  shows "\<exists>n \<ge> i. search_outcome (search n) = Some r \<and> (\<forall>j. i \<le> j \<and> j < n \<longrightarrow> search j = Ret None)"
proof (rule search_from.raw_induct [where P = "\<lambda>search i r. \<exists>n \<ge> i. search_outcome (search n) = Some r
      \<and> (\<forall>j. i \<le> j \<and> j < n \<longrightarrow> search j = Ret None)", OF _ assms])
  fix rec :: "(nat \<Rightarrow> service_entry option res) \<Rightarrow> nat \<Rightarrow> service_entry res option" and search i r
  assume IH: "\<And>search i r. rec search i = Some r \<Longrightarrow> \<exists>n \<ge> i. search_outcome (search n) = Some r
      \<and> (\<forall>j. i \<le> j \<and> j < n \<longrightarrow> search j = Ret None)"
    and found: "(case search_outcome (search i) of None \<Rightarrow> rec search (i + 1) | Some r \<Rightarrow> Some r) = Some r"
  show "\<exists>n \<ge> i. search_outcome (search n) = Some r \<and> (\<forall>j. i \<le> j \<and> j < n \<longrightarrow> search j = Ret None)"
  proof (cases "search_outcome (search i)")
    case None
    with found have "rec search (i + 1) = Some r" by simp
    from IH [OF this] obtain n where n: "n \<ge> i + 1" "search_outcome (search n) = Some r"
      "\<forall>j. i + 1 \<le> j \<and> j < n \<longrightarrow> search j = Ret None"
      by blast
    have "search i = Ret None" using None by (cases "search i" rule: search_outcome.cases) auto
    then have "search j = Ret None" if "i \<le> j \<and> j < n" for j using that n(3) by (cases "j = i") auto
    with n show ?thesis by (intro exI [of _ n]) auto
  next
    case (Some r')
    with found show ?thesis by (intro exI [of _ i]) auto
  qed
qed

lemma search_from_ends: "search_outcome (search n) = Some r \<Longrightarrow> i \<le> n \<Longrightarrow> \<exists>r'. search_from search i = Some r'"
proof (induction "n - i" arbitrary: i)
  case 0
  then show ?case by (subst search_from.simps) simp
next
  case (Suc k)
  then have "\<exists>r'. search_from search (i + 1) = Some r'" by simp
  then show ?case by (subst search_from.simps) (auto split: option.splits)
qed

lemma search_outcome_None_iff: "search_outcome r = None \<longleftrightarrow> r = Ret None"
  by (cases r rule: search_outcome.cases) auto

lemma load_config_again:
  assumes round_trip: "\<And>c bytes. tl_Marshal toml c = Ret bytes \<Longrightarrow> tl_Unmarshal toml bytes = Ret c"
    and named: "\<And>n c. name (set_name n c) = n"
    and first: "load_config strict name set_name env toml path m = (Ret config, m')" and "nv_Generate env \<noteq> []"
    and written: "strict \<or> nv_WriteFile env path = Ret ()"
  shows "name config \<noteq> [] \<and> load_config strict' name set_name env' toml path m' = (Ret config, m')"
proof -
  obtain bytes c where c: "ma_files m path = Some bytes" "tl_Unmarshal toml bytes = Ret c"
    using first
    by (auto simp: load_config_def read_config_def ReadFile_def mapP_def bindP_def liftR_def
        split: option.splits res.splits prod.splits elim: fatal_res.elims)
  have again: "load_config strict' name set_name env' toml path m' = (Ret config, m')"
    if "ma_files m' path = Some bytes'" "tl_Unmarshal toml bytes' = Ret config" "name config \<noteq> []" for bytes'
    using that by (simp add: load_config_def read_config_def ReadFile_def mapP_def bindP_def liftR_def)
  show ?thesis
  proof (cases "name c = []")
    case False
    with first c have "config = c" "m' = m"
      by (simp_all add: load_config_def read_config_def ReadFile_def mapP_def bindP_def liftR_def)
    with again c False show ?thesis by simp
  next
    case True
    let ?c = "set_name (nv_Generate env) c"
    obtain updated where u: "tl_Marshal toml ?c = Ret updated"
      using first c True
      by (auto simp: load_config_def read_config_def ReadFile_def mapP_def bindP_def liftR_def Let_def split: res.splits)
    then have "config = ?c" "ma_files m' path = Some updated"
      using first c True written
      by (auto simp: load_config_def read_config_def ReadFile_def WriteFile_def mapP_def bindP_def catchP_def liftR_def Let_def
          split: res.splits if_splits)
    with again [of updated] round_trip [OF u] named assms(4) show ?thesis by simp
  qed
qed

section \<open>Properties\<close>

text \<open>
  C26. A node keeps its name: whatever name is generated when a speaker or a management node is first
  started, every later start finds the same configuration, name included, and leaves the file alone.
  A frontend node does so only if the file could be written, because the error is ignored there:
  otherwise it has a new name after each start. For a TOML library that reads what it has written.
\<close>

theorem node_keeps_its_name:
  assumes "\<And>c bytes. tl_Marshal stoml c = Ret bytes \<Longrightarrow> tl_Unmarshal stoml bytes = Ret c"
    and "\<And>c bytes. tl_Marshal mtoml c = Ret bytes \<Longrightarrow> tl_Unmarshal mtoml bytes = Ret c"
    and "\<And>c bytes. tl_Marshal ftoml c = Ret bytes \<Longrightarrow> tl_Unmarshal ftoml bytes = Ret c"
    and "nv_Generate env \<noteq> []"
  shows "(speaker_load_config env stoml path m = (Ret sc, m1) \<longrightarrow>
        nc_Name (bc_Node sc) \<noteq> [] \<and> speaker_load_config env' stoml path m1 = (Ret sc, m1))
    \<and> (mgmt_load_config env mtoml path m = (Ret mc, m2) \<longrightarrow>
        nc_Name (mc_Node mc) \<noteq> [] \<and> mgmt_load_config env' mtoml path m2 = (Ret mc, m2))
    \<and> (frontend_load_config env ftoml path m = (Ret fc, m3) \<and> nv_WriteFile env path = Ret () \<longrightarrow>
        nc_Name (fc_Node fc) \<noteq> [] \<and> frontend_load_config env' ftoml path m3 = (Ret fc, m3))
    \<and> (frontend_load_config env ftoml path m = (Ret fc, m3) \<and> nv_WriteFile env path = Err e
        \<and> map_option (map_res (nc_Name \<circ> fc_Node) \<circ> tl_Unmarshal ftoml) (ma_files m path) = Some (Ret []) \<longrightarrow>
        nc_Name (fc_Node fc) = nv_Generate env \<and> m3 = m)"
proof -
  have "nc_Name (bc_Node sc) \<noteq> [] \<and> speaker_load_config env' stoml path m1 = (Ret sc, m1)"
    if "speaker_load_config env stoml path m = (Ret sc, m1)"
    using load_config_again [OF assms(1) _ that [unfolded speaker_load_config_def] assms(4), of True env']
    unfolding speaker_load_config_def by simp
  moreover have "nc_Name (mc_Node mc) \<noteq> [] \<and> mgmt_load_config env' mtoml path m2 = (Ret mc, m2)"
    if "mgmt_load_config env mtoml path m = (Ret mc, m2)"
    using load_config_again [OF assms(2) _ that [unfolded mgmt_load_config_def] assms(4), of True env']
    unfolding mgmt_load_config_def by simp
  moreover have "nc_Name (fc_Node fc) \<noteq> [] \<and> frontend_load_config env' ftoml path m3 = (Ret fc, m3)"
    if "frontend_load_config env ftoml path m = (Ret fc, m3)" "nv_WriteFile env path = Ret ()"
    using load_config_again [OF assms(3) _ that(1) [unfolded frontend_load_config_def] assms(4), of False env'] that(2)
    unfolding frontend_load_config_def by simp
  moreover have "nc_Name (fc_Node fc) = nv_Generate env \<and> m3 = m"
    if "frontend_load_config env ftoml path m = (Ret fc, m3)" "nv_WriteFile env path = Err e"
      "map_option (map_res (nc_Name \<circ> fc_Node) \<circ> tl_Unmarshal ftoml) (ma_files m path) = Some (Ret [])"
    using that
    by (auto simp: frontend_load_config_def load_config_def read_config_def ReadFile_def WriteFile_def mapP_def bindP_def
        catchP_def liftR_def Let_def map_res_Ret_iff split: option.splits res.splits)
  ultimately show ?thesis by blast
qed

text \<open>A library for the witness that knows one configuration and writes another.\<close>

definition one_toml :: "'c \<Rightarrow> 'c \<Rightarrow> 'c toml_lib" where
  "one_toml saved initial =
     \<lparr>tl_Unmarshal = (\<lambda>bytes. Ret (if bytes = ''saved'' then saved else initial)),
      tl_Marshal = (\<lambda>c. if c = saved then Ret ''saved'' else Err ''unknown'')\<rparr>"

lemma one_toml_round_trip: "tl_Marshal (one_toml saved initial) c = Ret bytes \<Longrightarrow> tl_Unmarshal (one_toml saved initial) bytes = Ret c"
  by (simp add: one_toml_def split: if_splits)

definition sample_node_env :: "string \<Rightarrow> node_env" where
  "sample_node_env name =
     \<lparr>nv_Generate = name, nv_WriteFile = (\<lambda>path. Ret ()), nv_Create = (\<lambda>n p meta. Ret ()),
      nv_Found = (\<lambda>i. \<lparr>di_resolver = Ret (), di_browse = Ret (if i < 2 then []
        else [\<lparr>en_Instance = ''den'', en_AddrIPv4 = [''10.0.0.2''], en_Port = 7946\<rparr>])\<rparr>),
      nv_Join = (\<lambda>address. Ret ()), nv_members = [], nv_Register = (\<lambda>n p. Ret ()),
      nv_Shutdown = (\<lambda>b. if b then Ret () else Panic nil_deref), nv_Listen = (\<lambda>p. Ret ()),
      nv_Serve = (\<lambda>p. Hang), nv_signalled = False\<rparr>"

definition sample_conf :: "string \<Rightarrow> speaker_conf" where
  "sample_conf name = \<lparr>bc_Node = \<lparr>nc_APIPort = 7777, nc_ClusterPort = 7946, nc_Name = name\<rparr>,
     bc_Rtsp = \<lparr>rc_Name = ''Den'', rc_Port = 5000\<rparr>\<rparr>"

definition sample_machine :: machine where
  "sample_machine = \<lparr>ma_files = [''bcg.toml'' \<mapsto> ''initial''], ma_started = []\<rparr>"

theorem node_keeps_its_name_witness:
  "\<exists>m1. speaker_load_config (sample_node_env ''able-emu'') (one_toml (sample_conf ''able-emu'') (sample_conf []))
      ''bcg.toml'' sample_machine = (Ret (sample_conf ''able-emu''), m1)
    \<and> speaker_load_config (sample_node_env ''keen-yak'') (one_toml (sample_conf ''able-emu'') (sample_conf []))
      ''bcg.toml'' m1 = (Ret (sample_conf ''able-emu''), m1)"
proof -
  let ?env = "sample_node_env ''able-emu''" and ?toml = "one_toml (sample_conf ''able-emu'') (sample_conf [])"
  have "\<exists>m1. speaker_load_config ?env ?toml ''bcg.toml'' sample_machine = (Ret (sample_conf ''able-emu''), m1)"
    by (simp add: speaker_load_config_def load_config_def read_config_def ReadFile_def WriteFile_def mapP_def bindP_def liftR_def
        sample_machine_def one_toml_def sample_conf_def sample_node_env_def)
  then obtain m1 where "speaker_load_config ?env ?toml ''bcg.toml'' sample_machine = (Ret (sample_conf ''able-emu''), m1)" ..
  moreover have "nv_Generate ?env \<noteq> []" by (simp add: sample_node_env_def)
  ultimately show ?thesis
    using node_keeps_its_name [where env = ?env, OF one_toml_round_trip one_toml_round_trip one_toml_round_trip] by blast
qed

text \<open>
  C25. The frontend's search for a cluster ends exactly when some search hears of a service with an IPv4
  address or cannot use the discovery library, with the outcome of the first such search: the
  service, or the end of the process. Otherwise, when every search is answered and none hears of an
  address, the loop goes on for ever. What was found has an address to join, so taking the first
  address is safe.
\<close>

theorem search_ends_iff_decided:
  "(search_from (search_cluster env) 0 = Some r \<longleftrightarrow>
      (\<exists>n. search_outcome (search_cluster env n) = Some r \<and> (\<forall>j < n. search_cluster env j = Ret None)))
   \<and> (search_from (search_cluster env) 0 = None \<longleftrightarrow>
      (\<forall>n. di_resolver (nv_Found env n) = Ret ()
         \<and> (\<exists>services. di_browse (nv_Found env n) = Ret services \<and> (\<forall>s \<in> set services. en_AddrIPv4 s = []))))
   \<and> (search_from (search_cluster env) 0 = Some (Ret e) \<longrightarrow> is_ret (join_address e))
   \<and> (\<forall>err. di_resolver (nv_Found env 0) = Err err \<longrightarrow>
        search_from (search_cluster env) 0 = Some (Exit (''Failed to initialize resolver: '' @ err)))"
proof (intro conjI allI impI)
  let ?f = "search_from (search_cluster env) 0"
  have first: "\<exists>n. search_outcome (search_cluster env n) = Some r \<and> (\<forall>j < n. search_cluster env j = Ret None)"
    if "?f = Some r" for r
    using search_from_found [OF that] by auto
  show "?f = Some r \<longleftrightarrow> (\<exists>n. search_outcome (search_cluster env n) = Some r \<and> (\<forall>j < n. search_cluster env j = Ret None))"
  proof
    assume "\<exists>n. search_outcome (search_cluster env n) = Some r \<and> (\<forall>j < n. search_cluster env j = Ret None)"
    then obtain n where n: "search_outcome (search_cluster env n) = Some r" "\<forall>j < n. search_cluster env j = Ret None" by blast
    then obtain r' where r': "?f = Some r'" using search_from_ends [of "search_cluster env" n r 0] by auto
    from first [OF this] obtain k where k: "search_outcome (search_cluster env k) = Some r'" "\<forall>j < k. search_cluster env j = Ret None"
      by blast
    with n have "k = n" by (metis linorder_neqE_nat option.distinct(1) search_outcome.simps(1))
    with n k r' show "?f = Some r" by simp
  qed (rule first)
  have "?f = None \<longleftrightarrow> (\<forall>n. search_cluster env n = Ret None)"
    using first search_from_ends [of "search_cluster env" _ _ 0] search_outcome_None_iff
    by (metis le0 option.exhaust option.distinct(1))
  moreover have "search_cluster env n = Ret None \<longleftrightarrow> di_resolver (nv_Found env n) = Ret ()
      \<and> (\<exists>services. di_browse (nv_Found env n) = Ret services \<and> (\<forall>s \<in> set services. en_AddrIPv4 s = []))" for n
    by (cases "di_resolver (nv_Found env n)"; cases "di_browse (nv_Found env n)")
      (auto simp: search_cluster_def SearchForCluster_def find_None_iff)
  ultimately show "?f = None \<longleftrightarrow> (\<forall>n. di_resolver (nv_Found env n) = Ret ()
      \<and> (\<exists>services. di_browse (nv_Found env n) = Ret services \<and> (\<forall>s \<in> set services. en_AddrIPv4 s = [])))"
    by simp
  show "is_ret (join_address e)" if found: "?f = Some (Ret e)"
  proof -
    obtain n where "search_outcome (search_cluster env n) = Some (Ret e)" using first [OF found] by blast
    then have "search_cluster env n = Ret (Some e)" by (cases "search_cluster env n" rule: search_outcome.cases) auto
    then show ?thesis
      by (auto simp: search_cluster_def SearchForCluster_def join_address_def find_Some_iff res_bind_Ret_iff split: list.splits)
  qed
  show "?f = Some (Exit (''Failed to initialize resolver: '' @ err))" if "di_resolver (nv_Found env 0) = Err err" for err
    using that by (subst search_from.simps) (simp add: search_cluster_def SearchForCluster_def)
qed

theorem search_ends_iff_decided_witness:
  "search_from (search_cluster (sample_node_env [])) 0 = Some (Ret \<lparr>en_Instance = ''den'', en_AddrIPv4 = [''10.0.0.2''], en_Port = 7946\<rparr>)"
proof -
  let ?e = "\<lparr>en_Instance = ''den'', en_AddrIPv4 = [''10.0.0.2''], en_Port = 7946\<rparr>"
  have "search_outcome (search_cluster (sample_node_env []) 2) = Some (Ret ?e) \<and>
      (\<forall>j < 2. search_cluster (sample_node_env []) j = Ret None)"
    by (simp add: search_cluster_def SearchForCluster_def sample_node_env_def)
  then show ?thesis using search_ends_iff_decided [of "sample_node_env []" "Ret ?e"] by blast
qed

end
