(* ===== verification/Frontend.thy ===== *)
theory Frontend
  imports Control_Plane Node_Config
begin

text \<open>
  The frontend node, \<^verbatim>\<open>cmd/frontend/bcg-frontend.go\<close>: the handler of membership notifications that keeps
  the control plane up to date, and \<^verbatim>\<open>main\<close>.
\<close>

section \<open>Notifications\<close>

definition node_endpoint :: "node \<Rightarrow> node_meta \<Rightarrow> mgmt_endpoint" where
  "node_endpoint node meta = \<lparr>ep_Host = nd_Addr node, ep_Port = word_of_int (nm_APIPort meta)\<rparr>"

definition frontend_NotifyJoin :: "envoy_lib \<Rightarrow> node \<Rightarrow> (control_plane, unit) proc" where
  "frontend_NotifyJoin lib node =
     bindP (liftR (DecodeNodeMeta (nd_Meta node))) (\<lambda>meta.
       if nm_NodeType meta = Mgmt then AddEndpoint lib (node_endpoint node meta) else retP ())"

definition frontend_NotifyLeave :: "envoy_lib \<Rightarrow> node \<Rightarrow> (control_plane, unit) proc" where
  "frontend_NotifyLeave lib node =
     bindP (liftR (DecodeNodeMeta (nd_Meta node))) (\<lambda>meta.
       if nm_NodeType meta = Mgmt then RemoveEndpoint lib (node_endpoint node meta) else retP ())"

definition frontend_NotifyUpdate :: "node \<Rightarrow> (control_plane, unit) proc" where
  "frontend_NotifyUpdate node = retP ()"

definition frontend_handler :: "envoy_lib \<Rightarrow> control_plane event_delegate" where
  "frontend_handler lib =
     \<lparr>ed_Join = frontend_NotifyJoin lib, ed_Leave = frontend_NotifyLeave lib, ed_Update = frontend_NotifyUpdate\<rparr>"

text \<open>The endpoints of the management nodes that are members when the frontend starts.\<close>

definition initial_endpoints :: "node list \<Rightarrow> mgmt_endpoint list res" where
  "initial_endpoints members =
     res_bind (FilterMembers Mgmt members) (\<lambda>ns. Ret (map (\<lambda>n. node_endpoint n (the (nd_Meta n))) ns))"

definition publish_members :: "envoy_lib \<Rightarrow> node list \<Rightarrow> (control_plane, unit) proc" where
  "publish_members lib members =
     bindP (liftR (initial_endpoints members)) (\<lambda>endpoints.
       if length endpoints > 0 then UpdateEndpoints lib endpoints else retP ())"

section \<open>The program\<close>

definition frontend_meta :: "int \<Rightarrow> node_meta" where
  "frontend_meta apiPort = \<lparr>nm_RtspPort = 0, nm_APIPort = apiPort, nm_RaftPort = 0, nm_NodeType = Frontend\<rparr>"

text \<open>
  \<^verbatim>\<open>main\<close>: the error of creating the member list is dropped. The control plane and the web server run in
  goroutines of their own; the \<^verbatim>\<open>select\<close> at the end has no default case.
\<close>

definition frontend_main :: "node_env \<Rightarrow> envoy_lib \<Rightarrow> frontend_conf toml_lib \<Rightarrow> string \<Rightarrow> (machine, unit) proc" where
  "frontend_main env lib toml path =
     bindP (frontend_load_config env toml path) (\<lambda>config.
     let node = fc_Node config in
     bindP (catchP (liftR (nv_Create env (nc_Name node) (nc_ClusterPort node) (frontend_meta (nc_APIPort node)))) (\<lambda>e. retP ())) (\<lambda>_.
     bindP (liftR (case search_from (search_cluster env) 0 of None \<Rightarrow> Hang | Some r \<Rightarrow> r)) (\<lambda>entry.
     bindP (liftR (join_cluster env entry)) (\<lambda>_.
     bindP (liftR (NewControlPlane lib (nc_APIPort node))) (\<lambda>cp.
     bindP (liftR (fst (publish_members lib (nv_members env) cp))) (\<lambda>_.
     bindP (start_service (Control_Plane_Service (nc_APIPort node))) (\<lambda>_.
     bindP (start_service (Web_UI (nc_WebServerPort node))) (\<lambda>_.
       liftR (await_signal False env)))))))))"

text \<open>The web server: without its files the process ends, while an error of serving them is dropped.\<close>

definition setupWebApp :: "unit res \<Rightarrow> unit res \<Rightarrow> unit res" where
  "setupWebApp statikFS served =
     res_bind (fatal_res [] statikFS) (\<lambda>_. case served of Err e \<Rightarrow> Ret () | r \<Rightarrow> r)"

section \<open>Endpoints and members\<close>

text \<open>The endpoints a member list calls for.\<close>

definition mgmt_endpoints :: "node list \<Rightarrow> mgmt_endpoint multiset" where
  "mgmt_endpoints members = mset (map (\<lambda>n. node_endpoint n (the (nd_Meta n))) (filter (has_type Mgmt) members))"

datatype member_event = Member_Joined node | Member_Left node

fun notify :: "'s event_delegate \<Rightarrow> member_event \<Rightarrow> ('s, unit) proc" where
  "notify d (Member_Joined n) = ed_Join d n"
| "notify d (Member_Left n) = ed_Leave d n"

text \<open>Members as the notifications report them: a node leaves only after it was there.\<close>

inductive membership :: "node list \<Rightarrow> member_event list \<Rightarrow> node list \<Rightarrow> bool" where
  membership_nil: "membership ms [] ms"
| membership_join: "nd_Meta n \<noteq> None \<Longrightarrow> membership (n # ms) evs ms' \<Longrightarrow> membership ms (Member_Joined n # evs) ms'"
| membership_leave: "n \<in> set ms \<Longrightarrow> nd_Meta n \<noteq> None \<Longrightarrow> membership (remove1 n ms) evs ms' \<Longrightarrow>
    membership ms (Member_Left n # evs) ms'"

text \<open>The operation on the control plane that a notification amounts to.\<close>

fun member_ops :: "member_event \<Rightarrow> mgmt_endpoint registry_op list" where
  "member_ops (Member_Joined n) = (if has_type Mgmt n then [Add (node_endpoint n (the (nd_Meta n)))] else [])"
| "member_ops (Member_Left n) = (if has_type Mgmt n then [Remove (node_endpoint n (the (nd_Meta n)))] else [])"

lemma has_type_meta: "nd_Meta n = Some m \<Longrightarrow> has_type t n \<longleftrightarrow> nm_NodeType m = t"
  by (simp add: has_type_def)

lemma notify_ops:
  assumes "\<And>n. ev = Member_Joined n \<or> ev = Member_Left n \<Longrightarrow> nd_Meta n \<noteq> None"
  shows "notify (NewEventDelegate [frontend_handler lib]) ev = for_each (plane_act lib) (member_ops ev)"
  using assms
  by (cases ev)
    (auto simp: NewEventDelegate_def frontend_handler_def frontend_NotifyJoin_def frontend_NotifyLeave_def DecodeNodeMeta_def
      has_type_meta bindP_unit fun_eq_iff bindP_def liftR_def split: res.splits prod.splits)

lemma mgmt_endpoints_remove:
  assumes "n \<in> set ms" and "nd_Meta n = Some m"
  shows "mgmt_endpoints (remove1 n ms) =
    (if nm_NodeType m = Mgmt then mgmt_endpoints ms - {#node_endpoint n m#} else mgmt_endpoints ms)"
proof -
  have "mset (filter P (remove1 n ms)) = (if P n then mset (filter P ms) - {#n#} else mset (filter P ms))" for P
    using assms(1) by (auto simp: filter_mset_eq_conv)
  then show ?thesis
    using assms by (auto simp: mgmt_endpoints_def has_type_meta image_mset_Diff)
qed

text \<open>The operations that a history of notifications amounts to follow the members.\<close>

lemma member_ops_follow:
  assumes "membership ms evs ms'"
  shows "fold entries_after (concat (map member_ops evs)) (mgmt_endpoints ms) = mgmt_endpoints ms'
    \<and> list_all (\<lambda>ev. notify (NewEventDelegate [frontend_handler lib]) ev = for_each (plane_act lib) (member_ops ev)) evs"
  using assms
proof (induction rule: membership.induct)
  case (membership_join n ms evs ms')
  have "fold entries_after (member_ops (Member_Joined n)) (mgmt_endpoints ms) = mgmt_endpoints (n # ms)"
    by (simp add: mgmt_endpoints_def)
  with membership_join notify_ops [of "Member_Joined n" lib] show ?case by simp
next
  case (membership_leave n ms evs ms')
  then obtain m where m: "nd_Meta n = Some m" by auto
  have "fold entries_after (member_ops (Member_Left n)) (mgmt_endpoints ms) = mgmt_endpoints (remove1 n ms)"
    using mgmt_endpoints_remove [OF membership_leave.hyps(1) m] m by (simp add: has_type_meta)
  with membership_leave notify_ops [of "Member_Left n" lib] show ?case by simp
qed simp

lemma for_each_append: "for_each f (xs @ ys) = bindP (for_each f xs) (\<lambda>_. for_each f ys)"
proof (induction xs)
  case Nil
  show ?case by (rule ext) (simp add: bindP_def)
qed (simp add: bindP_assoc)

lemma for_each_concat:
  "list_all (\<lambda>x. f x = for_each g (h x)) xs \<Longrightarrow> for_each f xs = for_each g (concat (map h xs))"
  by (induction xs) (simp_all add: for_each_append)

lemma publish_members_ops:
  assumes "list_all (\<lambda>n. nd_Meta n \<noteq> None) members"
  shows "publish_members lib members =
    (let es = map (\<lambda>n. node_endpoint n (the (nd_Meta n))) (filter (has_type Mgmt) members) in
     for_each (plane_act lib) (if es = [] then [] else [Replace es]))"
  using assms
  by (auto simp: publish_members_def initial_endpoints_def FilterMembers_eq bindP_def liftR_def fun_eq_iff Let_def bindP_unit)

section \<open>Properties\<close>

text \<open>
  C17. The proxy is told about exactly the management nodes: on a control plane that has a cache and
  offers its current resources, publishing the members that the frontend finds leaves the endpoints
  of the management nodes among them (or, when there are none, those that were there), and from any
  such control plane that shows the management nodes of \<open>ms\<close>, the handler follows every sequence of
  nodes that join and leave: the endpoints are those of the management nodes that are members then,
  one each, and the published snapshot lists them. (Nodes that join between the two are missed, and
  the program creates no cache.)
\<close>

theorem endpoints_follow_members:
  assumes "lib_ok lib" and "plane_ok lib cp" and "shows_current cp"
    and "list_all (\<lambda>n. nd_Meta n \<noteq> None) members"
    and "mset (map endpoint_of (plane_endpoints cp)) = mgmt_endpoints ms" and "membership ms evs ms'"
  shows "(\<exists>cp1. publish_members lib members cp = (Ret (), cp1) \<and> plane_ok lib cp1 \<and> shows_current cp1
      \<and> mset (map endpoint_of (plane_endpoints cp1)) =
        mgmt_endpoints (if list_all (\<lambda>n. \<not> has_type Mgmt n) members then ms else members))
    \<and> (\<exists>cp' s. for_each (notify (NewEventDelegate [frontend_handler lib])) evs cp = (Ret (), cp')
      \<and> mset (map endpoint_of (plane_endpoints cp')) = mgmt_endpoints ms'
      \<and> published cp' = Some s \<and> sn_Endpoints s = [cp_endpoints cp'])"
proof
  let ?es = "map (\<lambda>n. node_endpoint n (the (nd_Meta n))) (filter (has_type Mgmt) members)"
  let ?ops = "if ?es = [] then [] else [Replace ?es]"
  have cp: "plane_current lib cp" "plane_entries cp = mgmt_endpoints ms"
    using assms(1-3,5) by (simp_all add: plane_current_def plane_entries_def)
  have "fold entries_after ?ops (mgmt_endpoints ms) =
      mgmt_endpoints (if list_all (\<lambda>n. \<not> has_type Mgmt n) members then ms else members)"
    by (cases "filter (has_type Mgmt) members")
      (auto simp: mgmt_endpoints_def filter_empty_conv list_all_iff simp del: mset_filter dest: filter_eq_ConsD)
  then show "\<exists>cp1. publish_members lib members cp = (Ret (), cp1) \<and> plane_ok lib cp1 \<and> shows_current cp1
      \<and> mset (map endpoint_of (plane_endpoints cp1)) =
        mgmt_endpoints (if list_all (\<lambda>n. \<not> has_type Mgmt n) members then ms else members)"
    using plane.acts_entries [OF cp(1), of ?ops] cp(2)
    by (auto simp: publish_members_ops [OF assms(4)] plane_current_def plane_entries_def Let_def)
  note follow = member_ops_follow [OF assms(6), of lib]
  obtain cp' where cp': "for_each (notify (NewEventDelegate [frontend_handler lib])) evs cp = (Ret (), cp')"
    "plane_current lib cp'" "plane_entries cp' = mgmt_endpoints ms'"
    using plane.acts_entries [OF cp(1), of "concat (map member_ops evs)"] cp(2) follow
    by (auto simp: for_each_concat [of _ "plane_act lib" member_ops])
  let ?s = "current_snapshot (cp'\<lparr>cp_cacheVersion := cp_cacheVersion cp' - 1\<rparr>)"
  from cp' show "\<exists>cp' s. for_each (notify (NewEventDelegate [frontend_handler lib])) evs cp = (Ret (), cp')
      \<and> mset (map endpoint_of (plane_endpoints cp')) = mgmt_endpoints ms'
      \<and> published cp' = Some s \<and> sn_Endpoints s = [cp_endpoints cp']"
    by (intro exI [of _ cp'] exI [of _ ?s])
      (simp add: plane_current_def shows_current_def plane_entries_def current_snapshot_def)
qed

definition mgmt_node :: "string \<Rightarrow> node" where
  "mgmt_node name =
     \<lparr>nd_Name = name, nd_Addr = name,
      nd_Meta = Some \<lparr>nm_RtspPort = 0, nm_APIPort = 7777, nm_RaftPort = 4000, nm_NodeType = Mgmt\<rparr>\<rparr>"

theorem endpoints_follow_members_witness:
  "\<exists>cp'. for_each (notify (NewEventDelegate [frontend_handler working_lib]))
      [Member_Joined (mgmt_node ''m1''), Member_Joined (mgmt_node ''m2''), Member_Left (mgmt_node ''m1'')] sample_plane = (Ret (), cp')
    \<and> map endpoint_of (plane_endpoints cp') = [\<lparr>ep_Host = ''m2'', ep_Port = 7777\<rparr>]"
proof -
  let ?evs = "[Member_Joined (mgmt_node ''m1''), Member_Joined (mgmt_node ''m2''), Member_Left (mgmt_node ''m1'')]"
  have "membership [] ?evs [mgmt_node ''m2'']"
    by (rule membership_join, simp add: mgmt_node_def, rule membership_join, simp add: mgmt_node_def, rule membership_leave)
      (simp_all add: mgmt_node_def membership_nil)
  moreover have "mset (map endpoint_of (plane_endpoints sample_plane)) = mgmt_endpoints []"
    by (simp add: sample_plane_ok(3) mgmt_endpoints_def)
  ultimately obtain cp' where cp': "for_each (notify (NewEventDelegate [frontend_handler working_lib])) ?evs sample_plane = (Ret (), cp')"
    "mset (map endpoint_of (plane_endpoints cp')) = mgmt_endpoints [mgmt_node ''m2'']"
    using endpoints_follow_members [OF working_lib_ok sample_plane_ok(1,2), of "[]" "[]" ?evs "[mgmt_node ''m2'']"] by auto
  have "mgmt_endpoints [mgmt_node ''m2''] = mset [\<lparr>ep_Host = ''m2'', ep_Port = 7777\<rparr>]"
    by (simp add: mgmt_endpoints_def mgmt_node_def has_type_def node_endpoint_def)
  with cp'(2) have "map endpoint_of (plane_endpoints cp') = [\<lparr>ep_Host = ''m2'', ep_Port = 7777\<rparr>]"
    by (simp add: mset_eq_single del: mset_map)
  with cp'(1) show ?thesis by (intro exI [of _ cp'] conjI)
qed

text \<open>The program as it stands never serves: it searches for ever, or fails before the control plane is up.\<close>

lemma frontend_main_never_serves:
  assumes "lib_ok lib"
  shows "fst (frontend_main env lib toml path m) \<noteq> Ret ()"
  using new_control_plane_panics [OF assms]
  by (auto simp: frontend_main_def bindP_def liftR_def Let_def split: prod.splits res.splits)

end
