(* ===== verification/Startup.thy ===== *)
theory Startup
  imports Mgmt_Service Frontend
begin

text \<open>
  The programs around the components: the start of a speaker (\<^verbatim>\<open>cmd/bcg.go\<close>) and of a management
  node (\<^verbatim>\<open>cmd/mgmt/bcg-mgmt.go\<close>) up to the end of \<^verbatim>\<open>main\<close>, and the management node's handler of
  membership notifications. Servers run in goroutines of their own. A speaker's \<^verbatim>\<open>main\<close> is split: what it
  does up to its last \<^verbatim>\<open>select\<close> is the function \<open>speaker_main\<close>, and what happens from then on, between
  \<^verbatim>\<open>main\<close> with its deferred calls and the goroutines of the AirPlay and the API server, is the step
  relation \<open>speaker_step\<close>.
\<close>

section \<open>Starting a speaker\<close>

definition forwarding_delegate :: "fworld event_delegate" where
  "forwarding_delegate = \<lparr>ed_Join = fNotifyJoin, ed_Leave = fNotifyLeave, ed_Update = fNotifyUpdate\<rparr>"

text \<open>
  The role of a speaker: whether it advertises itself, and the parties that hear about membership
  changes. \<open>joined\<close> is the outcome of joining the cluster that was found, \<open>members\<close> the member list
  after that.
\<close>

definition choose_role :: "service_entry option \<Rightarrow> unit res \<Rightarrow> node list \<Rightarrow> (bool \<times> fworld event_delegate list) res" where
  "choose_role entry joined members =
     (case entry of
        None \<Rightarrow> Ret (True, [NewEventDelegate [forwarding_delegate]])
      | Some e \<Rightarrow>
          (case joined of
             Err err \<Rightarrow> Panic (''Failed to join cluster: '' @ err)
           | Panic err \<Rightarrow> Panic err
           | Exit err \<Rightarrow> Exit err
           | Hang \<Rightarrow> Hang
           | Ret _ \<Rightarrow>
               res_bind (FilterMembers Music members) (\<lambda>musicNodes.
                 Ret (if length musicNodes \<le> 1 then (True, [NewEventDelegate [forwarding_delegate]]) else (False, [])))))"

definition speaker_meta :: "int \<Rightarrow> int \<Rightarrow> node_meta" where
  "speaker_meta rtspPort apiPort =
     \<lparr>nm_RtspPort = rtspPort, nm_APIPort = apiPort, nm_RaftPort = 0, nm_NodeType = Music\<rparr>"

text \<open>
  A speaker in its last \<^verbatim>\<open>select\<close> or later: its AirPlay server, how far \<^verbatim>\<open>Start\<close> of that has got, whether
  the API server is still to be started, and where \<^verbatim>\<open>main\<close> is.
\<close>

datatype main_phase = Selecting | Stopping stop_phase | Shutting_Down | Main_Returned

record speaker_run =
  sr_airplay :: "fworld airplay"
  sr_start :: start_phase
  sr_api :: "int option"
  sr_registered :: bool
  sr_main :: main_phase

definition speaker_main :: "node_env \<Rightarrow> speaker_conf toml_lib \<Rightarrow> string \<Rightarrow>
    (machine, speaker_run \<times> fworld event_delegate list) proc" where
  "speaker_main env toml path =
     bindP (speaker_load_config env toml path) (\<lambda>config.
     let node = bc_Node config; rtsp = bc_Rtsp config; nodeName = nc_Name node in
     bindP (liftR (panic_res ''Failed to create memberlist: ''
       (nv_Create env nodeName (nc_ClusterPort node) (speaker_meta (rc_Port rtsp) (nc_APIPort node))))) (\<lambda>_.
     bindP (liftR (panic_res ''Failed to initialize player'' NewPlayer)) (\<lambda>forwardingPlayer.
     bindP (liftR (search_cluster env 0)) (\<lambda>entry.
     bindP (liftR (choose_role entry
       (case entry of None \<Rightarrow> Ret () | Some e \<Rightarrow> res_bind (join_address e) (nv_Join env)) (nv_members env))) (\<lambda>(advertise, delegates).
     bindP (register_node env nodeName (nc_ClusterPort node)) (\<lambda>registered.
     bindP (start_service (Airplay_Service advertise)) (\<lambda>_.
     bindP (start_service (API_Service (nc_APIPort node))) (\<lambda>_.
       retP (\<lparr>sr_airplay = NewAirplayServer (rc_Port rtsp) (rc_Name rtsp) \<lparr>fw_player = forwardingPlayer, fw_tasks = []\<rparr>,
              sr_start = Advertising advertise, sr_api = Some (nc_APIPort node), sr_registered = registered,
              sr_main = Selecting\<rparr>, delegates)))))))))"

text \<open>
  The steps of the process, until \<^verbatim>\<open>main\<close> returns; the outcome is that of the process. A step that does
  not return is no step. When \<^verbatim>\<open>Start\<close> has been stopped its socket is closed, and the goroutine that
  accepts connections may come to end the process before \<^verbatim>\<open>main\<close> does. Connections and requests of others are not part
  of this relation.
\<close>

inductive speaker_step :: "node_env \<Rightarrow> host \<Rightarrow> speaker_run \<Rightarrow> unit res \<Rightarrow> speaker_run \<Rightarrow> bool" for env h where
  start_goes_on: "sr_main x \<noteq> Main_Returned \<Longrightarrow>
    start_turn h (nv_Listen env (ap_port (sr_airplay x))) (sr_start x) = Some (p, st) \<Longrightarrow>
    p (sr_airplay x) = (r, a) \<Longrightarrow> r \<noteq> Hang \<Longrightarrow>
    speaker_step env h x r (x\<lparr>sr_airplay := a, sr_start := st\<rparr>)"
| accept_fails: "sr_main x \<noteq> Main_Returned \<Longrightarrow> sr_start x = Stopped \<Longrightarrow>
    speaker_step env h x (Exit (''Error accepting: '' @ e)) x"
| api_ends: "sr_main x \<noteq> Main_Returned \<Longrightarrow> sr_api x = Some port \<Longrightarrow> startAPIServer env port = r \<Longrightarrow> r \<noteq> Hang \<Longrightarrow>
    speaker_step env h x r (x\<lparr>sr_api := None\<rparr>)"
| selects: "sr_main x = Selecting \<Longrightarrow> await_signal True env = Ret () \<Longrightarrow>
    speaker_step env h x (Ret ()) (x\<lparr>sr_main := Stopping Closing_Sessions\<rparr>)"
| stop_goes_on: "sr_main x = Stopping ph \<Longrightarrow> range_order ks (ap_sessions (sr_airplay x)) \<Longrightarrow>
    stop_turn h ks (sr_start x) (sr_airplay x) ph = Some (p, st, ph') \<Longrightarrow>
    p (sr_airplay x) = (r, a) \<Longrightarrow> r \<noteq> Hang \<Longrightarrow>
    speaker_step env h x r (x\<lparr>sr_airplay := a, sr_start := st, sr_main := Stopping ph'\<rparr>)"
| stopped: "sr_main x = Stopping Stop_Done \<Longrightarrow> speaker_step env h x (Ret ()) (x\<lparr>sr_main := Shutting_Down\<rparr>)"
| shuts_down: "sr_main x = Shutting_Down \<Longrightarrow> nv_Shutdown env (sr_registered x) = r \<Longrightarrow> r \<noteq> Hang \<Longrightarrow>
    speaker_step env h x r (x\<lparr>sr_main := Main_Returned\<rparr>)"

definition speaker_runs :: "node_env \<Rightarrow> host \<Rightarrow> speaker_run \<Rightarrow> speaker_run \<Rightarrow> bool" where
  "speaker_runs env h = (\<lambda>x y. speaker_step env h x (Ret ()) y)\<^sup>*\<^sup>*"

section \<open>Starting a management node\<close>

definition initDistributedStore :: "raft_setup \<Rightarrow> node list \<Rightarrow> string \<Rightarrow> int \<Rightarrow> string \<Rightarrow> store res" where
  "initDistributedStore rx members localID raftPort raftDir =
     res_bind (FilterMembers Mgmt members) (\<lambda>mgmtNodes.
       let numMgmtNodes = length mgmtNodes in
       case ds_Open rx (numMgmtNodes = 1) (NewDistributedStore localID raftPort raftDir) of
         (Ret _, ds) \<Rightarrow> Ret ds
       | (Err e, ds) \<Rightarrow> Exit (''failed to open database: '' @ e)
       | (Panic e, ds) \<Rightarrow> Panic e
       | (Exit e, ds) \<Rightarrow> Exit e
       | (Hang, ds) \<Rightarrow> Hang)"

definition mgmt_meta :: "int \<Rightarrow> int \<Rightarrow> node_meta" where
  "mgmt_meta apiPort raftPort = \<lparr>nm_RtspPort = 0, nm_APIPort = apiPort, nm_RaftPort = raftPort, nm_NodeType = Mgmt\<rparr>"

text \<open>The deferred \<^verbatim>\<open>Shutdown\<close> runs when \<^verbatim>\<open>main\<close> returns.\<close>

definition mgmt_main :: "node_env \<Rightarrow> raft_setup \<Rightarrow> (string \<rightharpoonup> speaker_server) \<Rightarrow> mgmt_conf toml_lib \<Rightarrow> string \<Rightarrow>
    (machine, mgmt_world) proc" where
  "mgmt_main env rx speakers toml path =
     bindP (mgmt_load_config env toml path) (\<lambda>config.
     let node = mc_Node config; nodeName = nc_Name node; mgmt = mc_Mgmt config in
     bindP (liftR (fatal_res [] (nv_Create env nodeName (nc_ClusterPort node) (mgmt_meta (nc_APIPort node) (gc_RaftPort mgmt))))) (\<lambda>_.
     bindP (liftR (search_cluster env 0)) (\<lambda>found.
     bindP (liftR (case found of None \<Rightarrow> Ret () | Some entry \<Rightarrow> join_cluster env entry)) (\<lambda>_.
     bindP (register_node env nodeName (nc_ClusterPort node)) (\<lambda>registered.
     bindP (liftR (initDistributedStore rx (nv_members env) nodeName (gc_RaftPort mgmt) (gc_StorageDir mgmt))) (\<lambda>store.
     let service = NewDistributedMgmtService store speakers in
     bindP (start_service (API_Service (nc_APIPort node))) (\<lambda>_.
     bindP (liftR (await_signal True env)) (\<lambda>_.
     bindP (liftR (nv_Shutdown env registered)) (\<lambda>_.
       retP service)))))))))"

section \<open>Notifications of a management node\<close>

text \<open>The world of a management node, and the goroutines its handler has started.\<close>

datatype mgmt_task = Handle_Join node | Handle_Leave node

record mgmt_state =
  mn_world :: mgmt_world
  mn_tasks :: "mgmt_task list"

definition go_task :: "mgmt_task \<Rightarrow> (mgmt_state, unit) proc" where
  "go_task t s = (Ret (), s\<lparr>mn_tasks := mn_tasks s @ [t]\<rparr>)"

definition on_world :: "(mgmt_world, 'a) proc \<Rightarrow> (mgmt_state, 'a) proc" where
  "on_world m s = (case m (mn_world s) of (r, w) \<Rightarrow> (r, s\<lparr>mn_world := w\<rparr>))"

text \<open>A management node that joins is made a voter; an error of that is only logged.\<close>

definition mgmt_NotifyJoin :: "mgmt_env \<Rightarrow> node \<Rightarrow> (mgmt_state, unit) proc" where
  "mgmt_NotifyJoin env node =
     bindP (liftR (DecodeNodeMeta (nd_Meta node))) (\<lambda>meta.
     bindP
       (if nm_NodeType meta = Mgmt then
          catchP (on_world (on_store (ds_Join (me_raft env) (nd_Name node) (nd_Addr node @ '':'' @ Itoa (nm_RaftPort meta)))))
            (\<lambda>err. retP ())
        else retP ()) (\<lambda>_.
       if nm_NodeType meta = Music then go_task (Handle_Join node) else retP ()))"

definition mgmt_NotifyLeave :: "mgmt_env \<Rightarrow> node \<Rightarrow> (mgmt_state, unit) proc" where
  "mgmt_NotifyLeave env node =
     bindP (liftR (DecodeNodeMeta (nd_Meta node))) (\<lambda>meta.
       if nm_NodeType meta = Music then go_task (Handle_Leave node) else retP ())"

definition mgmt_NotifyUpdate :: "node \<Rightarrow> (mgmt_state, unit) proc" where
  "mgmt_NotifyUpdate node = retP ()"

definition newMemberHandler :: "mgmt_env \<Rightarrow> mgmt_state event_delegate" where
  "newMemberHandler env =
     \<lparr>ed_Join = mgmt_NotifyJoin env, ed_Leave = mgmt_NotifyLeave env, ed_Update = mgmt_NotifyUpdate\<rparr>"

fun run_mgmt_task :: "mgmt_env \<Rightarrow> mgmt_task \<Rightarrow> (mgmt_world, unit) proc" where
  "run_mgmt_task env (Handle_Join n) = HandleMusicNodeJoin env n"
| "run_mgmt_task env (Handle_Leave n) = HandleMusicNodeLeave env n"

section \<open>Who leads\<close>

text \<open>
  Speakers, management and frontend nodes started one after the other, each joining the cluster of
  those before it: the flags say which speakers advertise themselves.
\<close>

primrec boot :: "node list \<Rightarrow> node list \<Rightarrow> (string \<times> bool) list res" where
  "boot up [] = Ret []"
| "boot up (n # ns) =
     res_bind
       (if has_type Music n then
          res_bind (choose_role (if up = [] then None else Some \<lparr>en_Instance = [], en_AddrIPv4 = [nd_Addr (hd up)], en_Port = 0\<rparr>)
              (Ret ()) (n # up))
            (\<lambda>(advertise, delegates). Ret [(nd_Name n, advertise)])
        else Ret [])
       (\<lambda>started. map_res (\<lambda>rest. started @ rest) (boot (n # up) ns))"

lemma choose_role_joined:
  assumes "list_all (\<lambda>n. nd_Meta n \<noteq> None) (n # up)" and "has_type Music n"
  shows "map_res fst (choose_role (if up = [] then None else Some e) (Ret ()) (n # up)) =
    Ret (filter (has_type Music) up = [])"
  using assms FilterMembers_eq [OF assms(1), of Music] by (simp add: choose_role_def)

lemma boot_later:
  assumes "list_all (\<lambda>n. nd_Meta n \<noteq> None) (up @ ns)" and "filter (has_type Music) up \<noteq> []"
  shows "boot up ns = Ret (map (\<lambda>n. (nd_Name n, False)) (filter (has_type Music) ns))"
  using assms
proof (induction ns arbitrary: up)
  case (Cons n ns)
  let ?e = "Some \<lparr>en_Instance = [], en_AddrIPv4 = [nd_Addr (hd up)], en_Port = 0\<rparr>"
  have IH: "boot (n # up) ns = Ret (map (\<lambda>n. (nd_Name n, False)) (filter (has_type Music) ns))"
    using Cons.prems by (intro Cons.IH) auto
  have "has_type Music n \<Longrightarrow> map_res fst (choose_role (if up = [] then None else ?e) (Ret ()) (n # up)) = Ret False"
    using choose_role_joined [of n up] Cons.prems by simp
  then show ?case using IH
    by (cases "has_type Music n") (auto simp: map_res_Ret_iff split: prod.splits)
qed simp

text \<open>
  A server that was started with a player that is not nil is healthy, so the contract of its service
  holds from the start; a speaker has no player, and the first call that touches it panics.
\<close>

lemma started_server_ok:
  assumes "airplay_Start h listen advertise (NewAirplayServer port name \<lparr>fw_player = Some p, fw_tasks = []\<rparr>) = (Ret (), a)"
    and "\<And>n. ho_register h n = Ret ()" and "list_all (\<lambda>n. nd_Meta n \<noteq> None) members"
  shows "speaker_ok h (NewSpeakerServer a self members)"
  using assms
  by (auto simp: airplay_Start_def create_server_def initAdvertise_def NewAirplayServer_def NewSpeakerServer_def speaker_ok_def
      advert_ok_def bindP_def liftR_def split: if_splits)

lemma speaker_without_player_panics:
  assumes "fw_player (ap_player a) = None"
  shows "fst (serve_speaker h (RemoveForwardRequest [] True) (NewSpeakerServer a self members)) = Panic nil_deref"
  using assms
  by (simp add: RemoveForwardToNodes_def RemoveAllSessions_def on_airplay_def on_player_def bindP_def NewSpeakerServer_def)

text \<open>Only a management node that is alone bootstraps a new cluster of servers.\<close>

lemma only_first_mgmt_node_bootstraps:
  assumes "list_all (\<lambda>n. nd_Meta n \<noteq> None) members" and "initDistributedStore rx members i port dir = Ret ds"
  shows "ds_raft ds \<and> ds_m ds = Map.empty
    \<and> (ds_requests ds \<noteq> [] \<longleftrightarrow> length (filter (has_type Mgmt) members) = 1)"
proof -
  obtain ds0 where "ds_Open rx (length (filter (has_type Mgmt) members) = 1) (NewDistributedStore i port dir) = (Ret (), ds0)"
    "ds = ds0"
    using assms by (auto simp: initDistributedStore_def FilterMembers_eq Let_def split: prod.splits res.splits)
  then show ?thesis
    by (auto simp: ds_Open_def bindP_def liftR_def NewDistributedStore_def initRaft_def Let_def res_bind_Ret_iff
        split: res.splits if_splits)
qed

section \<open>How a speaker ends\<close>

text \<open>The states of a running speaker that no client has connected to.\<close>

definition speaker_run_ok :: "speaker_run \<Rightarrow> bool" where
  "speaker_run_ok x \<longleftrightarrow>
     ap_sessions (sr_airplay x) = Map.empty
   \<and> (ap_rtspServer (sr_airplay x) = None \<longleftrightarrow> sr_start x \<in> {Advertising True, Advertising False, Creating})
   \<and> (sr_start x = Stopped \<longrightarrow>
        sr_main x \<in> {Stopping Ending_Registration, Stopping Stop_Done, Shutting_Down, Main_Returned})"

definition speaker_ready :: "speaker_run \<Rightarrow> bool" where
  "speaker_ready x \<longleftrightarrow> ap_sessions (sr_airplay x) = Map.empty \<and> ap_rtspServer (sr_airplay x) = None
     \<and> sr_start x \<in> {Advertising True, Advertising False} \<and> sr_main x = Selecting"

lemma speaker_ready_ok: "speaker_ready x \<Longrightarrow> speaker_run_ok x"
  by (auto simp: speaker_ready_def speaker_run_ok_def)

lemma speaker_main_ready:
  assumes "speaker_main env toml path m = (Ret (x, delegates), m')"
  shows "speaker_ready x"
proof -
  obtain port name p advertise api registered where "x = \<lparr>sr_airplay = NewAirplayServer port name \<lparr>fw_player = p, fw_tasks = []\<rparr>,
      sr_start = Advertising advertise, sr_api = api, sr_registered = registered, sr_main = Selecting\<rparr>"
    using assms by (auto simp: speaker_main_def bindP_Ret_iff Let_def split: prod.splits)
  then show ?thesis by (cases advertise) (simp_all add: speaker_ready_def NewAirplayServer_def)
qed

fun start_rank :: "start_phase \<Rightarrow> nat" where
  "start_rank (Advertising b) = 4"
| "start_rank Creating = 3"
| "start_rank Listening = 2"
| "start_rank Serving = 1"
| "start_rank Stopped = 0"

fun main_rank :: "main_phase \<Rightarrow> nat" where
  "main_rank Selecting = 6"
| "main_rank (Stopping Closing_Sessions) = 5"
| "main_rank (Stopping Signalling_Server) = 4"
| "main_rank (Stopping Ending_Registration) = 3"
| "main_rank (Stopping Stop_Done) = 2"
| "main_rank Shutting_Down = 1"
| "main_rank Main_Returned = 0"

definition run_rank :: "speaker_run \<Rightarrow> nat" where
  "run_rank x = start_rank (sr_start x) + main_rank (sr_main x) + (if sr_api x = None then 0 else 1)"

lemma start_turn_rank: "start_turn h listen st = Some (p, st') \<Longrightarrow> start_rank st' < start_rank st"
  by (cases st) auto

lemma stop_turn_rank:
  assumes "stop_turn h ks st a ph = Some (p, st', ph')" and "p a = (Ret (), a')"
  shows "start_rank st' + main_rank (Stopping ph') < start_rank st + main_rank (Stopping ph)"
  using assms by (cases ph) (auto simp: liftR_def split: if_splits)

lemma speaker_step_rank: "speaker_step env h x (Ret ()) y \<Longrightarrow> run_rank y < run_rank x"
proof (induction x "Ret () :: unit res" y rule: speaker_step.induct)
  case (start_goes_on x p st a)
  then show ?case using start_turn_rank by (simp add: run_rank_def)
next
  case (stop_goes_on x ph ks p st ph' a)
  then show ?case using stop_turn_rank [of h ks "sr_start x" "sr_airplay x" ph p st ph' a] by (simp add: run_rank_def)
qed (simp_all add: run_rank_def)

lemma speaker_step_terminates: "wfp (\<lambda>z y. speaker_step env h y (Ret ()) z)"
proof -
  have "{(z, y). speaker_step env h y (Ret ()) z} \<subseteq> measure run_rank" by (auto dest: speaker_step_rank)
  then show ?thesis using wf_subset [OF wf_measure] by (auto simp: wfp_def)
qed

lemma start_turn_ok:
  assumes "speaker_run_ok x" and "start_turn h listen (sr_start x) = Some (p, st)" and "p (sr_airplay x) = (Ret (), a)"
  shows "speaker_run_ok (x\<lparr>sr_airplay := a, sr_start := st\<rparr>)"
  using assms
  by (cases "sr_start x")
    (auto simp: speaker_run_ok_def initAdvertise_def create_server_def liftR_def split: if_splits res.splits)

lemma closeAllSessions_empty: "ap_sessions a = Map.empty \<Longrightarrow> range_order ks (ap_sessions a) \<Longrightarrow> closeAllSessions h ks a = (Ret (), a)"
  by (simp add: range_order_def closeAllSessions_def as_getSessions_def)

lemma stop_turn_ok:
  assumes "speaker_run_ok x" and "sr_main x = Stopping ph" and "range_order ks (ap_sessions (sr_airplay x))"
    and "stop_turn h ks (sr_start x) (sr_airplay x) ph = Some (p, st, ph')" and "p (sr_airplay x) = (Ret (), a)"
  shows "speaker_run_ok (x\<lparr>sr_airplay := a, sr_start := st, sr_main := Stopping ph'\<rparr>)"
  using assms
  by (cases ph)
    (auto simp: speaker_run_ok_def closeAllSessions_empty end_registration_def liftR_def split: if_splits)

lemma speaker_step_ok: "speaker_step env h x (Ret ()) y \<Longrightarrow> speaker_run_ok x \<Longrightarrow> speaker_run_ok y"
proof (induction x "Ret () :: unit res" y rule: speaker_step.induct)
  case (start_goes_on x p st a)
  then show ?case by (blast intro: start_turn_ok)
next
  case (stop_goes_on x ph ks p st ph' a)
  then show ?case by (blast intro: stop_turn_ok)
qed (auto simp: speaker_run_ok_def)

lemma speaker_runs_ok:
  assumes "speaker_runs env h x y" and "speaker_run_ok x"
  shows "speaker_run_ok y"
  using assms unfolding speaker_runs_def by (induction rule: rtranclp_induct) (auto intro: speaker_step_ok)

text \<open>A running speaker can always take a step, until \<^verbatim>\<open>main\<close> has returned.\<close>

lemma stop_steps:
  assumes "speaker_run_ok x" and "sr_main x = Stopping ph" and "ph \<noteq> Stop_Done"
    and "ph = Signalling_Server \<Longrightarrow> ap_rtspServer (sr_airplay x) \<noteq> None \<Longrightarrow> sr_start x = Serving"
  shows "\<exists>r z. speaker_step env h x r z"
proof -
  have ks: "range_order [] (ap_sessions (sr_airplay x))" using assms(1) by (simp add: speaker_run_ok_def range_order_def)
  obtain p st ph' where turn: "stop_turn h [] (sr_start x) (sr_airplay x) ph = Some (p, st, ph')" "fst (p (sr_airplay x)) \<noteq> Hang"
  proof (cases ph)
    case Closing_Sessions
    moreover have "closeAllSessions h [] (sr_airplay x) = (Ret (), sr_airplay x)"
      using assms(1) ks by (intro closeAllSessions_empty) (simp_all add: speaker_run_ok_def)
    ultimately show ?thesis using that by simp
  next
    case Signalling_Server
    then show ?thesis using that assms(4) by (cases "ap_rtspServer (sr_airplay x)") (simp_all add: liftR_def)
  next
    case Ending_Registration
    then show ?thesis using that by (simp add: end_registration_def)
  qed (use assms(3) in simp)
  obtain r a where "p (sr_airplay x) = (r, a)" by (cases "p (sr_airplay x)")
  with speaker_step.stop_goes_on [OF assms(2) ks turn(1) this] turn(2) show ?thesis by auto
qed

lemma start_steps:
  assumes "sr_main x \<noteq> Main_Returned" and "sr_start x \<noteq> Serving" and "sr_start x \<noteq> Stopped"
    and "\<And>n. ho_register h n \<noteq> Hang" and "\<And>p. nv_Listen env p \<noteq> Hang"
  shows "\<exists>r z. speaker_step env h x r z"
proof -
  have "fatal_res s (nv_Listen env n) \<noteq> Hang" for s n using assms(5) [of n] by (cases "nv_Listen env n") auto
  then obtain p st where turn: "start_turn h (nv_Listen env (ap_port (sr_airplay x))) (sr_start x) = Some (p, st)"
    "fst (p (sr_airplay x)) \<noteq> Hang"
    using assms(2-4) by (cases "sr_start x") (auto simp: initAdvertise_def create_server_def liftR_def split: res.splits)
  obtain r a where "p (sr_airplay x) = (r, a)" by (cases "p (sr_airplay x)")
  with speaker_step.start_goes_on [OF assms(1) turn(1) this] turn(2) show ?thesis by auto
qed

lemma speaker_goes_on:
  assumes "speaker_run_ok x" and "\<And>n. ho_register h n \<noteq> Hang" and "\<And>p. nv_Listen env p \<noteq> Hang" and "\<And>b. nv_Shutdown env b \<noteq> Hang"
  shows "sr_main x = Main_Returned \<or> (\<exists>r z. speaker_step env h x r z)"
proof (cases "sr_main x")
  case Selecting
  then show ?thesis using speaker_step.selects [of x env h] by (auto simp: await_signal_def)
next
  case (Stopping ph)
  show ?thesis
  proof (cases "ph = Stop_Done \<or> sr_start x \<noteq> Serving \<and> sr_start x \<noteq> Stopped")
    case True
    then show ?thesis
      using Stopping speaker_step.stopped [of x env h] start_steps [OF _ _ _ assms(2,3), of x] by auto
  next
    case False
    then show ?thesis using stop_steps [OF assms(1) Stopping] assms(1) Stopping by (auto simp: speaker_run_ok_def)
  qed
next
  case Shutting_Down
  then show ?thesis using speaker_step.shuts_down [of x env _ h] assms(4) by blast
qed simp

lemma speaker_runs_refl: "speaker_runs env h x x"
  by (simp add: speaker_runs_def)

lemma speaker_runs_step: "speaker_step env h x (Ret ()) y \<Longrightarrow> speaker_runs env h y z \<Longrightarrow> speaker_runs env h x z"
  unfolding speaker_runs_def by (rule converse_rtranclp_into_rtranclp)

lemma main_first_panics:
  assumes "speaker_ready x"
  shows "\<exists>y. speaker_runs env h x y \<and> speaker_step env h y (Panic nil_deref) y"
proof -
  let ?x1 = "x\<lparr>sr_main := Stopping Closing_Sessions\<rparr>" and ?x2 = "x\<lparr>sr_main := Stopping Signalling_Server\<rparr>"
  have x: "sr_main x = Selecting" "ap_sessions (sr_airplay x) = Map.empty" "ap_rtspServer (sr_airplay x) = None"
    and ks: "range_order [] (ap_sessions (sr_airplay x))"
    using assms by (simp_all add: speaker_ready_def range_order_def)
  have "speaker_step env h x (Ret ()) ?x1"
    using x(1) by (intro speaker_step.selects) (simp_all add: await_signal_def)
  moreover have "speaker_step env h ?x1 (Ret ()) ?x2"
    using speaker_step.stop_goes_on [of ?x1 Closing_Sessions "[]" h _ _ _ "Ret ()" "sr_airplay x" env] ks
      closeAllSessions_empty [OF x(2) ks, of h] by simp
  moreover have "speaker_step env h ?x2 (Panic nil_deref) ?x2"
    using speaker_step.stop_goes_on [of ?x2 Signalling_Server "[]" h _ _ _ "Panic nil_deref" "sr_airplay x" env] ks x(3)
    by (simp add: liftR_def)
  ultimately show ?thesis by (blast intro: speaker_runs_step speaker_runs_refl)
qed

lemma start_serves:
  assumes "speaker_ready x" and "\<forall>n. ho_register h n = Ret ()" and "\<forall>p. nv_Listen env p = Ret ()"
  shows "\<exists>a. speaker_runs env h x (x\<lparr>sr_airplay := a, sr_start := Serving\<rparr>) \<and>
    ap_rtspServer a \<noteq> None \<and> ap_sessions a = Map.empty"
proof -
  obtain b where x: "sr_main x = Selecting" "ap_sessions (sr_airplay x) = Map.empty" "sr_start x = Advertising b"
    using assms(1) by (auto simp: speaker_ready_def)
  obtain a1 where a1: "(if b then initAdvertise h else retP ()) (sr_airplay x) = (Ret (), a1)" "ap_sessions a1 = Map.empty"
    using x(2) assms(2) by (cases b) (auto simp: initAdvertise_def)
  define a2 where "a2 = a1\<lparr>ap_rtspServer := Some (ap_port a1)\<rparr>"
  have a2: "ap_rtspServer a2 \<noteq> None" "ap_sessions a2 = Map.empty" "create_server a1 = (Ret (), a2)"
    using a1(2) by (simp_all add: a2_def create_server_def)
  let ?y = "\<lambda>a st. x\<lparr>sr_airplay := a, sr_start := st\<rparr>"
  note start = speaker_step.start_goes_on [where env = env and h = h and r = "Ret ()"]
  have "speaker_step env h x (Ret ()) (?y a1 Creating)"
    using start [of x _ Creating a1] x a1(1) by simp
  moreover have "speaker_step env h (?y a1 Creating) (Ret ()) (?y a2 Listening)"
    using start [of "?y a1 Creating" create_server Listening a2] a2(3) x(1) by simp
  moreover have "speaker_step env h (?y a2 Listening) (Ret ()) (?y a2 Serving)"
    using start [of "?y a2 Listening" _ Serving a2] assms(3) x(1) by (simp add: liftR_def)
  ultimately show ?thesis using a2 by (meson speaker_runs_step speaker_runs_refl)
qed

lemma serving_returns:
  assumes "sr_main x = Selecting" and "sr_start x = Serving" and "ap_sessions (sr_airplay x) = Map.empty"
    and "ap_rtspServer (sr_airplay x) \<noteq> None" and "nv_Shutdown env (sr_registered x) = Ret ()"
  shows "\<exists>y. speaker_runs env h x y \<and> sr_main y = Main_Returned"
proof -
  have ks: "range_order [] (ap_sessions (sr_airplay x))" using assms(3) by (simp add: range_order_def)
  note stop = speaker_step.stop_goes_on [where env = env and h = h and ks = "[]" and r = "Ret ()"]
  let ?x1 = "x\<lparr>sr_main := Stopping Closing_Sessions\<rparr>"
  let ?x2 = "x\<lparr>sr_start := Serving, sr_main := Stopping Signalling_Server\<rparr>"
  let ?x3 = "x\<lparr>sr_start := Stopped, sr_main := Stopping Ending_Registration\<rparr>"
  let ?x4 = "x\<lparr>sr_airplay := (sr_airplay x)\<lparr>ap_advertised := None\<rparr>, sr_start := Stopped, sr_main := Stopping Stop_Done\<rparr>"
  let ?x5 = "?x4\<lparr>sr_main := Shutting_Down\<rparr>" and ?x6 = "?x4\<lparr>sr_main := Main_Returned\<rparr>"
  have "speaker_step env h x (Ret ()) ?x1"
    using speaker_step.selects [of x env h] assms(1) by (simp add: await_signal_def)
  moreover have "speaker_step env h ?x1 (Ret ()) ?x2"
    using stop [of ?x1 Closing_Sessions _ Serving Signalling_Server "sr_airplay x"] ks assms(2)
      closeAllSessions_empty [OF assms(3) ks, of h] by simp
  moreover have "speaker_step env h ?x2 (Ret ()) ?x3"
    using stop [of ?x2 Signalling_Server "retP ()" Stopped Ending_Registration "sr_airplay x"] ks assms(2,4) by simp
  moreover have "speaker_step env h ?x3 (Ret ()) ?x4"
    using stop [of ?x3 Ending_Registration end_registration Stopped Stop_Done "(sr_airplay x)\<lparr>ap_advertised := None\<rparr>"] ks
    by (simp add: end_registration_def)
  moreover have "speaker_step env h ?x4 (Ret ()) ?x5" using speaker_step.stopped [of ?x4 env h] by simp
  moreover have "speaker_step env h ?x5 (Ret ()) ?x6" using speaker_step.shuts_down [of ?x5 env "Ret ()" h] assms(5) by simp
  ultimately have "speaker_runs env h x ?x6" by (meson speaker_runs_step speaker_runs_refl)
  then show ?thesis by (intro exI [of _ ?x6]) simp
qed

lemma start_first_returns:
  assumes "speaker_ready x" and "\<forall>n. ho_register h n = Ret ()" and "\<forall>p. nv_Listen env p = Ret ()"
    and "nv_Shutdown env (sr_registered x) = Ret ()"
  shows "\<exists>y. speaker_runs env h x y \<and> sr_main y = Main_Returned"
proof -
  obtain a where a: "speaker_runs env h x (x\<lparr>sr_airplay := a, sr_start := Serving\<rparr>)" "ap_rtspServer a \<noteq> None"
    "ap_sessions a = Map.empty"
    using start_serves [OF assms(1-3)] by blast
  moreover have "\<exists>y. speaker_runs env h (x\<lparr>sr_airplay := a, sr_start := Serving\<rparr>) y \<and> sr_main y = Main_Returned"
    using a(2,3) assms(1,4) by (intro serving_returns) (simp_all add: speaker_ready_def)
  ultimately show ?thesis unfolding speaker_runs_def by (meson rtranclp_trans)
qed

section \<open>Properties\<close>

text \<open>
  C23. Exactly one speaker leads a cluster that comes up node by node: whatever management and frontend
  nodes are started before or in between, the first speaker advertises itself as an AirPlay
  service and every later one does not.
\<close>

theorem first_speaker_leads:
  assumes "list_all (\<lambda>n. nd_Meta n \<noteq> None) (before @ n # after)" and "list_all (\<lambda>n. \<not> has_type Music n) before"
    and "has_type Music n"
  shows "boot [] (before @ n # after) =
    Ret ((nd_Name n, True) # map (\<lambda>m. (nd_Name m, False)) (filter (has_type Music) after))"
proof -
  have "boot up (before @ n # after) =
      Ret ((nd_Name n, True) # map (\<lambda>m. (nd_Name m, False)) (filter (has_type Music) after))"
    if "list_all (\<lambda>n. nd_Meta n \<noteq> None) (up @ before @ n # after)" "filter (has_type Music) up = []" for up
    using that assms(2)
  proof (induction before arbitrary: up)
    case Nil
    let ?e = "Some \<lparr>en_Instance = [], en_AddrIPv4 = [nd_Addr (hd up)], en_Port = 0\<rparr>"
    have "boot (n # up) after = Ret (map (\<lambda>m. (nd_Name m, False)) (filter (has_type Music) after))"
      using Nil assms(3) by (intro boot_later) auto
    moreover have "map_res fst (choose_role (if up = [] then None else ?e) (Ret ()) (n # up)) = Ret True"
      using choose_role_joined [of n up] Nil assms(3) by simp
    ultimately show ?case using assms(3) by (auto simp: map_res_Ret_iff split: prod.splits)
  next
    case (Cons b before)
    then show ?case using Cons.IH [of "b # up"] by (simp del: boot.simps(1))
  qed
  from this [of "[]"] assms(1) show ?thesis by simp
qed

theorem first_speaker_leads_witness:
  "boot [] [mgmt_node ''m1'', music_node ''den'', music_node ''hall''] = Ret [(''den'', True), (''hall'', False)]"
  using first_speaker_leads [of "[mgmt_node ''m1'']" "music_node ''den''" "[music_node ''hall'']"]
  by (simp add: mgmt_node_def music_node_def has_type_def node_type_defs)

text \<open>
  C27. A speaker ends by itself, signal or not: from the state in which \<^verbatim>\<open>main\<close> starts the server goroutines,
  and whatever the schedule, the process takes finitely many steps, and it never comes to rest
  before \<^verbatim>\<open>main\<close> has returned or something has ended the process, because the last \<^verbatim>\<open>select\<close> has a default case and
  the deferred \<^verbatim>\<open>Stop\<close> always finds a partner. When \<^verbatim>\<open>main\<close> is faster than the goroutine of the AirPlay
  server, \<^verbatim>\<open>Stop\<close> panics on a nil pointer; when it is not, \<^verbatim>\<open>main\<close> may return. (For libraries whose calls
  return, and while no client connects.)
\<close>

theorem speaker_ends_without_signal:
  assumes "speaker_main env toml path m = (Ret (x, delegates), m')"
    and "\<And>n. ho_register h n \<noteq> Hang" and "\<And>p. nv_Listen env p \<noteq> Hang" and "\<And>b. nv_Shutdown env b \<noteq> Hang"
  shows "wfp (\<lambda>z y. speaker_step env h y (Ret ()) z)
    \<and> (\<forall>y. speaker_runs env h x y \<longrightarrow> sr_main y = Main_Returned \<or> (\<exists>r z. speaker_step env h y r z))
    \<and> (\<exists>y. speaker_runs env h x y \<and> speaker_step env h y (Panic nil_deref) y)
    \<and> ((\<forall>n. ho_register h n = Ret ()) \<and> (\<forall>p. nv_Listen env p = Ret ()) \<and> nv_Shutdown env (sr_registered x) = Ret () \<longrightarrow>
        (\<exists>y. speaker_runs env h x y \<and> sr_main y = Main_Returned))"
proof (intro conjI allI impI)
  have x: "speaker_ready x" using assms(1) by (rule speaker_main_ready)
  show "wfp (\<lambda>z y. speaker_step env h y (Ret ()) z)" by (rule speaker_step_terminates)
  show "sr_main y = Main_Returned \<or> (\<exists>r z. speaker_step env h y r z)" if "speaker_runs env h x y" for y
    using speaker_goes_on [OF speaker_runs_ok [OF that speaker_ready_ok [OF x]]] assms(2-4) by blast
  show "\<exists>y. speaker_runs env h x y \<and> speaker_step env h y (Panic nil_deref) y"
    by (rule main_first_panics [OF x])
  show "\<exists>y. speaker_runs env h x y \<and> sr_main y = Main_Returned"
    if "(\<forall>n. ho_register h n = Ret ()) \<and> (\<forall>p. nv_Listen env p = Ret ()) \<and> nv_Shutdown env (sr_registered x) = Ret ()"
    using start_first_returns [OF x] that by blast
qed

theorem speaker_ends_without_signal_witness:
  "\<exists>x delegates m'. speaker_main ((sample_node_env [])\<lparr>nv_Found := \<lambda>i. \<lparr>di_resolver = Ret (), di_browse = Ret []\<rparr>\<rparr>)
      (one_toml (sample_conf ''able-emu'') (sample_conf ''able-emu'')) ''bcg.toml'' sample_machine = (Ret (x, delegates), m')
    \<and> (\<exists>y. speaker_runs ((sample_node_env [])\<lparr>nv_Found := \<lambda>i. \<lparr>di_resolver = Ret (), di_browse = Ret []\<rparr>\<rparr>) sample_host x y
        \<and> sr_main y = Main_Returned)"
proof -
  let ?env = "(sample_node_env [])\<lparr>nv_Found := \<lambda>i. \<lparr>di_resolver = Ret (), di_browse = Ret []\<rparr>\<rparr>"
  let ?toml = "one_toml (sample_conf ''able-emu'') (sample_conf ''able-emu'')"
  have "\<exists>x delegates m'. speaker_main ?env ?toml ''bcg.toml'' sample_machine = (Ret (x, delegates), m') \<and> sr_registered x"
    by (simp add: speaker_main_def speaker_load_config_def load_config_def read_config_def ReadFile_def mapP_def bindP_def liftR_def
        sample_machine_def one_toml_def sample_conf_def sample_node_env_def NewPlayer_def search_cluster_def SearchForCluster_def
        choose_role_def register_node_def catchP_def start_service_def)
  then obtain x delegates m' where x: "speaker_main ?env ?toml ''bcg.toml'' sample_machine = (Ret (x, delegates), m')" "sr_registered x"
    by blast
  have "ho_register sample_host n = Ret ()" "nv_Listen ?env p = Ret ()" "nv_Shutdown ?env b \<noteq> Hang" "nv_Shutdown ?env True = Ret ()"
    for n p b
    by (simp_all add: sample_host_def sample_node_env_def)
  then have "\<exists>y. speaker_runs ?env sample_host x y \<and> sr_main y = Main_Returned"
    using speaker_ends_without_signal [OF x(1), of sample_host] x(2) by simp
  with x(1) show ?thesis by blast
qed

text \<open>Neither program's outcome depends on a signal.\<close>

lemma load_config_ignores_signals:
  "load_config strict name set_name (env\<lparr>nv_signalled := b\<rparr>) = load_config strict name set_name env"
  by (intro ext) (simp add: load_config_def WriteFile_def [abs_def] Let_def cong: if_cong)

lemma main_ignores_signals:
  "speaker_main (env\<lparr>nv_signalled := b\<rparr>) toml path = speaker_main env toml path"
  "mgmt_main (env\<lparr>nv_signalled := b\<rparr>) rx speakers mtoml path = mgmt_main env rx speakers mtoml path"
  by (simp_all add: speaker_main_def mgmt_main_def speaker_load_config_def mgmt_load_config_def await_signal_def
      search_cluster_def register_node_def join_cluster_def load_config_ignores_signals Let_def cong: option.case_cong)

end
