(* ===== verification/Rtsp_Connections.thy ===== *)
theory Rtsp_Connections
  imports Rtsp_Server
begin

text \<open>
  The listening side of the RTSP server, \<^verbatim>\<open>Start\<close> and \<^verbatim>\<open>Stop\<close> of \<^verbatim>\<open>rtsp/server.go\<close>: every connection is
  served by a goroutine of its own, and all of them share the program behind the handlers.

  A goroutine reads a request, runs its handler and writes the answer, and other goroutines may run
  between any two of its steps, inside a handler too: a handler is a tree of actions on the shared
  state (\<open>activity\<close>), each of which is what the code does without giving way, under a lock for
  example. \<open>srv_step\<close> lets any goroutine take its next step. A failing write ends the process, as does
  a handler that panics.
\<close>

section \<open>Activities\<close>

datatype 's activity =
    Answer response
  | Crash string
  | Fatal string
  | Block
  | Act "'s \<Rightarrow> 's \<times> 's activity"

type_synonym 's activity_handler = "request \<Rightarrow> response \<Rightarrow> string \<Rightarrow> string \<Rightarrow> 's activity"

text \<open>A handler of the sequential model, as one action.\<close>

definition atomically :: "'s handler \<Rightarrow> 's activity_handler" where
  "atomically h q resp localAddr remoteAddr =
     Act (\<lambda>s. case h q resp localAddr remoteAddr s of
        (Ret resp', s') \<Rightarrow> (s', Answer resp')
      | (Hang, s') \<Rightarrow> (s', Block)
      | (Err e, s') \<Rightarrow> (s', Crash e)
      | (Panic e, s') \<Rightarrow> (s', Crash e)
      | (Exit e, s') \<Rightarrow> (s', Fatal e))"

text \<open>The answers an activity may come to, whatever the others do to the state in the meantime.\<close>

inductive may_answer :: "'s activity \<Rightarrow> response \<Rightarrow> bool" where
  "may_answer (Answer p) p"
| "may_answer (snd (f s)) p \<Longrightarrow> may_answer (Act f) p"

section \<open>Connections\<close>

datatype 's phase =
    Reading
  | Handling request "'s activity"
  | Writing request response
  | Closed

record 's conn =
  cn_local :: string
  cn_remote :: string
  cn_in :: "string list"
  cn_out :: "string list"
  cn_phase :: "'s phase"

definition new_conn :: "string \<Rightarrow> string \<Rightarrow> string list \<Rightarrow> 's conn" where
  "new_conn localAddr remoteAddr segs =
     \<lparr>cn_local = localAddr, cn_remote = remoteAddr, cn_in = segs, cn_out = [], cn_phase = Reading\<rparr>"

datatype 's accepted = Accepted "'s conn" | Accept_Error string

primrec accept_loop :: "'s accepted list \<Rightarrow> 's conn list \<times> unit res" where
  "accept_loop [] = ([], Hang)"
| "accept_loop (a # as) =
     (case a of
        Accepted c \<Rightarrow> apfst (\<lambda>cs. c # cs) (accept_loop as)
      | Accept_Error e \<Rightarrow> ([], Exit (''Error accepting: '' @ e)))"

text \<open>
  \<open>Start\<close>: the connections it serves and how the process fares. \<open>stop\<close> is \<open>None\<close> while nobody calls
  \<^verbatim>\<open>Stop\<close>; after a call \<^verbatim>\<open>Start\<close> returns and closes the socket, and the goroutine that accepts
  connections gets the error that the library reports for a closed socket.
\<close>

definition Start :: "unit res \<Rightarrow> 's accepted list \<Rightarrow> string option \<Rightarrow> 's conn list \<times> unit res" where
  "Start listen accepts stop =
     (case listen of
        Err e \<Rightarrow> ([], Exit (''Error listening:'' @ e))
      | Panic e \<Rightarrow> ([], Panic e)
      | Exit e \<Rightarrow> ([], Exit e)
      | Hang \<Rightarrow> ([], Hang)
      | Ret _ \<Rightarrow> accept_loop (accepts @ (case stop of None \<Rightarrow> [] | Some e \<Rightarrow> [Accept_Error e])))"

text \<open>Stopping the server ends the whole process, with whatever it is still serving.\<close>

lemma stop_ends_process:
  "snd (Start (Ret ()) (map Accepted cs) (Some e)) = Exit (''Error accepting: '' @ e)"
  "fst (Start (Ret ()) (map Accepted cs) None) = cs"
  by (induction cs) (simp_all add: Start_def)

section \<open>The goroutines\<close>

text \<open>The head of the loop: the next request, and the handler that is called for it.\<close>

definition read_turn :: "(rtsp_method \<rightharpoonup> 's activity_handler) \<Rightarrow> 's conn \<Rightarrow> 's conn \<times> unit res" where
  "read_turn handlers c =
     (case readRequest (cn_in c) of
        Err e \<Rightarrow> (c\<lparr>cn_phase := Closed\<rparr>, Ret ())
      | Panic e \<Rightarrow> (c, Panic e)
      | Exit e \<Rightarrow> (c, Exit e)
      | Hang \<Rightarrow> (c, Hang)
      | Ret (q, segs) \<Rightarrow>
          (c\<lparr>cn_in := segs, cn_phase :=
             (case handlers (rq_Method q) of
                None \<Rightarrow> Reading
              | Some h \<Rightarrow> Handling q (h q (initial_response q) (cn_local c) (cn_remote c)))\<rparr>, Ret ()))"

text \<open>One step of one goroutine; the outcome is that of the process.\<close>

inductive conn_step :: "(rtsp_method \<rightharpoonup> 's activity_handler) \<Rightarrow> ((string \<rightharpoonup> string) \<Rightarrow> string list) \<Rightarrow>
    's conn \<times> 's \<Rightarrow> unit res \<Rightarrow> 's conn \<times> 's \<Rightarrow> bool" for handlers ord where
  reads: "cn_phase c = Reading \<Longrightarrow> read_turn handlers c = (c', r) \<Longrightarrow> r \<noteq> Hang \<Longrightarrow>
    conn_step handlers ord (c, s) r (c', s)"
| acts: "cn_phase c = Handling q (Act f) \<Longrightarrow> f s = (s', a) \<Longrightarrow>
    conn_step handlers ord (c, s) (Ret ()) (c\<lparr>cn_phase := Handling q a\<rparr>, s')"
| crashes: "cn_phase c = Handling q (Crash e) \<Longrightarrow> conn_step handlers ord (c, s) (Panic e) (c, s)"
| exits: "cn_phase c = Handling q (Fatal e) \<Longrightarrow> conn_step handlers ord (c, s) (Exit e) (c, s)"
| answers: "cn_phase c = Handling q (Answer p) \<Longrightarrow>
    conn_step handlers ord (c, s) (Ret ()) (c\<lparr>cn_phase := Writing q p\<rparr>, s)"
| writes: "cn_phase c = Writing q p \<Longrightarrow>
    conn_step handlers ord (c, s) (Ret ())
      (c\<lparr>cn_out := cn_out c @ [writeResponse (ord (rs_Headers p)) p], cn_phase := Reading\<rparr>, s)"
| write_fails: "cn_phase c = Writing q p \<Longrightarrow> conn_step handlers ord (c, s) (Exit e) (c, s)"

inductive srv_step :: "(rtsp_method \<rightharpoonup> 's activity_handler) \<Rightarrow> ((string \<rightharpoonup> string) \<Rightarrow> string list) \<Rightarrow>
    's conn list \<times> 's \<Rightarrow> unit res \<Rightarrow> 's conn list \<times> 's \<Rightarrow> bool" for handlers ord where
  turn: "i < length cs \<Longrightarrow> conn_step handlers ord (cs ! i, s) r (c, s') \<Longrightarrow>
    srv_step handlers ord (cs, s) r (cs[i := c], s')"

inductive_cases conn_stepE: "conn_step handlers ord (c, s) r (c', s')"
inductive_cases srv_stepE: "srv_step handlers ord (cs, s) r (cs', s')"

text \<open>A run of the server in which the process stays up.\<close>

definition srv_runs :: "(rtsp_method \<rightharpoonup> 's activity_handler) \<Rightarrow> ((string \<rightharpoonup> string) \<Rightarrow> string list) \<Rightarrow>
    's conn list \<times> 's \<Rightarrow> 's conn list \<times> 's \<Rightarrow> bool" where
  "srv_runs handlers ord = (\<lambda>x y. srv_step handlers ord x (Ret ()) y)\<^sup>*\<^sup>*"

section \<open>Answers stay in order\<close>

text \<open>The requests of a connection, in order, up to the first that cannot be read.\<close>

function requests_of :: "string list \<Rightarrow> request list" where
  "requests_of segs = (case readRequest segs of Ret (q, segs') \<Rightarrow> q # requests_of segs' | _ \<Rightarrow> [])"
  by pat_completeness auto
termination requests_of
  by (relation "measure (\<lambda>segs. length (concat segs))") (auto dest: readRequest_shrinks)

declare requests_of.simps [simp del]

fun in_hand :: "'s phase \<Rightarrow> request list" where
  "in_hand (Handling q a) = [q]"
| "in_hand (Writing q p) = [q]"
| "in_hand _ = []"

definition handled :: "(rtsp_method \<rightharpoonup> 's activity_handler) \<Rightarrow> request \<Rightarrow> bool" where
  "handled handlers q \<longleftrightarrow> handlers (rq_Method q) \<noteq> None"

definition possible :: "(rtsp_method \<rightharpoonup> 's activity_handler) \<Rightarrow> 's conn \<Rightarrow> request \<Rightarrow> response \<Rightarrow> bool" where
  "possible handlers c q p \<longleftrightarrow>
     (\<exists>h. handlers (rq_Method q) = Some h \<and> may_answer (h q (initial_response q) (cn_local c) (cn_remote c)) p)"

text \<open>
  What holds of a connection that began as \<open>c0\<close>: the requests read so far are those it has answered, in
  order, the one in hand, and those without a handler; the activity in hand can only come to
  answers that the handler of its request may give.
\<close>

definition serves :: "(rtsp_method \<rightharpoonup> 's activity_handler) \<Rightarrow> ((string \<rightharpoonup> string) \<Rightarrow> string list) \<Rightarrow> 's conn \<Rightarrow> 's conn \<Rightarrow>
    (request \<times> response) list \<Rightarrow> bool" where
  "serves handlers ord c0 c log \<longleftrightarrow>
     cn_local c = cn_local c0 \<and> cn_remote c = cn_remote c0
     \<and> cn_out c = cn_out c0 @ map (\<lambda>(q, p). writeResponse (ord (rs_Headers p)) p) log
     \<and> list_all (\<lambda>(q, p). possible handlers c0 q p) log
     \<and> (\<exists>qs. requests_of (cn_in c0) = qs @ requests_of (cn_in c)
         \<and> filter (handled handlers) qs = map fst log @ in_hand (cn_phase c))
     \<and> (\<forall>q a. cn_phase c = Handling q a \<longrightarrow> (\<forall>p. may_answer a p \<longrightarrow> possible handlers c0 q p))
     \<and> (\<forall>q p. cn_phase c = Writing q p \<longrightarrow> possible handlers c0 q p)
     \<and> (cn_phase c = Closed \<longrightarrow> requests_of (cn_in c) = [])"

lemma serves_begin: "cn_phase c = Reading \<Longrightarrow> serves handlers ord c c []"
  by (simp add: serves_def)

lemma read_turn_Ret:
  assumes "read_turn handlers c = (c', Ret ())"
  obtains (stop) e where "readRequest (cn_in c) = Err e" "c' = c\<lparr>cn_phase := Closed\<rparr>"
    | (go) q segs where "readRequest (cn_in c) = Ret (q, segs)" "c' = c\<lparr>cn_in := segs, cn_phase :=
        (case handlers (rq_Method q) of None \<Rightarrow> Reading
         | Some h \<Rightarrow> Handling q (h q (initial_response q) (cn_local c) (cn_remote c)))\<rparr>"
  using assms by (auto simp: read_turn_def split: res.splits prod.splits)

lemma serves_reads:
  assumes "serves handlers ord c0 c log" and "cn_phase c = Reading" and "read_turn handlers c = (c', Ret ())"
  shows "serves handlers ord c0 c' log"
  using assms(3)
proof (cases rule: read_turn_Ret)
  case stop
  then have "requests_of (cn_in c) = []" by (simp add: requests_of.simps)
  with stop assms(1,2) show ?thesis by (auto simp: serves_def)
next
  case (go q segs)
  then have "requests_of (cn_in c) = q # requests_of segs" by (simp add: requests_of.simps [of "cn_in c"])
  moreover obtain qs where "requests_of (cn_in c0) = qs @ requests_of (cn_in c)"
    "filter (handled handlers) qs = map fst log"
    using assms(1,2) by (auto simp: serves_def)
  ultimately have "requests_of (cn_in c0) = (qs @ [q]) @ requests_of segs"
    "filter (handled handlers) (qs @ [q]) = map fst log @ in_hand (cn_phase c')"
    using go(2) by (auto simp: handled_def split: option.splits)
  moreover have "cn_in c' = segs" using go(2) by simp
  ultimately have "\<exists>qs. requests_of (cn_in c0) = qs @ requests_of (cn_in c') \<and>
      filter (handled handlers) qs = map fst log @ in_hand (cn_phase c')"
    by metis
  then show ?thesis using assms(1) go(2) by (auto simp: serves_def possible_def split: option.splits)
qed

lemma serves_acts:
  assumes "serves handlers ord c0 c log" and "cn_phase c = Handling q (Act f)" and "f s = (s', a)"
  shows "serves handlers ord c0 (c\<lparr>cn_phase := Handling q a\<rparr>) log"
proof -
  have "may_answer a p \<Longrightarrow> may_answer (Act f) p" for p using may_answer.intros(2) [of f s p] assms(3) by simp
  with assms show ?thesis by (auto simp: serves_def)
qed

lemma serves_answers:
  assumes "serves handlers ord c0 c log" and "cn_phase c = Handling q (Answer p)"
  shows "serves handlers ord c0 (c\<lparr>cn_phase := Writing q p\<rparr>) log"
proof -
  have "possible handlers c0 q p" using assms by (auto simp: serves_def intro: may_answer.intros)
  with assms show ?thesis by (auto simp: serves_def)
qed

lemma serves_writes:
  assumes "serves handlers ord c0 c log" and "cn_phase c = Writing q p"
  shows "serves handlers ord c0
    (c\<lparr>cn_out := cn_out c @ [writeResponse (ord (rs_Headers p)) p], cn_phase := Reading\<rparr>) (log @ [(q, p)])"
  using assms by (auto simp: serves_def)

lemma serves_step:
  assumes "serves handlers ord c0 c log" and "conn_step handlers ord (c, s) (Ret ()) (c', s')"
  shows "\<exists>log'. serves handlers ord c0 c' log'"
proof (rule conn_stepE [OF assms(2)])
  assume "cn_phase c = Reading" "read_turn handlers c = (c', Ret ())"
  with assms(1) show ?thesis by (blast intro: serves_reads)
next
  fix q f a assume "c' = c\<lparr>cn_phase := Handling q a\<rparr>" "cn_phase c = Handling q (Act f)" "f s = (s', a)"
  with assms(1) show ?thesis using serves_acts [of handlers ord c0 c log q f s s' a] by blast
next
  fix q p assume "c' = c\<lparr>cn_phase := Writing q p\<rparr>" "cn_phase c = Handling q (Answer p)"
  with assms(1) show ?thesis using serves_answers [of handlers ord c0 c log q p] by blast
next
  fix q p assume "c' = c\<lparr>cn_out := cn_out c @ [writeResponse (ord (rs_Headers p)) p], cn_phase := Reading\<rparr>"
    "cn_phase c = Writing q p"
  with assms(1) show ?thesis using serves_writes [of handlers ord c0 c log q p] by blast
qed simp_all

lemma srv_step_length: "srv_step handlers ord (cs, s) r (cs', s') \<Longrightarrow> length cs' = length cs"
  by (auto elim: srv_stepE)

lemma serves_srv_step:
  assumes "srv_step handlers ord (cs, s) (Ret ()) (cs', s')" and "serves handlers ord c0 (cs ! i) log"
  shows "\<exists>log'. serves handlers ord c0 (cs' ! i) log'"
  using assms(1)
proof (rule srv_stepE)
  fix j c assume "cs' = cs[j := c]" "j < length cs" "conn_step handlers ord (cs ! j, s) (Ret ()) (c, s')"
  then show ?thesis using assms(2) serves_step [of handlers ord c0 "cs ! j" log s c s']
    by (cases "i = j") auto
qed

lemma serves_srv_runs:
  assumes "srv_runs handlers ord (cs, s) (cs', s')" and "\<forall>c\<in>set cs. cn_phase c = Reading" and "i < length cs"
  shows "length cs' = length cs \<and> (\<exists>log. serves handlers ord (cs ! i) (cs' ! i) log)"
  using assms(1) unfolding srv_runs_def
proof (induction "(cs', s')" arbitrary: cs' s' rule: rtranclp_induct)
  case base
  then show ?case using assms(2,3) serves_begin [of "cs ! i" handlers ord] by auto
next
  case (step y)
  then obtain cs1 s1 where y: "y = (cs1, s1)" by (cases y)
  then obtain log where "length cs1 = length cs" "serves handlers ord (cs ! i) (cs1 ! i) log"
    using step(3) by blast
  with step(2) y show ?case
    using srv_step_length [of handlers ord cs1 s1] serves_srv_step [of handlers ord cs1 s1 cs' s' "cs ! i" i] by fastforce
qed

section \<open>Serving comes to an end\<close>

text \<open>A step of an activity leads to a smaller one, and the remaining steps to fewer bytes or a later phase.\<close>

inductive_set continues :: "('s activity \<times> 's activity) set" where
  "(snd (f s), Act f) \<in> continues"

inductive_simps continues_simps: "(a, b) \<in> continues"

lemma wf_continues: "wf (continues :: ('s activity \<times> 's activity) set)"
proof (rule wfI_min)
  fix x :: "'s activity" and Q assume "x \<in> Q"
  then show "\<exists>z\<in>Q. \<forall>y. (y, z) \<in> continues \<longrightarrow> y \<notin> Q"
  proof (induction x)
    case (Act f)
    show ?case
    proof (cases "\<exists>s. snd (f s) \<in> Q")
      case True
      then obtain s where "snd (f s) \<in> Q" by blast
      moreover have "f s \<in> range f" "snd (f s) \<in> Basic_BNFs.snds (f s)" by (auto simp: snds.simps)
      ultimately show ?thesis using Act.IH by blast
    next
      case False
      then show ?thesis using Act.prems by (intro bexI [of _ "Act f"]) (auto simp: continues_simps)
    qed
  qed (auto simp: continues_simps)
qed

fun rank :: "'s phase \<Rightarrow> nat" where
  "rank Closed = 0"
| "rank Reading = 1"
| "rank (Writing q p) = 2"
| "rank (Handling q a) = 3"

fun left :: "'s phase \<Rightarrow> 's activity" where
  "left (Handling q a) = a"
| "left _ = Block"

definition work :: "'s conn \<Rightarrow> nat" where
  "work c = 3 * length (concat (cn_in c)) + rank (cn_phase c)"

lemma conn_step_work:
  assumes "conn_step handlers ord (c, s) (Ret ()) (c', s')"
  shows "work c' < work c \<or>
    (work c' = work c \<and> (left (cn_phase c'), left (cn_phase c)) \<in> continues)"
proof (rule conn_stepE [OF assms])
  assume "cn_phase c = Reading" "read_turn handlers c = (c', Ret ())"
  then show ?thesis
    by (auto simp: work_def dest!: readRequest_shrinks elim!: read_turn_Ret split: option.splits)
next
  fix q f a assume "c' = c\<lparr>cn_phase := Handling q a\<rparr>" "cn_phase c = Handling q (Act f)" "f s = (s', a)"
  moreover have "(snd (f s), Act f) \<in> continues" by (rule continues.intros)
  ultimately show ?thesis by (simp add: work_def)
qed (simp_all add: work_def)

definition progress :: "('s conn list \<times> 's) rel" where
  "progress = inv_image (less_than <*lex*> listrel1 continues)
     (\<lambda>(cs, s). (sum_list (map work cs), map (\<lambda>c. left (cn_phase c)) cs))"

lemma wf_progress: "wf progress"
  unfolding progress_def by (intro wf_inv_image wf_lex_prod) (simp_all add: wf_listrel1_iff wf_continues)

lemma map_around: "i < length xs \<Longrightarrow> map f xs = map f (take i xs) @ f (xs ! i) # map f (drop (Suc i) xs)"
  using arg_cong [OF id_take_nth_drop [of i xs], of "map f"] by simp

lemma srv_step_progress:
  assumes "srv_step handlers ord (cs, s) (Ret ()) (cs', s')"
  shows "((cs', s'), (cs, s)) \<in> progress"
  using assms
proof (rule srv_stepE)
  let ?left = "\<lambda>c. left (cn_phase c)"
  fix i c assume *: "cs' = cs[i := c]" "i < length cs" "conn_step handlers ord (cs ! i, s) (Ret ()) (c, s')"
  have "work (cs ! i) \<le> sum_list (map work cs)" using *(2) by (simp add: member_le_sum_list)
  moreover have "sum_list (map work cs') = sum_list (map work cs) + work c - work (cs ! i)"
    using *(1,2) by (simp add: map_update sum_list_update)
  moreover have "(left (cn_phase c), left (cn_phase (cs ! i))) \<in> continues \<Longrightarrow>
      (map ?left cs', map ?left cs) \<in> listrel1 continues"
    by (rule listrel1I [where us = "map ?left (take i cs)" and vs = "map ?left (drop (Suc i) cs)"])
      (simp_all add: *(1) upd_conv_take_nth_drop [OF *(2)] map_around [OF *(2), of ?left])
  ultimately show ?thesis using conn_step_work [OF *(3)] by (auto simp: progress_def)
qed

text \<open>The server waits only for its handlers: a connection that cannot go on is closed or blocked in one.\<close>

lemma res_bind_Hang_iff: "res_bind r f = Hang \<longleftrightarrow> r = Hang \<or> (\<exists>x. r = Ret x \<and> f x = Hang)"
  by (cases r) auto

lemma res_of_option_Hang_iff: "res_of_option e x = Hang \<longleftrightarrow> x = None \<and> e = Hang"
  by (cases x) auto

lemma read_headers_returns: "read_headers r hs \<noteq> Hang"
proof (induction r hs rule: read_headers.induct)
  case (1 r hs)
  have "header_field f \<noteq> Hang" for f by (simp add: header_field_def Let_def)
  then show ?case
    using 1 [OF _ refl refl]
    by (auto simp: read_headers.simps [of r] Let_def res_bind_Hang_iff simp del: fun_upd_apply split: option.splits)
qed

lemma readRequest_returns: "readRequest segs \<noteq> Hang"
proof -
  have "read_request r \<noteq> Hang" for r
    by (auto simp: read_request_def request_line_def read_body_def read_headers_returns Let_def
        res_bind_Hang_iff res_of_option_Hang_iff
        split: option.splits res.splits)
  then show ?thesis by (auto simp: readRequest_def res_bind_Hang_iff)
qed

lemma conn_step_goes_on:
  assumes "cn_phase c \<noteq> Closed" and "\<forall>q. cn_phase c \<noteq> Handling q Block"
  shows "\<exists>r c' s'. conn_step handlers ord (c, s) r (c', s')"
proof (cases "cn_phase c")
  case Reading
  then have "snd (read_turn handlers c) \<noteq> Hang"
    using readRequest_returns [of "cn_in c"] by (auto simp: read_turn_def split: res.splits)
  with Reading show ?thesis using conn_step.reads [of c handlers] by (metis prod.collapse)
next
  case (Handling q a)
  then show ?thesis
  proof (cases a)
    case (Act f)
    then show ?thesis using Handling conn_step.acts [of c q f s "fst (f s)" "snd (f s)" handlers ord] by auto
  qed (use Handling assms(2) in \<open>blast intro: conn_step.intros\<close>)+
qed (use assms(1) in \<open>blast intro: conn_step.writes\<close>)+

lemma srv_stops_only_when_done:
  assumes "\<nexists>r y. srv_step handlers ord (cs, s) r y" and "i < length cs"
  shows "cn_phase (cs ! i) = Closed \<or> (\<exists>q. cn_phase (cs ! i) = Handling q Block)"
  using conn_step_goes_on [of "cs ! i" handlers ord s] assms srv_step.turn [of i cs handlers ord s] by blast

section \<open>The sequential loop is one schedule\<close>

text \<open>
  \<open>serve\<close> is what one goroutine does when nobody else runs and its handlers are single actions.
\<close>

abbreviation atomic_handlers :: "(rtsp_method \<rightharpoonup> 's handler) \<Rightarrow> (rtsp_method \<rightharpoonup> 's activity_handler)" where
  "atomic_handlers handlers \<equiv> (\<lambda>m. map_option atomically (handlers m))"

lemma srv_runs_step:
  "srv_step handlers ord x (Ret ()) y \<Longrightarrow> srv_runs handlers ord y z \<Longrightarrow> srv_runs handlers ord x z"
  unfolding srv_runs_def by (rule converse_rtranclp_into_rtranclp)

lemma srv_runs_refl: "srv_runs handlers ord x x"
  by (simp add: srv_runs_def)

lemma srv_runs_conn:
  assumes "i < length cs" and "conn_step handlers ord (cs ! i, s) (Ret ()) (c, s')"
    and "srv_runs handlers ord (cs[i := c], s') z"
  shows "srv_runs handlers ord (cs, s) z"
  using srv_step.turn [OF assms(1,2)] assms(3) by (rule srv_runs_step)

lemma conn_step_atomically:
  assumes "cn_phase c = Handling q (atomically h q resp la ra)" and "h q resp la ra s = (Ret p, s')"
  shows "conn_step handlers ord (c, s) (Ret ()) (c\<lparr>cn_phase := Handling q (Answer p)\<rparr>, s')"
  using assms(1) unfolding atomically_def by (rule conn_step.acts) (simp add: assms(2))

lemma turn_runs:
  assumes "i < length cs" and "cn_phase (cs ! i) = Reading" and "readRequest (cn_in (cs ! i)) = Ret (q, rest)"
    and "handlers (rq_Method q) = Some h"
    and "h q (initial_response q) (cn_local (cs ! i)) (cn_remote (cs ! i)) s = (Ret p, s')"
    and "srv_runs (atomic_handlers handlers) ord
      (cs[i := (cs ! i)\<lparr>cn_in := rest, cn_out := cn_out (cs ! i) @ [writeResponse (ord (rs_Headers p)) p],
         cn_phase := Reading\<rparr>], s') z"
  shows "srv_runs (atomic_handlers handlers) ord (cs, s) z"
proof (rule srv_runs_conn [OF assms(1)])
  let ?c = "cs ! i" and ?hs = "atomic_handlers handlers"
  let ?a = "atomically h q (initial_response q) (cn_local ?c) (cn_remote ?c)"
  let ?c1 = "?c\<lparr>cn_in := rest, cn_phase := Handling q ?a\<rparr>"
  let ?c2 = "?c1\<lparr>cn_phase := Handling q (Answer p)\<rparr>"
  let ?c3 = "?c2\<lparr>cn_phase := Writing q p\<rparr>"
  let ?c4 = "?c3\<lparr>cn_out := cn_out ?c3 @ [writeResponse (ord (rs_Headers p)) p], cn_phase := Reading\<rparr>"
  show "conn_step ?hs ord (?c, s) (Ret ()) (?c1, s)"
    using assms(2-4) by (auto intro!: conn_step.reads simp: read_turn_def)
  have "conn_step ?hs ord (?c1, s) (Ret ()) (?c2, s')"
    by (rule conn_step_atomically [where h = h and q = q]) (simp, rule assms(5))
  moreover have "conn_step ?hs ord (?c2, s') (Ret ()) (?c3, s')" by (rule conn_step.answers) simp
  moreover have "conn_step ?hs ord (?c3, s') (Ret ()) (?c4, s')" by (rule conn_step.writes) simp
  moreover have "srv_runs ?hs ord (cs[i := ?c4], s') z" using assms(6) by simp
  ultimately show "srv_runs ?hs ord (cs[i := ?c1], s) z"
    using assms(1) srv_runs_conn [of i "cs[i := ?c1]" ?hs ord s ?c2 s' z]
      srv_runs_conn [of i "cs[i := ?c2]" ?hs ord s' ?c3 s' z] srv_runs_conn [of i "cs[i := ?c3]" ?hs ord s' ?c4 s' z]
    by simp
qed

lemma serve_runs:
  assumes "serve handlers ord (cn_local (cs ! i)) (cn_remote (cs ! i)) wr segs s = (out, Ret (), s')"
    and "cn_phase (cs ! i) = Reading" and "cn_in (cs ! i) = segs" and "i < length cs"
  shows "\<exists>c. srv_runs (atomic_handlers handlers) ord (cs, s) (cs[i := c], s') \<and>
    cn_phase c = Closed \<and> cn_out c = cn_out (cs ! i) @ out"
  using assms
proof (induction "length (concat segs)" arbitrary: wr segs s cs out rule: less_induct)
  case less
  let ?c = "cs ! i" and ?hs = "atomic_handlers handlers"
  let ?read = "\<lambda>c. conn_step ?hs ord (?c, s) (Ret ()) (c, s)"
  note serve = less.prems(1) [unfolded serve.simps [of _ _ _ _ _ segs]]
  consider e where "readRequest segs = Err e" | q rest where "readRequest segs = Ret (q, rest)" 
    using serve by (cases "readRequest segs") auto
  then show ?case
  proof cases
    case 1
    then have "?read (?c\<lparr>cn_phase := Closed\<rparr>)" "out = []" "s' = s"
      using less.prems(2,3) serve by (auto intro!: conn_step.reads simp: read_turn_def)
    then show ?thesis using less.prems(4)
      by (intro exI [of _ "?c\<lparr>cn_phase := Closed\<rparr>"]) (auto intro: srv_runs_conn srv_runs_refl)
  next
    case (2 q rest)
    then have shrinks: "length (concat rest) < length (concat segs)" by (rule readRequest_shrinks)
    show ?thesis
    proof (cases "handlers (rq_Method q)")
      case None
      let ?c1 = "?c\<lparr>cn_in := rest, cn_phase := Reading\<rparr>"
      have "?read ?c1" using 2 None less.prems(2,3) by (auto intro!: conn_step.reads simp: read_turn_def)
      moreover have "\<exists>c. srv_runs ?hs ord (cs[i := ?c1], s) (cs[i := ?c1, i := c], s') \<and>
          cn_phase c = Closed \<and> cn_out c = cn_out (cs[i := ?c1] ! i) @ out"
        using 2 None less.prems(4) serve by (intro less.hyps [OF shrinks]) auto
      ultimately show ?thesis using less.prems(4) by (auto intro: srv_runs_conn)
    next
      case (Some h)
      then obtain p s1 out' where h: "h q (initial_response q) (cn_local ?c) (cn_remote ?c) s = (Ret p, s1)"
        and out: "out = writeResponse (ord (rs_Headers p)) p # out'"
        and rest: "serve handlers ord (cn_local ?c) (cn_remote ?c) (\<lambda>k. wr (k + 1)) rest s1 = (out', Ret (), s')"
        using 2 serve by (auto split: prod.splits res.splits option.splits)
      let ?c4 = "?c\<lparr>cn_in := rest, cn_out := cn_out ?c @ [writeResponse (ord (rs_Headers p)) p], cn_phase := Reading\<rparr>"
      have "\<exists>c. srv_runs ?hs ord (cs[i := ?c4], s1) (cs[i := ?c4, i := c], s') \<and>
          cn_phase c = Closed \<and> cn_out c = cn_out (cs[i := ?c4] ! i) @ out'"
        using rest less.prems(2,4) by (intro less.hyps [OF shrinks]) auto
      then obtain c where c: "srv_runs ?hs ord (cs[i := ?c4], s1) (cs[i := c], s')" "cn_phase c = Closed"
        "cn_out c = cn_out ?c @ out"
        using less.prems(4) out by auto
      have "srv_runs ?hs ord (cs, s) (cs[i := c], s')"
        using turn_runs [OF less.prems(4,2) _ Some h c(1)] 2 less.prems(3) by simp
      then show ?thesis using c by blast
    qed
  qed
qed

section \<open>Properties\<close>

text \<open>A write that fails ends the process, whoever's connection it is.\<close>

lemma failed_write_ends_process:
  assumes "i < length cs" and "cn_phase (cs ! i) = Writing q p"
  shows "srv_step handlers ord (cs, s) (Exit e) (cs, s)"
  using srv_step.turn [OF assms(1) conn_step.write_fails [of "cs ! i" q p handlers ord s e]] assms(2) by simp

text \<open>
  C8. Goroutines that share the state behind the handlers and may be interrupted inside them do not
  mix up connections: whatever the handlers do and in whatever way their actions interleave, as long
  as the process is up each connection has been sent, in the order of its own requests, exactly one
  answer for every request that it has read and that has a handler, except the one it has in hand;
  each answer is one that the handler of that very request can come to, serialised; requests without
  a handler are passed over; and a connection is closed only when nothing readable is left on it.
\<close>

theorem answers_stay_in_order:
  assumes "\<forall>c\<in>set cs. cn_phase c = Reading" and "srv_runs handlers ord (cs, s) (cs', s')" and "i < length cs"
  shows "length cs' = length cs \<and>
    (\<exists>log qs.
       cn_out (cs' ! i) = cn_out (cs ! i) @ map (\<lambda>(q, p). writeResponse (ord (rs_Headers p)) p) log \<and>
       requests_of (cn_in (cs ! i)) = qs @ requests_of (cn_in (cs' ! i)) \<and>
       filter (\<lambda>q. handlers (rq_Method q) \<noteq> None) qs = map fst log @ in_hand (cn_phase (cs' ! i)) \<and>
       (\<forall>(q, p)\<in>set log. \<exists>h. handlers (rq_Method q) = Some h \<and>
          may_answer (h q (initial_response q) (cn_local (cs ! i)) (cn_remote (cs ! i))) p) \<and>
       (cn_phase (cs' ! i) = Closed \<longrightarrow> requests_of (cn_in (cs' ! i)) = []))"
proof -
  obtain log where "length cs' = length cs" "serves handlers ord (cs ! i) (cs' ! i) log"
    using serves_srv_runs [OF assms(2,1,3)] by blast
  then show ?thesis
    by (auto simp: serves_def possible_def handled_def [abs_def] list_all_iff intro!: exI [of _ log])
qed

text \<open>A connection that sends one request, and the run that serves it.\<close>

definition sample_conn :: "nat conn" where
  "sample_conn = new_conn ''a'' ''b'' [writeRequest [''CSeq'', ''Content-Type''] sample_request]"

definition sample_received :: request where
  "sample_received = sample_request\<lparr>rq_Headers := received (rq_Headers sample_request) (rq_Body sample_request)\<rparr>"

lemma sample_requests_of: "requests_of (cn_in sample_conn) = [sample_received]"
  using readRequest_carried [OF sample_carried, of "[]"]
  by (simp add: sample_conn_def new_conn_def sample_received_def requests_of.simps readRequest_closed)

lemma sample_run:
  "\<exists>c. srv_runs (atomic_handlers [Set_Parameter \<mapsto> count_handler]) (\<lambda>_. [''CSeq'']) ([sample_conn], 0) ([c], 9) \<and>
    cn_phase c = Closed \<and> length (cn_out c) = 1"
proof -
  let ?w = "writeRequest [''CSeq'', ''Content-Type''] sample_request"
  have "list_all2 carries [?w] [sample_received]" using sample_carried by (simp add: sample_received_def)
  moreover have "rq_Method sample_received = Set_Parameter" "length (rq_Body sample_received) = 9"
    by (simp_all add: sample_received_def sample_request_def)
  ultimately have "\<exists>p. serve [Set_Parameter \<mapsto> count_handler] (\<lambda>_. [''CSeq'']) ''a'' ''b'' all_written [?w] 0 = ([p], Ret (), 9)"
    by (simp add: serve_carried [of "[?w]" "[sample_received]"] count_handler_def)
  then obtain p where "serve [Set_Parameter \<mapsto> count_handler] (\<lambda>_. [''CSeq'']) ''a'' ''b'' all_written [?w] 0 = ([p], Ret (), 9)"
    by blast
  moreover have "cn_phase sample_conn = Reading" "cn_in sample_conn = [?w]" "cn_local sample_conn = ''a''"
    "cn_remote sample_conn = ''b''" "cn_out sample_conn = []"
    by (simp_all add: sample_conn_def new_conn_def)
  ultimately show ?thesis
    using serve_runs [of "[Set_Parameter \<mapsto> count_handler]" "\<lambda>_. [''CSeq'']" "[sample_conn]" 0 all_written "[?w]" 0 "[p]" 9]
    by force
qed

theorem answers_stay_in_order_witness:
  "\<exists>c log. srv_runs (atomic_handlers [Set_Parameter \<mapsto> count_handler]) (\<lambda>_. [''CSeq'']) ([sample_conn], 0) ([c], 9) \<and>
    map fst log = [sample_received] \<and>
    cn_out c = map (\<lambda>(q, p). writeResponse [''CSeq''] p) log"
proof -
  obtain c where c: "srv_runs (atomic_handlers [Set_Parameter \<mapsto> count_handler]) (\<lambda>_. [''CSeq'']) ([sample_conn], 0) ([c], 9)"
    "cn_phase c = Closed" "length (cn_out c) = 1"
    using sample_run by blast
  have "cn_phase sample_conn = Reading" "cn_out sample_conn = []" by (simp_all add: sample_conn_def new_conn_def)
  then obtain log qs where log: "cn_out c = map (\<lambda>(q, p). writeResponse [''CSeq''] p) log"
    "requests_of (cn_in sample_conn) = qs @ requests_of (cn_in c)"
    "filter (\<lambda>q. atomic_handlers [Set_Parameter \<mapsto> count_handler] (rq_Method q) \<noteq> None) qs = map fst log"
    using answers_stay_in_order [OF _ c(1), of 0] c(2) by auto
  have "length log = 1" using log(1) c(3) by simp
  then have "qs = [sample_received]" "map fst log = [sample_received]"
    using log(2,3) by (auto simp: sample_requests_of Cons_eq_append_conv split: if_splits)
  then show ?thesis using c(1) log(1) by (intro exI [of _ c] exI [of _ log]) simp
qed

text \<open>
  C24. Serving comes to an end: as long as the process is up, the goroutines can take only finitely many
  steps in any schedule, whatever the handlers do (a handler is a finite number of actions in every
  run, or blocks). When no goroutine can take a step any more, each connection is closed, and has been
  sent an answer for every readable request that has a handler, in order; or it waits
  inside a handler that blocks.
\<close>

theorem serving_terminates:
  shows "wfp (\<lambda>y x. srv_step handlers ord x (Ret ()) y) \<and>
    (\<forall>cs s cs' s' i.
      (\<forall>c\<in>set cs. cn_phase c = Reading) \<and> srv_runs handlers ord (cs, s) (cs', s') \<and>
      (\<nexists>r y. srv_step handlers ord (cs', s') r y) \<and> i < length cs \<longrightarrow>
      (\<exists>q. cn_phase (cs' ! i) = Handling q Block) \<or>
      (cn_phase (cs' ! i) = Closed \<and>
       (\<exists>log. cn_out (cs' ! i) = cn_out (cs ! i) @ map (\<lambda>(q, p). writeResponse (ord (rs_Headers p)) p) log \<and>
          map fst log = filter (\<lambda>q. handlers (rq_Method q) \<noteq> None) (requests_of (cn_in (cs ! i))))))"
proof (intro conjI allI impI)
  have "{(y, x). srv_step handlers ord x (Ret ()) y} \<subseteq> progress" by (auto intro: srv_step_progress)
  then show "wfp (\<lambda>y x. srv_step handlers ord x (Ret ()) y)"
    using wf_subset [OF wf_progress] by (simp add: wfp_def)
next
  fix cs s cs' s' i
  assume *: "(\<forall>c\<in>set cs. cn_phase c = Reading) \<and> srv_runs handlers ord (cs, s) (cs', s') \<and>
      (\<nexists>r y. srv_step handlers ord (cs', s') r y) \<and> i < length cs"
  then obtain log where "length cs' = length cs" "serves handlers ord (cs ! i) (cs' ! i) log"
    using serves_srv_runs [of handlers ord cs s cs' s' i] by blast
  with * srv_stops_only_when_done [of handlers ord cs' s' i]
  show "(\<exists>q. cn_phase (cs' ! i) = Handling q Block) \<or>
      (cn_phase (cs' ! i) = Closed \<and>
       (\<exists>log. cn_out (cs' ! i) = cn_out (cs ! i) @ map (\<lambda>(q, p). writeResponse (ord (rs_Headers p)) p) log \<and>
          map fst log = filter (\<lambda>q. handlers (rq_Method q) \<noteq> None) (requests_of (cn_in (cs ! i)))))"
    by (auto simp: serves_def handled_def [abs_def])
qed

theorem serving_terminates_witness:
  "\<exists>c log. srv_runs (atomic_handlers [Set_Parameter \<mapsto> count_handler]) (\<lambda>_. [''CSeq'']) ([sample_conn], 0) ([c], 9) \<and>
    cn_phase c = Closed \<and>
    (\<nexists>r y. srv_step (atomic_handlers [Set_Parameter \<mapsto> count_handler]) (\<lambda>_. [''CSeq'']) ([c], 9) r y) \<and>
    map fst log = [sample_received] \<and> cn_out c = map (\<lambda>(q, p). writeResponse [''CSeq''] p) log"
proof -
  let ?hs = "atomic_handlers [Set_Parameter \<mapsto> count_handler]" and ?ord = "\<lambda>_ :: string \<rightharpoonup> string. [''CSeq'']"
  obtain c where c: "srv_runs ?hs ?ord ([sample_conn], 0) ([c], 9)" "cn_phase c = Closed"
    using sample_run by blast
  have stuck: "\<nexists>r y. srv_step ?hs ?ord ([c], 9) r y"
    using c(2) by (auto elim!: srv_stepE conn_stepE)
  have "cn_phase sample_conn = Reading" "cn_out sample_conn = []" by (simp_all add: sample_conn_def new_conn_def)
  then obtain log where "cn_out c = map (\<lambda>(q, p). writeResponse [''CSeq''] p) log"
    "map fst log = filter (\<lambda>q. ?hs (rq_Method q) \<noteq> None) (requests_of (cn_in sample_conn))"
    using serving_terminates [of ?hs ?ord, THEN conjunct2, rule_format, of "[sample_conn]" 0 "[c]" 9 0] c stuck by auto
  moreover have "rq_Method sample_received = Set_Parameter" by (simp add: sample_received_def sample_request_def)
  ultimately show ?thesis using c stuck
    by (intro exI [of _ c] exI [of _ log]) (simp add: sample_requests_of)
qed

end
