(* ===== verification/Replication.thy ===== *)
theory Replication
  imports Store "HOL-Library.Sublist"
begin

text \<open>
  Several management nodes with a store each (\<^verbatim>\<open>cmd/mgmt/raft/store.go\<close>), kept alike by the consensus
  library. What the library promises is one log of committed entries, which every node is given in
  order; a node may lag behind, be brought up to date by a snapshot of another one, or start again
  from nothing. A save that the library reports as done has been committed and applied on the node
  that asked; one that it reports as failed may have been committed or not. Everything a node does
  itself is done by the operations of the store.
\<close>

section \<open>Clusters of stores\<close>

record replica =
  rp_store :: store
  rp_applied :: nat

record store_cluster =
  sc_log :: "command option list"
  sc_nodes :: "string \<rightharpoonup> replica"

datatype store_op = Save_Zone zone_config | Save_Speaker speaker_config | Delete_Zone string

fun run_store_op :: "raft_lib \<Rightarrow> store_op \<Rightarrow> (store, unit) proc" where
  "run_store_op rf (Save_Zone z) = SaveZoneConfig rf z"
| "run_store_op rf (Save_Speaker c) = SaveSpeakerConfig rf c"
| "run_store_op rf (Delete_Zone i) = DeleteZoneConfig rf i"

fun store_command :: "store_op \<Rightarrow> command" where
  "store_command (Save_Zone z) = \<lparr>cm_Op = ''set'', cm_Key = zc_ID z, cm_Value = no_entry\<lparr>ent_Zone := z\<rparr>\<rparr>"
| "store_command (Save_Speaker c) = \<lparr>cm_Op = ''set'', cm_Key = sc_ID c, cm_Value = no_entry\<lparr>ent_Speaker := c\<rparr>\<rparr>"
| "store_command (Delete_Zone i) = \<lparr>cm_Op = ''delete'', cm_Key = i, cm_Value = no_entry\<rparr>"

text \<open>
  The library's answer to a command on a node that has applied the first \<open>a\<close> entries: the outcome, the
  entries it hands to the node's state machine, and the log afterwards.
\<close>

definition raft_answers :: "command option list \<Rightarrow> nat \<Rightarrow> command \<Rightarrow> unit res \<times> command option list \<Rightarrow> command option list \<Rightarrow> bool" where
  "raft_answers log a c answer log' \<longleftrightarrow>
     answer = (Ret (), drop a log @ [Some c]) \<and> log' = log @ [Some c]
   \<or> (\<exists>e. answer = (Err e, []) \<and> (log' = log \<or> log' = log @ [Some c]))"

definition started_store :: "string \<Rightarrow> int \<Rightarrow> string \<Rightarrow> store" where
  "started_store i port dir = (NewDistributedStore i port dir)\<lparr>ds_raft := True\<rparr>"

inductive cluster_step :: "store_cluster \<Rightarrow> store_cluster \<Rightarrow> bool" where
  saves: "sc_nodes cl n = Some r \<Longrightarrow> run_store_op rf op (rp_store r) = (res, st') \<Longrightarrow>
    (if ra_Leading rf (ds_now (rp_store r))
     then raft_answers (sc_log cl) (rp_applied r) (store_command op)
       (ra_Apply rf (ds_now (rp_store r) + 1) (store_command op)) log'
     else log' = sc_log cl) \<Longrightarrow>
    cluster_step cl (cl\<lparr>sc_log := log', sc_nodes := (sc_nodes cl)(n \<mapsto>
      \<lparr>rp_store = st', rp_applied = (if res = Ret () then length log' else rp_applied r)\<rparr>)\<rparr>)"
| catches_up: "sc_nodes cl n = Some r \<Longrightarrow> rp_applied r < length (sc_log cl) \<Longrightarrow>
    commit [sc_log cl ! rp_applied r] (rp_store r) = (Ret (), st') \<Longrightarrow>
    cluster_step cl (cl\<lparr>sc_nodes := (sc_nodes cl)(n \<mapsto> \<lparr>rp_store = st', rp_applied = rp_applied r + 1\<rparr>)\<rparr>)"
| installs: "sc_nodes cl k = Some source \<Longrightarrow> range_order ks (ds_m (rp_store source)) \<Longrightarrow>
    Persist (Snapshot ks (rp_store source)) si = (Ret (), si') \<Longrightarrow> si_status si' = Closed_Sink \<Longrightarrow>
    sc_nodes cl n = Some r \<Longrightarrow> Restore (si_data si') (rp_store r) = (Ret (), st') \<Longrightarrow>
    cluster_step cl (cl\<lparr>sc_nodes := (sc_nodes cl)(n \<mapsto> \<lparr>rp_store = st', rp_applied = rp_applied source\<rparr>)\<rparr>)"
| starts: "cluster_step cl (cl\<lparr>sc_nodes := (sc_nodes cl)(n \<mapsto> \<lparr>rp_store = started_store n port dir, rp_applied = 0\<rparr>)\<rparr>)"

inductive cluster_run :: "store_cluster \<Rightarrow> store_cluster \<Rightarrow> bool" where
  run_refl: "cluster_run cl cl"
| run_step: "cluster_run cl cl' \<Longrightarrow> cluster_step cl' cl'' \<Longrightarrow> cluster_run cl cl''"

definition no_cluster :: store_cluster where
  "no_cluster = \<lparr>sc_log = [], sc_nodes = Map.empty\<rparr>"

section \<open>Replicas follow the log\<close>

definition follows_log :: "store_cluster \<Rightarrow> bool" where
  "follows_log cl \<longleftrightarrow>
     (\<forall>n r. sc_nodes cl n = Some r \<longrightarrow> rp_applied r \<le> length (sc_log cl) \<and> ds_raft (rp_store r)
       \<and> ds_m (rp_store r) = fold Apply (take (rp_applied r) (sc_log cl)) Map.empty)"

lemma follows_logD:
  "follows_log cl \<Longrightarrow> sc_nodes cl n = Some r \<Longrightarrow> rp_applied r \<le> length (sc_log cl) \<and> ds_raft (rp_store r)
     \<and> ds_m (rp_store r) = fold Apply (take (rp_applied r) (sc_log cl)) Map.empty"
  by (simp add: follows_log_def)

text \<open>All three operations ask whether this node leads, and then for their command.\<close>

lemma run_store_op_eq:
  assumes "ds_raft st"
  shows "run_store_op rf op st =
    (if \<not> ra_Leading rf (ds_now st) then (Err ''not leader'', st\<lparr>ds_now := ds_now st + 1\<rparr>)
     else case ra_Apply rf (ds_now st + 1) (store_command op) of
       (err, logs) \<Rightarrow> (err, st\<lparr>ds_now := ds_now st + 2, ds_m := fold Apply logs (ds_m st)\<rparr>))"
  using assms by (cases op) (simp_all add: save_defs split: prod.splits)

lemma follows_log_update:
  assumes "follows_log cl" and "prefix (sc_log cl) log'" and "rp_applied r \<le> length log'" and "ds_raft (rp_store r)"
    and "ds_m (rp_store r) = fold Apply (take (rp_applied r) log') Map.empty"
  shows "follows_log (cl\<lparr>sc_log := log', sc_nodes := (sc_nodes cl)(n \<mapsto> r)\<rparr>)"
  using assms by (auto simp: follows_log_def prefix_def) (meson trans_le_add1)

lemma cluster_step_follows:
  assumes "cluster_step cl cl'" and "follows_log cl"
  shows "follows_log cl' \<and> prefix (sc_log cl) (sc_log cl')"
  using assms
proof (induction rule: cluster_step.induct)
  case (saves cl n r rf op res st' log')
  note inv = follows_logD [OF saves.prems saves.hyps(1)]
  have log: "prefix (sc_log cl) log'" using saves.hyps(3) by (auto simp: raft_answers_def prefix_def split: if_splits)
  have "ds_raft st'" "(if res = Ret () then length log' else rp_applied r) \<le> length log'"
    using saves.hyps(2) inv log by (auto simp: run_store_op_eq prefix_def split: if_splits prod.splits)
  moreover have "ds_m st' = fold Apply (take (if res = Ret () then length log' else rp_applied r) log') Map.empty"
  proof (cases "ra_Leading rf (ds_now (rp_store r)) \<and> res = Ret ()")
    case True
    then have "log' = sc_log cl @ [Some (store_command op)]"
      "ds_m st' = fold Apply (drop (rp_applied r) (sc_log cl) @ [Some (store_command op)]) (ds_m (rp_store r))"
      using saves.hyps(2,3) inv by (auto simp: run_store_op_eq raft_answers_def)
    moreover have "fold Apply (drop (rp_applied r) (sc_log cl)) (ds_m (rp_store r)) = fold Apply (sc_log cl) Map.empty"
      using inv by (metis append_take_drop_id fold_append comp_apply)
    ultimately show ?thesis using True by simp
  next
    case False
    then have "ds_m st' = ds_m (rp_store r)" "res \<noteq> Ret ()"
      using saves.hyps(2,3) inv by (auto simp: run_store_op_eq raft_answers_def split: if_splits)
    then show ?thesis using inv log by (auto simp: prefix_def)
  qed
  ultimately show ?case using follows_log_update [OF saves.prems log] log by simp
next
  case (catches_up cl n r st')
  note inv = follows_logD [OF catches_up.prems catches_up.hyps(1)]
  have "follows_log (cl\<lparr>sc_log := sc_log cl, sc_nodes := (sc_nodes cl)(n \<mapsto> \<lparr>rp_store = st', rp_applied = rp_applied r + 1\<rparr>)\<rparr>)"
    using inv catches_up.hyps(2,3)
    by (intro follows_log_update [OF catches_up.prems]) (auto simp: commit_def take_Suc_conv_app_nth)
  then show ?case by simp
next
  case (installs cl k source ks si si' n r st')
  note inv = follows_logD [OF installs.prems installs.hyps(1)]
  have "Snapshot ks (rp_store source) = ds_m (rp_store source)"
    using installs.hyps(2) by (simp add: Snapshot_def go_simps)
  then have "ds_m st' = ds_m (rp_store source)" "ds_raft st' = ds_raft (rp_store r)"
    using installs.hyps(3,4,6)
    by (auto simp: Persist_def seqP_def bindP_def sink_Write_def sink_Close_def sink_Cancel_def Restore_def
        split: res.splits if_splits option.splits)
  moreover have "ds_raft (rp_store r)" using follows_logD [OF installs.prems installs.hyps(5)] by simp
  ultimately have "follows_log (cl\<lparr>sc_log := sc_log cl,
      sc_nodes := (sc_nodes cl)(n \<mapsto> \<lparr>rp_store = st', rp_applied = rp_applied source\<rparr>)\<rparr>)"
    using inv by (intro follows_log_update [OF installs.prems]) auto
  then show ?case by simp
next
  case (starts cl n port dir)
  have "follows_log (cl\<lparr>sc_log := sc_log cl,
      sc_nodes := (sc_nodes cl)(n \<mapsto> \<lparr>rp_store = started_store n port dir, rp_applied = 0\<rparr>)\<rparr>)"
    by (intro follows_log_update [OF starts]) (simp_all add: started_store_def NewDistributedStore_def)
  then show ?case by simp
qed

lemma cluster_run_follows: "cluster_run cl cl' \<Longrightarrow> follows_log cl \<Longrightarrow> follows_log cl' \<and> prefix (sc_log cl) (sc_log cl')"
  by (induction rule: cluster_run.induct) (auto dest: cluster_step_follows prefix_order.trans)

lemma no_cluster_follows: "follows_log no_cluster"
  by (simp add: follows_log_def no_cluster_def)

text \<open>Whatever a node has applied beyond an entry, the key of that entry reads as it was written.\<close>

lemma applied_entry_is_read:
  assumes "entry_writes c = Some (k, v)" and "length log < a"
    and "\<And>c. c \<in> set rest \<Longrightarrow> map_option fst (entry_writes c) \<noteq> Some k"
  shows "fold Apply (take a (log @ c # rest)) m k = v"
proof -
  obtain i where a: "a = length log + Suc i" using assms(2) by (metis less_imp_Suc_add add_Suc_right)
  have "\<not> config.writes_key k c'" if "c' \<in> set (take i rest)" for c'
    using assms(3) [OF in_set_takeD [OF that]] by (auto simp: config.writes_key_def)
  then have "list_all (\<lambda>c'. \<not> config.writes_key k c') (take i rest)" by (simp add: list_all_iff)
  from config.lookup_last [OF assms(1) this, of log m] show ?thesis by (simp add: a)
qed

section \<open>Properties\<close>

text \<open>
  C5. The stores are replicas of one log: in every run of a cluster, with nodes that save, fail to
  save, lag behind, install snapshots, start again and join, the configuration of a node is what the
  entries it has applied make of the empty configuration, so two nodes that have applied as much
  hold the same configuration, and a node that has applied all holds that of the whole log. The log
  only grows.
\<close>

theorem replicas_follow_the_log:
  assumes "cluster_run no_cluster cl" and "cluster_run cl cl'" and "sc_nodes cl' n = Some r"
  shows "ds_m (rp_store r) = fold Apply (take (rp_applied r) (sc_log cl')) Map.empty
    \<and> prefix (sc_log cl) (sc_log cl')
    \<and> (\<forall>n' r'. sc_nodes cl' n' = Some r' \<and> rp_applied r' = rp_applied r \<longrightarrow> ds_m (rp_store r') = ds_m (rp_store r))"
proof -
  have "follows_log cl" using cluster_run_follows [OF assms(1) no_cluster_follows] by simp
  then have "follows_log cl'" "prefix (sc_log cl) (sc_log cl')" using cluster_run_follows [OF assms(2)] by simp_all
  then show ?thesis using assms(3) by (auto simp: follows_log_def)
qed

text \<open>
  C14. A zone that was saved reaches every node: once the leader's save has returned, every node that
  has applied as much of the log as there was then reads the zone, with whatever order its map is
  visited in, as long as no later entry is about that key.
\<close>

theorem saved_zone_reaches_every_node:
  assumes "cluster_run no_cluster cl" and "sc_nodes cl n = Some r"
    and "SaveZoneConfig rf z (rp_store r) = (Ret (), st')" and "zc_ID z \<noteq> []"
    and "raft_answers (sc_log cl) (rp_applied r) (store_command (Save_Zone z))
      (ra_Apply rf (ds_now (rp_store r) + 1) (store_command (Save_Zone z))) log'"
    and "cl1 = cl\<lparr>sc_log := log', sc_nodes := (sc_nodes cl)(n \<mapsto> \<lparr>rp_store = st', rp_applied = length log'\<rparr>)\<rparr>"
    and "cluster_run cl1 cl2" and "sc_nodes cl2 n' = Some r'" and "length log' \<le> rp_applied r'"
    and "\<And>c. c \<in> set (drop (length log') (sc_log cl2)) \<Longrightarrow> map_option fst (entry_writes c) \<noteq> Some (zc_ID z)"
    and "range_order (order (ds_m (rp_store r'))) (ds_m (rp_store r'))"
  shows "\<exists>zs. GetZoneConfigs order (rp_store r') = (Ret zs, rp_store r') \<and> z \<in> set zs"
proof -
  have inv: "follows_log cl" using cluster_run_follows [OF assms(1) no_cluster_follows] by simp
  have leads: "ra_Leading rf (ds_now (rp_store r))"
    using assms(3) follows_logD [OF inv assms(2)] run_store_op_eq [of "rp_store r" rf "Save_Zone z"] by (auto split: if_splits)
  then have step: "cluster_step cl cl1"
    using cluster_step.saves [OF assms(2), of rf "Save_Zone z" "Ret ()" st' log'] assms(3,5,6) by simp
  have log': "log' = sc_log cl @ [Some (store_command (Save_Zone z))]"
    using assms(3,5) leads follows_logD [OF inv assms(2)] run_store_op_eq [of "rp_store r" rf "Save_Zone z"]
    by (auto simp: raft_answers_def)
  have "follows_log cl2" "prefix log' (sc_log cl2)"
    using cluster_run_follows [OF assms(7)] cluster_step_follows [OF step inv] assms(6) by simp_all
  then obtain rest where log2: "sc_log cl2 = log' @ rest"
    and m: "ds_m (rp_store r') = fold Apply (take (rp_applied r') (sc_log cl2)) Map.empty"
    using follows_logD [OF _ assms(8)] by (auto simp: prefix_def)
  have "entry_writes (Some (store_command (Save_Zone z))) = Some (zc_ID z, Some (no_entry\<lparr>ent_Zone := z\<rparr>))"
    by (simp add: entry_writes_def Unmarshal_command_def)
  from applied_entry_is_read [OF this, of "sc_log cl" "rp_applied r'" rest Map.empty]
  have "ds_m (rp_store r') (zc_ID z) = Some (no_entry\<lparr>ent_Zone := z\<rparr>)"
    using assms(9,10) by (simp add: m log2 log')
  then have "z \<in> set (zone_configs (ds_m (rp_store r')) (order (ds_m (rp_store r'))) [])"
    using set_zone_configs [OF assms(11)] assms(4) by (force simp: ran_def)
  then show ?thesis by (simp add: GetZoneConfigs_def)
qed

text \<open>The witnesses: one node saves a zone, a second one joins and catches up.\<close>

definition two_nodes :: "zone_config \<Rightarrow> store \<Rightarrow> store_cluster" where
  "two_nodes z st =
     \<lparr>sc_log = [Some (store_command (Save_Zone z))],
      sc_nodes = [''m1'' \<mapsto> \<lparr>rp_store = st, rp_applied = 1\<rparr>,
        ''m2'' \<mapsto> \<lparr>rp_store = (started_store ''m2'' 4000 ''data'')\<lparr>ds_m := [zc_ID z \<mapsto> no_entry\<lparr>ent_Zone := z\<rparr>]\<rparr>, rp_applied = 1\<rparr>]\<rparr>"

definition one_node :: store_cluster where
  "one_node = no_cluster\<lparr>sc_nodes := [''m1'' \<mapsto> \<lparr>rp_store = started_store ''m1'' 4000 ''data'', rp_applied = 0\<rparr>]\<rparr>"

lemma one_node_run: "cluster_run no_cluster one_node"
  using run_step [OF run_refl cluster_step.starts [of no_cluster "''m1''" 4000 "''data''"]]
  by (simp add: one_node_def no_cluster_def)

lemma saved_then_joined:
  fixes z st
  defines "cl \<equiv> one_node\<lparr>sc_log := [Some (store_command (Save_Zone z))], sc_nodes := [''m1'' \<mapsto> \<lparr>rp_store = st, rp_applied = 1\<rparr>]\<rparr>"
  shows "cluster_run cl (two_nodes z st)"
proof -
  let ?new = "\<lparr>rp_store = started_store ''m2'' 4000 ''data'', rp_applied = 0\<rparr>"
  let ?st = "(started_store ''m2'' 4000 ''data'')\<lparr>ds_m := [zc_ID z \<mapsto> no_entry\<lparr>ent_Zone := z\<rparr>]\<rparr>"
  let ?cl = "cl\<lparr>sc_nodes := (sc_nodes cl)(''m2'' \<mapsto> ?new)\<rparr>"
  have "cluster_run cl ?cl" by (rule run_step [OF run_refl cluster_step.starts])
  moreover have "cluster_step ?cl (?cl\<lparr>sc_nodes := (sc_nodes ?cl)(''m2'' \<mapsto> \<lparr>rp_store = ?st, rp_applied = rp_applied ?new + 1\<rparr>)\<rparr>)"
  proof (rule cluster_step.catches_up)
    show "commit [sc_log ?cl ! rp_applied ?new] (rp_store ?new) = (Ret (), ?st)"
      by (simp add: cl_def commit_def started_store_def NewDistributedStore_def Apply_def Unmarshal_command_def applySet_def)
  qed (simp_all add: cl_def)
  then have "cluster_step ?cl (two_nodes z st)" by (simp add: cl_def two_nodes_def one_node_def no_cluster_def)
  ultimately show ?thesis by (rule run_step)
qed

lemma one_node_saves:
  "SaveZoneConfig sample_raft (sample_zone ''17'' [''den'']) (started_store ''m1'' 4000 ''data'') =
     (Ret (), (started_store ''m1'' 4000 ''data'')\<lparr>ds_now := 2,
       ds_m := [''17'' \<mapsto> no_entry\<lparr>ent_Zone := sample_zone ''17'' [''den'']\<rparr>]\<rparr>)"
  by (simp add: save_defs sample_raft_def Apply_def Unmarshal_command_def applySet_def NewDistributedStore_def
      sample_zone_def started_store_def)

lemma run_trans: "cluster_run cl' cl'' \<Longrightarrow> cluster_run cl cl' \<Longrightarrow> cluster_run cl cl''"
  by (induction rule: cluster_run.induct) (auto intro: run_step)

lemma two_nodes_run:
  fixes z st
  defines "z \<equiv> sample_zone ''17'' [''den'']"
    and "st \<equiv> (started_store ''m1'' 4000 ''data'')\<lparr>ds_now := 2,
      ds_m := [''17'' \<mapsto> no_entry\<lparr>ent_Zone := sample_zone ''17'' [''den'']\<rparr>]\<rparr>"
  shows "cluster_run one_node (two_nodes z st)"
proof -
  let ?r = "\<lparr>rp_store = started_store ''m1'' 4000 ''data'', rp_applied = 0\<rparr>"
  let ?log = "[Some (store_command (Save_Zone z))]"
  have "cluster_step one_node (one_node\<lparr>sc_log := ?log, sc_nodes := (sc_nodes one_node)(''m1'' \<mapsto>
      \<lparr>rp_store = st, rp_applied = (if Ret () = Ret () then length ?log else rp_applied ?r)\<rparr>)\<rparr>)"
  proof (rule cluster_step.saves)
    show "run_store_op sample_raft (Save_Zone z) (rp_store ?r) = (Ret (), st)" by (simp add: z_def st_def one_node_saves)
    show "if ra_Leading sample_raft (ds_now (rp_store ?r))
      then raft_answers (sc_log one_node) (rp_applied ?r) (store_command (Save_Zone z))
        (ra_Apply sample_raft (ds_now (rp_store ?r) + 1) (store_command (Save_Zone z))) ?log
      else ?log = sc_log one_node"
      by (simp add: raft_answers_def sample_raft_def one_node_def no_cluster_def)
  qed (simp add: one_node_def)
  then have "cluster_step one_node (one_node\<lparr>sc_log := ?log, sc_nodes := [''m1'' \<mapsto> \<lparr>rp_store = st, rp_applied = 1\<rparr>]\<rparr>)"
    by (simp add: one_node_def)
  then show ?thesis using run_trans [OF saved_then_joined] run_step [OF run_refl] by blast
qed

theorem replicas_follow_the_log_witness:
  "let z = sample_zone ''17'' [''den''];
       st = (started_store ''m1'' 4000 ''data'')\<lparr>ds_now := 2, ds_m := [''17'' \<mapsto> no_entry\<lparr>ent_Zone := z\<rparr>]\<rparr>
   in ds_m st = fold Apply (take 1 (sc_log (two_nodes z st))) Map.empty \<and> prefix (sc_log one_node) (sc_log (two_nodes z st))"
  using replicas_follow_the_log [OF one_node_run two_nodes_run, of "''m1''"] by (simp add: two_nodes_def Let_def)

theorem saved_zone_reaches_every_node_witness:
  "\<exists>zs. GetZoneConfigs (\<lambda>_. [''17'']) ((started_store ''m2'' 4000 ''data'')\<lparr>ds_m :=
       [''17'' \<mapsto> no_entry\<lparr>ent_Zone := sample_zone ''17'' [''den'']\<rparr>]\<rparr>) =
     (Ret zs, (started_store ''m2'' 4000 ''data'')\<lparr>ds_m :=
       [''17'' \<mapsto> no_entry\<lparr>ent_Zone := sample_zone ''17'' [''den'']\<rparr>]\<rparr>)
     \<and> sample_zone ''17'' [''den''] \<in> set zs"
proof -
  let ?z = "sample_zone ''17'' [''den'']"
  have id: "zc_ID ?z = ''17''" by (simp add: sample_zone_def)
  have answer: "raft_answers (sc_log one_node) 0 c (ra_Apply sample_raft t c) [Some c]" for t c
    by (simp add: raft_answers_def sample_raft_def one_node_def no_cluster_def)
  let ?st = "(started_store ''m1'' 4000 ''data'')\<lparr>ds_now := 2, ds_m := [''17'' \<mapsto> no_entry\<lparr>ent_Zone := ?z\<rparr>]\<rparr>"
  have run: "cluster_run (one_node\<lparr>sc_log := [Some (store_command (Save_Zone ?z))],
      sc_nodes := (sc_nodes one_node)(''m1'' \<mapsto> \<lparr>rp_store = ?st, rp_applied = length [Some (store_command (Save_Zone ?z))]\<rparr>)\<rparr>)
    (two_nodes ?z ?st)"
    using saved_then_joined [of ?st ?z] by (simp add: one_node_def)
  from saved_zone_reaches_every_node [OF one_node_run _ _ _ _ refl run,
      of "\<lparr>rp_store = started_store ''m1'' 4000 ''data'', rp_applied = 0\<rparr>" sample_raft ?z "''m2''"
      "\<lparr>rp_store = (started_store ''m2'' 4000 ''data'')\<lparr>ds_m := [''17'' \<mapsto> no_entry\<lparr>ent_Zone := ?z\<rparr>]\<rparr>, rp_applied = 1\<rparr>"
      "\<lambda>_. [''17'']"]
  show ?thesis
    using answer one_node_saves by (simp add: id two_nodes_def one_node_def range_order_def del: store_command.simps)
qed

end
