(* ===== verification/Relay.thy ===== *)
theory Relay
  imports Airplay "HOL-Library.Multiset"
begin

text \<open>
  What a leading speaker forwards, over the wire and into the players of its zone: the goroutines of
  the forwarding player (\<^verbatim>\<open>player/forwarding/forwardingPlayer.go\<close>) send their requests with the client
  of \<^verbatim>\<open>rtsp/client.go\<close> to the connection loop of \<^verbatim>\<open>rtsp/server.go\<close>, which runs the handlers of
  \<^verbatim>\<open>raop/airplay.go\<close> on another speaker.
\<close>

section \<open>A volume as text\<close>

text \<open>
  A volume travels as a decimal number with six places. \<open>relayed\<close> is the volume a speaker sets after it
  has read that number: \<^verbatim>\<open>ParseFloat\<close> with a bit size of 32 reads the nearest \<^verbatim>\<open>float32\<close>, which is
  relied on for numbers below 1000 (\<open>parses_decimals\<close>).
\<close>

definition decimal :: "int \<Rightarrow> string" where
  "decimal n = Itoa (n div 1000000) @ ''.'' @ pad6 (Itoa (n mod 1000000))"

definition parses_decimals :: "host \<Rightarrow> bool" where
  "parses_decimals h \<longleftrightarrow>
     (\<forall>n. 0 \<le> n \<and> n < 1000000000 \<longrightarrow> ho_parse_float h (decimal n) = Ret (Fin (rnd32 (of_int n / 1000000)))
       \<and> ho_parse_float h (''-'' @ decimal n) = Ret (Fin (rnd32 (- (of_int n / 1000000)))))"

definition six_places :: "rat \<Rightarrow> rat" where
  "six_places x = (if x < 0 then - 1 else 1) * of_int (round_even (\<bar>x\<bar> * 1000000)) / 1000000"

lemma format_f_decimal:
  "format_f (Fin x) = (if x < 0 then ''-'' else []) @ decimal (round_even (\<bar>x\<bar> * 1000000))"
  by (simp add: decimal_def Let_def)

lemma round_even_nonneg: "0 \<le> x \<Longrightarrow> 0 \<le> round_even x"
  using round_even_mono [of 0 x] round_even_of_int [of 0] by simp

lemma parse_format:
  assumes "parses_decimals h" and "\<bar>x\<bar> \<le> 500"
  shows "ho_parse_float h (format_f (Fin x)) = Ret (Fin (rnd32 (six_places x)))"
proof -
  define n where "n = round_even (\<bar>x\<bar> * 1000000)"
  have "0 \<le> n" unfolding n_def by (rule round_even_nonneg) simp
  moreover have "n \<le> round_even (of_int 500000000)" unfolding n_def using assms(2) by (intro round_even_mono) simp
  then have "n < 1000000000" by (simp only: round_even_of_int)
  ultimately show ?thesis using assms(1)
    by (simp add: parses_decimals_def format_f_decimal six_places_def del: format_f.simps flip: n_def)
qed

lemma six_places_error: "\<bar>six_places x - x\<bar> \<le> 1 / 2000000"
  using round_even_bounds [of "\<bar>x\<bar> * 1000000"] by (auto simp: six_places_def abs_if)

definition relayed :: "rat \<Rightarrow> float64" where
  "relayed v = (case prepareVolume (Fin v) of Fin x \<Rightarrow> normalizeVolume (Fin (rnd32 (six_places x))) | y \<Rightarrow> y)"

text \<open>Mute and full volume arrive as they were, all others almost so.\<close>

lemma relayed_ends: "relayed 0 = Fin 0" "relayed 1 = Fin 1"
proof -
  have "six_places (- 144) = - 144" "six_places 0 = 0"
    using round_even_of_int [of 144000000] round_even_of_int [of 0] by (simp_all add: six_places_def)
  moreover note rnd32_mute
  ultimately show "relayed 0 = Fin 0" "relayed 1 = Fin 1"
    by (simp_all add: relayed_def prepareVolume_def normalizeVolume_def)
qed

lemma rnd_near: "\<bar>x\<bar> \<le> 32 \<Longrightarrow> \<bar>rnd x - x\<bar> \<le> 1 / 281474976710656"
  using rnd_error [of x] by simp

lemma relayed_close:
  assumes "0 \<le> v" and "v \<le> 1"
  shows "\<exists>v'. relayed v = Fin v' \<and> \<bar>v' - v\<bar> \<le> 1 / 20000000"
proof (cases "v = 0 \<or> v = 1")
  case True
  then show ?thesis using relayed_ends by auto
next
  case False
  define x where "x = rnd (rnd (v * 30) - 30)"
  define y where "y = rnd32 (six_places x)"
  have a: "\<bar>rnd (v * 30) - v * 30\<bar> \<le> 1 / 281474976710656" using assms by (intro rnd_near) simp
  then have "\<bar>rnd (v * 30) - 30\<bar> \<le> 32" using assms by linarith
  note x = rnd_near [OF this, folded x_def]
  have dec: "\<bar>six_places x - x\<bar> \<le> 1 / 2000000" by (rule six_places_error)
  then have "\<bar>six_places x\<bar> < 32" using a x assms by linarith
  note y = rnd32_error [OF this, folded y_def]
  from a x dec y have near: "\<bar>y + 30 - v * 30\<bar> \<le> 1 / 2000000 + 1 / 1048576 + 2 / 281474976710656" by linarith
  have rel: "relayed v = normalizeVolume (Fin y)"
    using False by (simp add: relayed_def prepareVolume_def fsub_def x_def y_def)
  show ?thesis
  proof (cases "y = 0")
    case True
    with near have "\<bar>1 - v\<bar> \<le> 1 / 20000000" by linarith
    with True show ?thesis unfolding rel by (simp add: normalizeVolume_def)
  next
    case False
    from near assms have "\<bar>y + 30\<bar> \<le> 32" by linarith
    note z = rnd_near [OF this]
    then have "\<bar>rnd (y + 30) / 30\<bar> \<le> 32" using \<open>\<bar>y + 30\<bar> \<le> 32\<close> by linarith
    note w = rnd_near [OF this]
    have "y \<noteq> - 144" using near assms by (auto simp: abs_le_iff)
    with False have "relayed v = Fin (rnd (rnd (y + 30) / 30))" unfolding rel by (simp add: normalizeVolume_def)
    moreover have "\<bar>rnd (rnd (y + 30) / 30) - v\<bar> \<le> 1 / 20000000" using near z w by linarith
    ultimately show ?thesis by blast
  qed
qed

text \<open>The number is found in the body of the request.\<close>

lemma volume_text:
  assumes "CHR ''v'' \<notin> set s" and "TrimSpace s = s"
  shows "contains ''volume'' (''volume: '' @ s)" "split_str ''volume:'' (''volume: '' @ s) = [[], SP # s]"
    "TrimSpace (SP # s) = s"
proof -
  have "index_of ''volume:'' (SP # s) = None"
    using assms(1) by (induction s) auto
  then show "split_str ''volume:'' (''volume: '' @ s) = [[], SP # s]"
    by (simp add: split_str.simps [of "''volume:''" "''volume: '' @ s", simplified] split_str.simps [of "''volume:''" "SP # s"])
qed (simp_all add: contains_def wire_simps assms(2))

lemma pad6_chars: "c \<in> set (pad6 s) \<Longrightarrow> c = CHR ''0'' \<or> c \<in> set s"
  by (auto simp: pad6_def)

lemma format_f_chars: "c \<in> set (format_f (Fin x)) \<Longrightarrow> is_digit c \<or> c = CHR ''-'' \<or> c = CHR ''.''"
  using Itoa_chars pad6_chars by (fastforce simp: Let_def is_digit_def decimal_digits_def split: if_splits)

lemma TrimSpace_format_f: "TrimSpace (format_f (Fin x)) = format_f (Fin x)"
  using format_f_chars by (intro TrimSpace_id space_runes_no_digit) blast

section \<open>What arrives\<close>

text \<open>What a player shows once a change has arrived, and the changes that can be sent.\<close>

fun arrived :: "task \<Rightarrow> fplayer \<Rightarrow> bool" where
  "arrived (ForwardTrack album artist title) p \<longleftrightarrow>
     tr_Album (fp_currentTrack p) = album \<and> tr_Artist (fp_currentTrack p) = artist \<and> tr_Title (fp_currentTrack p) = title"
| "arrived (ForwardArt artwork) p \<longleftrightarrow> tr_Artwork (fp_currentTrack p) = artwork"
| "arrived (ForwardVolume (Fin v)) p \<longleftrightarrow>
     (\<exists>v'. fp_volume p = Fin v' \<and> \<bar>v' - v\<bar> \<le> 1 / 20000000 \<and> (v = 0 \<or> v = 1 \<longrightarrow> v' = v))"
| "arrived _ p \<longleftrightarrow> False"

fun sendable :: "string list \<Rightarrow> task \<Rightarrow> bool" where
  "sendable dord (ForwardTrack album artist title) \<longleftrightarrow>
     range_order dord [''daap.songalbum'' \<mapsto> DString album, ''dmap.itemname'' \<mapsto> DString title,
       ''daap.songartist'' \<mapsto> DString artist]
     \<and> length album < 2 ^ 32 \<and> length artist < 2 ^ 32 \<and> length title < 2 ^ 32"
| "sendable dord (ForwardArt artwork) \<longleftrightarrow> True"
| "sendable dord (ForwardVolume (Fin v)) \<longleftrightarrow> 0 \<le> v \<and> v \<le> 1"
| "sendable dord _ \<longleftrightarrow> False"

lemma prepareVolume_Fin:
  assumes "0 \<le> v" and "v \<le> 1"
  shows "\<exists>x. prepareVolume (Fin v) = Fin x \<and> \<bar>x\<bar> \<le> 500"
proof -
  have a: "\<bar>rnd (v * 30) - v * 30\<bar> \<le> 1 / 281474976710656" using assms by (intro rnd_near) simp
  then have "\<bar>rnd (v * 30) - 30\<bar> \<le> 32" using assms by linarith
  from rnd_near [OF this] this have "\<bar>rnd (rnd (v * 30) - 30)\<bar> \<le> 500" by linarith
  then show ?thesis by (simp add: prepareVolume_def fsub_def)
qed

lemma volume_arrives:
  assumes "parses_decimals h" and "0 \<le> v" and "v \<le> 1" and "rq_Headers req ''Content-Type'' = Some ''text/parameters''"
    and "rq_Body req = ''volume: '' @ format_f (prepareVolume (Fin v))" and "rq_Headers req ''X-BCG-Muted'' = None"
    and "fw_player (ap_player a) = Some p"
  shows "\<exists>a' p'. handlSetParameter h forwarding_player_ops req resp la ra a = (Ret (resp\<lparr>rs_Status := Ok\<rparr>), a')
    \<and> fw_player (ap_player a') = Some p' \<and> arrived (ForwardVolume (Fin v)) p'"
proof -
  obtain x where x: "prepareVolume (Fin v) = Fin x" and small: "\<bar>x\<bar> \<le> 500" using prepareVolume_Fin [OF assms(2,3)] by blast
  let ?s = "format_f (Fin x)"
  have "CHR ''v'' \<notin> set ?s" using format_f_chars by (auto simp: is_digit_def decimal_digits_def simp del: format_f.simps)
  note body = volume_text [OF this TrimSpace_format_f]
  have parse: "ho_parse_float h (TrimSpace (SP # ?s)) = Ret (Fin (rnd32 (six_places x)))"
    unfolding body(3) by (rule parse_format [OF assms(1) small])
  obtain p1 where p1: "pl_SetVolume forwarding_player_ops (normalizeVolume (Fin (rnd32 (six_places x)))) (ap_player a) = (Ret (), p1)"
    "handlSetParameter h forwarding_player_ops req resp la ra a = (Ret (resp\<lparr>rs_Status := Ok\<rparr>), a\<lparr>ap_player := p1\<rparr>)"
    using forwarding_player.volume_request [OF _ assms(4) _ _ parse assms(6), of a "[]" "[]" resp la ra] assms(5,7) body x
    by auto
  have rel: "normalizeVolume (Fin (rnd32 (six_places x))) = relayed v" by (simp add: relayed_def x)
  from relayed_close [OF assms(2,3)] obtain v' where v': "relayed v = Fin v'" "\<bar>v' - v\<bar> \<le> 1 / 20000000" by blast
  have "v = 0 \<or> v = 1 \<longrightarrow> v' = v" using v'(1) relayed_ends by auto
  moreover have "fw_player p1 = Some (p\<lparr>fp_volume := Fin v'\<rparr>)"
    using p1(1) assms(7) unfolding rel v'(1) by (auto simp: forwarding_player_ops_def fplayer_op_defs)
  ultimately show ?thesis using p1(2) v'(2)
    by (intro exI [of _ "a\<lparr>ap_player := p1\<rparr>"] exI [of _ "p\<lparr>fp_volume := Fin v'\<rparr>"]) simp
qed

text \<open>The handler of another speaker does with the request what its sender meant.\<close>

lemma parameter_arrives:
  assumes "task_request net dord t localAddress = Ret sent" and "sendable dord t" and "parses_decimals h"
    and "rq_Body req = rq_Body sent" and "rq_Headers req ''Content-Type'' = rq_Headers sent ''Content-Type''"
    and "rq_Headers req ''X-BCG-Muted'' = None" and p: "fw_player (ap_player a) = Some p"
  shows "\<exists>a' p'. handlSetParameter h forwarding_player_ops req resp la ra a = (Ret (resp\<lparr>rs_Status := Ok\<rparr>), a')
    \<and> fw_player (ap_player a') = Some p' \<and> arrived t p'"
proof (cases t)
  case (ForwardVolume x)
  with assms(2) obtain v where v: "x = Fin v" "0 \<le> v" "v \<le> 1" by (cases x) auto
  with assms(1,4,5) ForwardVolume have "rq_Headers req ''Content-Type'' = Some ''text/parameters''"
    "rq_Body req = ''volume: '' @ format_f (prepareVolume (Fin v))"
    by (auto simp: parameter_request_def)
  from volume_arrives [OF assms(3) v(2,3) this assms(6) p] show ?thesis unfolding ForwardVolume v(1) .
next
  case (ForwardTrack album artist title)
  then obtain body m where track: "task_request net dord t localAddress =
      Ret (parameter_request net localAddress ''application/x-dmap-tagged'' body)" "parseDaap body = Ret m"
    "daap_string m ''daap.songalbum'' = Ret album" "daap_string m ''daap.songartist'' = Ret artist"
    "daap_string m ''dmap.itemname'' = Ret title"
    using track_body [of dord album title artist net localAddress] assms(2) by auto
  then have body: "parseDaap (rq_Body req) = Ret m"
    "rq_Headers req ''Content-Type'' = Some ''application/x-dmap-tagged''"
    using assms(1,4,5) by (auto simp: parameter_request_def)
  from forwarding_player.track_request [OF _ body(2,1) track(3-5), of a h resp la ra] p ForwardTrack
  show ?thesis by (auto simp: forwarding_player_ops_def fplayer_op_defs)
next
  case (ForwardArt artwork)
  with assms(1,4,5) have "rq_Headers req ''Content-Type'' = Some ''image/jpeg''" "rq_Body req = artwork"
    by (auto simp: parameter_request_def)
  with p ForwardArt show ?thesis
    by (simp add: handlSetParameter_def get_def Let_def bindP_def on_player_def forwarding_player_ops_def fplayer_op_defs)
qed (use assms(2) in simp_all)

section \<open>Over the wire\<close>

text \<open>
  The other speakers, by address and port, and what they meet: their host, the order in which they
  visit the headers of a message and their own sessions. A request goes over a new connection, as in
  \<^verbatim>\<open>NewClient\<close> and \<^verbatim>\<open>Send\<close>, to the server there.
\<close>

record relay_env =
  rl_host :: "string \<Rightarrow> int \<Rightarrow> host"
  rl_headers :: "(string \<rightharpoonup> string) \<Rightarrow> string list"
  rl_sessions :: "string list"

type_synonym hall = "string \<times> int \<rightharpoonup> fworld airplay"

definition relay_handlers :: "relay_env \<Rightarrow> string \<Rightarrow> int \<Rightarrow> (rtsp_method \<rightharpoonup> fworld airplay handler)" where
  "relay_handlers rl ip port =
     sv_handlers (airplay_handlers (rl_host rl ip port) (rl_sessions rl) forwarding_player_ops port)"

definition relay_send :: "relay_env \<Rightarrow> string \<Rightarrow> string \<Rightarrow> int \<Rightarrow> request \<Rightarrow> (hall, response) proc" where
  "relay_send rl localAddress ip port req hall =
     (case hall (ip, port) of
        None \<Rightarrow> (Err ''connection refused'', hall)
      | Some a \<Rightarrow>
          (case Send (rl_headers rl) (server_peer (relay_handlers rl ip port) (rl_headers rl) ip localAddress) req (fresh_client, a) of
             (r, (c, a')) \<Rightarrow> (r, hall((ip, port) \<mapsto> a'))))"

fun deliver :: "relay_env \<Rightarrow> string \<Rightarrow> out_msg \<Rightarrow> (hall, unit) proc" where
  "deliver rl localAddress (Control ip port req) = bindP (relay_send rl localAddress ip port req) (\<lambda>_. retP ())"
| "deliver rl localAddress (Data ip port pkt) = retP ()"

text \<open>The network of the forwarding player whose other end these speakers are.\<close>

definition wired :: "relay_env \<Rightarrow> string \<Rightarrow> hall \<Rightarrow> net \<Rightarrow> net" where
  "wired rl localAddress hall net =
     net\<lparr>nt_connect := \<lambda>ip port. if hall (ip, port) = None then None else Some localAddress,
       nt_send := \<lambda>ip port req. fst (relay_send rl localAddress ip port req hall)\<rparr>"

lemma task_request_form:
  assumes "task_request net dord t localAddress = Ret req"
  obtains ct body where "req = parameter_request net localAddress ct body"
    "ct \<in> {''text/parameters'', ''application/x-dmap-tagged'', ''image/jpeg''}"
  using assms by (cases t) (auto simp: res_bind_Ret_iff)

lemma wire_token_simps [simp]:
  "wire_token []" "wire_token (c # s) \<longleftrightarrow> c \<notin> {SP, LF, CR} \<and> wire_token s"
  "wire_token (s @ t) \<longleftrightarrow> wire_token s \<and> wire_token t"
  by (auto simp: wire_token_def)

lemma wire_token_Itoa [simp]: "wire_token (Itoa n)"
  using Itoa_chars [of _ n] digit_chars by (fastforce simp: wire_token_def)

lemma parameter_headers:
  "rq_Headers (stamped fresh_client (parameter_request net localAddress ct body)) =
     [''Content-Type'' \<mapsto> ct, ''CSeq'' \<mapsto> ''1'', ''User-Agent'' \<mapsto> ''Bobcaygeon/1.0'']"
  by (simp add: stamped_def fresh_client_def parameter_request_def Itoa_def show_dec.simps digit_def decimal_digits_def)

lemma wire_parameter:
  assumes "ct \<in> {''text/parameters'', ''application/x-dmap-tagged'', ''image/jpeg''}" and "wire_token localAddress"
    and "int (length body) \<le> max_alloc"
  shows "wire_request (stamped fresh_client (parameter_request net localAddress ct body))"
proof -
  have "wire_field ''CSeq'' ''1''" "wire_field ''User-Agent'' ''Bobcaygeon/1.0''" by code_simp+
  moreover have "wire_field ''Content-Type'' ct" using assms(1) by (elim insertE emptyE) (simp_all, code_simp+)
  ultimately show ?thesis
    using assms(2,3) unfolding wire_request_def parameter_headers
    by (simp add: stamped_def parameter_request_def NewRequest_def method_defs)
qed

definition visits_headers :: "relay_env \<Rightarrow> bool" where
  "visits_headers rl \<longleftrightarrow>
     (\<forall>hs. dom hs \<subseteq> {''CSeq'', ''Content-Type'', ''User-Agent''} \<longrightarrow> range_order (rl_headers rl hs) hs)"

lemma relay_send_arrives:
  assumes "visits_headers rl" and "task_request net dord t localAddress = Ret req" and "sendable dord t"
    and "parses_decimals (rl_host rl ip port)" and "wire_token localAddress" and "int (length (rq_Body req)) \<le> max_alloc"
    and "hall (ip, port) = Some a" and "fw_player (ap_player a) = Some p"
  shows "\<exists>resp a' p'. relay_send rl localAddress ip port req hall = (Ret resp, hall((ip, port) \<mapsto> a'))
    \<and> fw_player (ap_player a') = Some p' \<and> arrived t p'"
proof -
  obtain ct body where req: "req = parameter_request net localAddress ct body"
    "ct \<in> {''text/parameters'', ''application/x-dmap-tagged'', ''image/jpeg''}"
    by (rule task_request_form [OF assms(2)])
  let ?q = "stamped fresh_client req" and ?h = "handlSetParameter (rl_host rl ip port) forwarding_player_ops"
  define r where "r = ?q\<lparr>rq_Headers := received (rq_Headers ?q) (rq_Body req)\<rparr>"
  have hs: "rq_Headers ?q = [''Content-Type'' \<mapsto> ct, ''CSeq'' \<mapsto> ''1'', ''User-Agent'' \<mapsto> ''Bobcaygeon/1.0'']"
    unfolding req(1) by (rule parameter_headers)
  have sent: "rq_Headers req ''Content-Type'' = Some ct" "rq_Method req = Set_Parameter" "rq_protocol req = ''RTSP/1.0''"
    by (simp_all add: req(1) parameter_request_def NewRequest_def)
  have r: "rq_Body r = rq_Body req" "rq_Headers r ''Content-Type'' = rq_Headers req ''Content-Type''"
    "rq_Headers r ''X-BCG-Muted'' = None" "get (rq_Headers r) ''CSeq'' = ''1''" "rq_protocol r = ''RTSP/1.0''"
    by (auto simp: r_def hs sent received_def get_def) (simp_all add: stamped_def sent)
  define resp where "resp = (initial_response r)\<lparr>rs_Status := Ok\<rparr>"
  obtain a' p' where handled: "?h r (initial_response r) ip localAddress a = (Ret resp, a')"
    "fw_player (ap_player a') = Some p'" "arrived t p'"
    using parameter_arrives [OF assms(2,3,4) r(1-3) assms(8)] unfolding resp_def by blast
  have resp: "rs_Headers resp = [''CSeq'' \<mapsto> ''1'']" "rs_protocol resp = ''RTSP/1.0''" "rs_Body resp = []" "rs_Status resp = Ok"
    by (simp_all add: resp_def initial_response_def r(4,5) NewResponse_def)
  have "wire_field ''CSeq'' ''1''" "Ok \<in> snd ` set status_consts" by code_simp+
  then have "wire_response resp" by (simp add: wire_response_def resp max_alloc_def)
  moreover have "range_order (rl_headers rl (rs_Headers resp)) (rs_Headers resp)"
    "range_order (rl_headers rl (rq_Headers ?q)) (rq_Headers ?q)"
    using assms(1) unfolding visits_headers_def by (auto simp: hs resp(1))
  moreover have "wire_request ?q"
    using wire_parameter [OF req(2) assms(5), of body net] assms(6) by (simp add: req(1) parameter_request_def)
  moreover have "relay_handlers rl ip port (rq_Method req) = Some ?h"
    by (simp add: relay_handlers_def airplay_handlers_def AddHandler_def sent(2) method_defs)
  ultimately have "Send (rl_headers rl) (server_peer (relay_handlers rl ip port) (rl_headers rl) ip localAddress) req (fresh_client, a) =
      (Ret (resp\<lparr>rs_Headers := received (rs_Headers resp) (rs_Body resp)\<rparr>), (fresh_client\<lparr>cl_seq := cl_seq fresh_client + 1\<rparr>, a'))"
    using handled(1) by (intro Send_served [OF _ _ _ r_def])
  with assms(7) have "relay_send rl localAddress ip port req hall =
      (Ret (resp\<lparr>rs_Headers := received (rs_Headers resp) (rs_Body resp)\<rparr>), hall((ip, port) \<mapsto> a'))"
    by (simp add: relay_send_def)
  with handled(2,3) show ?thesis by blast
qed

section \<open>A whole zone\<close>

text \<open>Every speaker has a player; \<open>target\<close> is where a session's control requests go.\<close>

definition all_play :: "hall \<Rightarrow> bool" where
  "all_play hall \<longleftrightarrow> (\<forall>a \<in> ran hall. fw_player (ap_player a) \<noteq> None)"

definition target :: "client_session \<Rightarrow> string \<times> int" where
  "target s = (ps_Address (se_RemotePorts (cs_session s)), cs_rtspPort s)"

definition has_arrived :: "task \<Rightarrow> fworld airplay option \<Rightarrow> bool" where
  "has_arrived t so \<longleftrightarrow> (\<exists>a p. so = Some a \<and> fw_player (ap_player a) = Some p \<and> arrived t p)"

lemma all_play_update: "all_play hall \<Longrightarrow> has_arrived t (Some a) \<Longrightarrow> all_play (hall(k \<mapsto> a))"
  by (auto simp: all_play_def has_arrived_def ran_def)

lemma deliver_all:
  assumes "visits_headers rl" and "task_request net dord t localAddress = Ret req" and "sendable dord t"
    and "\<And>ip port. parses_decimals (rl_host rl ip port)" and "wire_token localAddress"
    and "int (length (rq_Body req)) \<le> max_alloc" and "all_play hall" and "set ks \<subseteq> dom hall"
  shows "\<exists>hall'. for_each (deliver rl localAddress) (map (\<lambda>k. Control (fst k) (snd k) req) ks) hall = (Ret (), hall')
    \<and> (\<forall>k. if k \<in> set ks then has_arrived t (hall' k) else hall' k = hall k)"
  using assms(7,8)
proof (induction ks arbitrary: hall)
  case Nil
  then show ?case by (simp add: retP_def)
next
  case (Cons k ks)
  from Cons.prems(2) obtain a where "hall k = Some a" by auto
  then obtain p where a: "hall k = Some a" "fw_player (ap_player a) = Some p"
    using Cons.prems(1) ranI [of hall k a] by (auto simp: all_play_def)
  have key: "hall (fst k, snd k) = Some a" using a(1) by simp
  obtain resp a' where a': "relay_send rl localAddress (fst k) (snd k) req hall = (Ret resp, hall(k \<mapsto> a'))"
    "has_arrived t (Some a')"
    using relay_send_arrives [where hall = hall, OF assms(1-6) key a(2)] by (auto simp: has_arrived_def)
  let ?hall = "hall(k \<mapsto> a')"
  have dom: "set ks \<subseteq> dom ?hall" using Cons.prems(2) by auto
  obtain hall' where hall': "for_each (deliver rl localAddress) (map (\<lambda>k. Control (fst k) (snd k) req) ks) ?hall = (Ret (), hall')"
    "\<forall>k. if k \<in> set ks then has_arrived t (hall' k) else hall' k = ?hall k"
    using Cons.IH [OF all_play_update [OF Cons.prems(1) a'(2)] dom] by blast
  have "if j \<in> set (k # ks) then has_arrived t (hall' j) else hall' j = hall j" for j
    using spec [OF hall'(2), of j] a'(2) by (auto split: if_splits)
  with hall'(1) a'(1) show ?case by (simp add: bindP_def retP_def)
qed

lemma forward_all_wired:
  assumes "\<And>ip port. hall (ip, port) \<noteq> None \<Longrightarrow> is_ret (fst (relay_send rl localAddress ip port req hall))"
    and "build localAddress = Ret req"
  shows "forward_all (wired rl localAddress hall net) build ss =
    (map (\<lambda>k. Control (fst k) (snd k) req) (filter (\<lambda>k. hall k \<noteq> None) (map target ss)), Ret ())"
proof (induction ss)
  case (Cons s ss)
  obtain ip port where k: "target s = (ip, port)" by fastforce
  show ?case
  proof (cases "hall (ip, port)")
    case (Some a)
    then obtain resp where "fst (relay_send rl localAddress ip port req hall) = Ret resp"
      using assms(1) [of ip port] by (metis is_ret.elims(2) option.distinct(1))
    with Cons Some k assms(2) show ?thesis by (auto simp: target_def wired_def)
  qed (use Cons k in \<open>auto simp: target_def wired_def\<close>)
qed simp

section \<open>Audio\<close>

text \<open>The packets sent to one data port, in the order in which they leave.\<close>

definition data_target :: "client_session \<Rightarrow> string \<times> int" where
  "data_target s = (ps_Address (se_RemotePorts (cs_session s)), ps_Data (se_RemotePorts (cs_session s)))"

fun packets_to :: "string \<times> int \<Rightarrow> out_msg list \<Rightarrow> string list" where
  "packets_to k [] = []"
| "packets_to k (Data ip port pkt # out) = (if (ip, port) = k then pkt # packets_to k out else packets_to k out)"
| "packets_to k (Control ip port req # out) = packets_to k out"

lemma packets_to_append: "packets_to k (out @ out') = packets_to k out @ packets_to k out'"
  by (induction k out rule: packets_to.induct) auto

lemma packets_to_each:
  assumes "distinct ks" and "inj_on f (set ks)" and "n \<in> set ks"
  shows "packets_to (f n) (map (\<lambda>k. Data (fst (f k)) (snd (f k)) pkt) ks) = [pkt]"
  using assms
proof (induction ks)
  case (Cons k ks)
  have rest: "packets_to (f n) (map (\<lambda>k. Data (fst (f k)) (snd (f k)) pkt) ks) = []" if "f n \<notin> f ` set ks"
    using that by (induction ks) auto
  show ?case
  proof (cases "n = k")
    case True
    then have "f n \<notin> f ` set ks" using Cons.prems(1,2) by auto
    then show ?thesis using rest True by simp
  next
    case False
    then have "f k \<noteq> f n" using Cons.prems by (auto dest: inj_onD)
    then show ?thesis using Cons False by auto
  qed
qed simp

lemma play_packets:
  assumes "fw_player w = Some p"
  shows "for_each fPlay_packet pkts w = (Ret (), w\<lparr>fw_tasks := fw_tasks w @ map ForwardPacket pkts\<rparr>)"
  using assms
proof (induction pkts arbitrary: w)
  case (Cons pkt pkts)
  then show ?case by (simp add: fPlay_packet_def seqP_def bindP_def spawn_def)
qed (simp add: retP_def)

section \<open>Properties\<close>

text \<open>
  C2. A change of track, artwork or volume of a leading speaker reaches the players of its zone, over
  the wire and whatever the order in which its sessions and the headers are visited. The goroutine
  ends without a failure; after the messages it sends have been delivered, every speaker of the
  session table that can be reached shows the track and the artwork as they were set, and a volume
  within 5 parts in 100 million of the one that was set, with mute and full volume exact. All other
  speakers are as before. A body may be of any length that can be allocated.
\<close>

theorem changes_arrive_in_the_zone:
  assumes "fw_player w = Some p" and "range_order ks (fp_sessions p)"
    and "task_request net dord t localAddress = Ret req" and "sendable dord t"
    and "int (length (rq_Body req)) \<le> max_alloc" and "wire_token localAddress" and "visits_headers rl"
    and "\<And>ip port. parses_decimals (rl_host rl ip port)" and "all_play hall"
  shows "\<exists>out hall'. run_task (wired rl localAddress hall net) ks dord t w = (out, Ret (), w)
    \<and> for_each (deliver rl localAddress) out hall = (Ret (), hall')
    \<and> (\<forall>k. if k \<in> target ` ran (fp_sessions p) \<inter> dom hall then has_arrived t (hall' k) else hall' k = hall k)"
proof -
  let ?net = "wired rl localAddress hall net" and ?ss = "getSessions ks (fp_sessions p)"
  let ?ks = "filter (\<lambda>k. hall k \<noteq> None) (map target ?ss)"
  have req: "task_request ?net dord t localAddress = Ret req"
    using assms(3) by (cases t) (simp_all add: wired_def parameter_request_def)
  have "is_ret (fst (relay_send rl localAddress ip port req hall))" if "hall (ip, port) \<noteq> None" for ip port
  proof -
    from that obtain a where "hall (ip, port) = Some a" by auto
    moreover then obtain q where "fw_player (ap_player a) = Some q"
      using assms(9) ranI [of hall "(ip, port)" a] by (auto simp: all_play_def)
    ultimately show ?thesis using relay_send_arrives [OF assms(7,3,4,8,6,5)] by fastforce
  qed
  then have "forward_all ?net (task_request ?net dord t) ?ss = (map (\<lambda>k. Control (fst k) (snd k) req) ?ks, Ret ())"
    using req by (rule forward_all_wired)
  moreover have "t \<in> range ForwardVolume \<union> range ForwardArt \<or> (\<exists>album artist title. t = ForwardTrack album artist title)"
    using assms(4) by (cases t) auto
  ultimately have run: "run_task ?net ks dord t w = (map (\<lambda>k. Control (fst k) (snd k) req) ?ks, Ret (), w)"
    using assms(1) by auto
  have "set ?ks = target ` ran (fp_sessions p) \<inter> dom hall"
    using range_orderD [OF assms(2)] by (force simp: getSessions_def ran_def)
  then obtain hall' where "for_each (deliver rl localAddress) (map (\<lambda>k. Control (fst k) (snd k) req) ?ks) hall = (Ret (), hall')"
    "\<forall>k. if k \<in> target ` ran (fp_sessions p) \<inter> dom hall then has_arrived t (hall' k) else hall' k = hall k"
    using deliver_all [OF assms(7,3,4,8,6,5,9), of ?ks] by (metis Int_lower2)
  with run show ?thesis by blast
qed

text \<open>
  C33. Every packet that a leading speaker receives goes to every speaker of its zone exactly once,
  but in no particular order: each packet is sent by a goroutine of its own, and whichever order the
  goroutines run in, that is the order in which the packets leave. So packets may overtake each
  other.
\<close>

theorem packets_leave_in_any_order:
  assumes "fw_player w = Some p" and "fw_tasks w = []" and "range_order ks (fp_sessions p)"
    and "inj_on (\<lambda>n. data_target (the (fp_sessions p n))) (dom (fp_sessions p))" and "fp_sessions p n = Some s"
  shows "\<exists>w'. for_each fPlay_packet pkts w = (Ret (), w') \<and> fw_player w' = Some p
    \<and> fw_tasks w' = map ForwardPacket pkts
    \<and> (\<forall>order. mset order = mset pkts \<longrightarrow> mset (map ForwardPacket order) = mset (fw_tasks w')
        \<and> packets_to (data_target s) (concat (map (\<lambda>t. fst (run_task net ks dord t w')) (map ForwardPacket order))) = order)"
proof -
  let ?w = "w\<lparr>fw_tasks := map ForwardPacket pkts\<rparr>"
  define f where "f k = data_target (the (fp_sessions p k))" for k
  have n: "n \<in> set ks" "f n = data_target s" using range_orderD(2) [OF assms(3)] assms(5) by (auto simp: f_def)
  have "fst (run_task net ks dord (ForwardPacket pkt) ?w) = map (\<lambda>k. Data (fst (f k)) (snd (f k)) pkt) ks" for pkt
    using assms(1) by (simp add: f_def data_target_def getSessions_def)
  moreover have "packets_to (f n) (map (\<lambda>k. Data (fst (f k)) (snd (f k)) pkt) ks) = [pkt]" for pkt
    using range_orderD [OF assms(3)] assms(4) n(1) by (intro packets_to_each) (simp_all add: f_def)
  ultimately have one: "packets_to (f n) (fst (run_task net ks dord (ForwardPacket pkt) ?w)) = [pkt]" for pkt by simp
  have "packets_to (f n) (concat (map (\<lambda>t. fst (run_task net ks dord t ?w)) (map ForwardPacket order))) = order" for order
    by (induction order) (simp_all only: list.map concat.simps packets_to.simps packets_to_append one append.simps)
  moreover have "for_each fPlay_packet pkts w = (Ret (), ?w)" using play_packets [OF assms(1)] assms(2) by simp
  ultimately show ?thesis using assms(1) n(2) by (intro exI [of _ ?w]) simp
qed

definition den_session :: client_session where
  "den_session = \<lparr>cs_session = (NewSession NewSessionDescription None)
     \<lparr>se_RemotePorts := \<lparr>ps_Address = ''10.0.0.7'', ps_Control = 0, ps_Timing = 0, ps_Data = 6000\<rparr>, se_dataConn := True\<rparr>,
     cs_rtspPort = 5000\<rparr>"

theorem packets_leave_in_any_order_witness:
  "\<exists>w'. for_each fPlay_packet [''a'', ''b''] \<lparr>fw_player = Some (working_player\<lparr>fp_sessions := [''den'' \<mapsto> den_session]\<rparr>), fw_tasks = []\<rparr> =
      (Ret (), w')
    \<and> packets_to (data_target den_session)
        (concat (map (\<lambda>t. fst (run_task sample_net [''den''] [] t w')) [ForwardPacket ''b'', ForwardPacket ''a''])) = [''b'', ''a'']"
proof -
  let ?p = "working_player\<lparr>fp_sessions := [''den'' \<mapsto> den_session]\<rparr>"
  let ?w = "\<lparr>fw_player = Some ?p, fw_tasks = []\<rparr>"
  have "fw_player ?w = Some ?p" "fw_tasks ?w = []" "range_order [''den''] (fp_sessions ?p)"
    "inj_on (\<lambda>n. data_target (the (fp_sessions ?p n))) (dom (fp_sessions ?p))" "fp_sessions ?p ''den'' = Some den_session"
    by (simp_all add: range_order_def)
  from packets_leave_in_any_order [OF this, of "[''a'', ''b'']" sample_net "[]"]
  obtain w' where w': "for_each fPlay_packet [''a'', ''b''] ?w = (Ret (), w')"
    "\<forall>order. mset order = mset [''a'', ''b''] \<longrightarrow> mset (map ForwardPacket order) = mset (fw_tasks w')
      \<and> packets_to (data_target den_session)
          (concat (map (\<lambda>t. fst (run_task sample_net [''den''] [] t w')) (map ForwardPacket order))) = order"
    by blast
  have "mset [''b'', ''a''] = mset [''a'', ''b'']" by simp
  with w'(2) have "packets_to (data_target den_session) (concat (map (\<lambda>t. fst (run_task sample_net [''den''] [] t w'))
      (map ForwardPacket [''b'', ''a'']))) = [''b'', ''a'']" by blast
  with w'(1) show ?thesis unfolding list.map by blast
qed

text \<open>
  The witness: \<^verbatim>\<open>ParseFloat\<close> with a bit size of 32 on plain decimal numbers, which reads the nearest
  \<^verbatim>\<open>float32\<close> to the number that was written.
\<close>

definition dec_value :: "string \<Rightarrow> int" where
  "dec_value s = foldl (\<lambda>n c. 10 * n + digit_value c) 0 s"

definition unsigned_float :: "string \<Rightarrow> rat res" where
  "unsigned_float s =
     (case splitn2 (CHR ''.'') s of
        [a, b] \<Rightarrow>
          if a @ b \<noteq> [] \<and> list_all is_digit (a @ b) then Ret (of_int (dec_value (a @ b)) / 10 ^ length b)
          else Err ''invalid syntax''
      | [a] \<Rightarrow> if a \<noteq> [] \<and> list_all is_digit a then Ret (of_int (dec_value a)) else Err ''invalid syntax''
      | _ \<Rightarrow> Err ''invalid syntax'')"

fun ParseFloat :: "string \<Rightarrow> float64 res" where
  "ParseFloat [] = Err ''invalid syntax''"
| "ParseFloat (c # s) =
     (if c = CHR ''-'' then res_bind (unsigned_float s) (\<lambda>x. Ret (Fin (rnd32 (- x))))
      else res_bind (unsigned_float (c # s)) (\<lambda>x. Ret (Fin (rnd32 x))))"

lemma dec_value_append: "dec_value (a @ b) = dec_value a * 10 ^ length b + dec_value b"
proof -
  have "foldl (\<lambda>n c. 10 * n + digit_value c) m b = m * 10 ^ length b + dec_value b" for m
  proof (induction b rule: rev_induct)
    case (snoc c b)
    then show ?case by (simp add: dec_value_def)
  qed (simp add: dec_value_def)
  from this [of "dec_value a"] show ?thesis by (simp only: dec_value_def foldl_append)
qed

lemma dec_value_show_dec: "0 \<le> n \<Longrightarrow> dec_value (show_dec n) = n"
proof (induction n rule: show_dec.induct)
  case (1 n)
  show ?case
  proof (cases "n < 10")
    case True
    then show ?thesis using 1 by (simp add: show_dec.simps [of n] dec_value_def)
  next
    case False
    with 1 have "dec_value (show_dec (n div 10)) = n div 10" by simp
    with False 1 show ?thesis by (simp add: show_dec.simps [of n] dec_value_append) (simp add: dec_value_def)
  qed
qed

lemma length_show_dec: "0 \<le> n \<Longrightarrow> n < 10 ^ k \<Longrightarrow> 0 < k \<Longrightarrow> length (show_dec n) \<le> k"
proof (induction k arbitrary: n)
  case (Suc k)
  show ?case
  proof (cases "n < 10")
    case False
    with Suc.prems have "0 < k" by (cases k) auto
    moreover have "n div 10 < 10 ^ k" using Suc.prems by (simp add: div_less_iff_less_mult mult.commute)
    ultimately show ?thesis using Suc.IH [of "n div 10"] Suc.prems(1) False by (simp add: show_dec.simps [of n])
  qed (simp add: show_dec.simps [of n])
qed simp

lemma pad6_show_dec:
  assumes "0 \<le> n" and "n < 1000000"
  shows "length (pad6 (show_dec n)) = 6" "dec_value (pad6 (show_dec n)) = n" "list_all is_digit (pad6 (show_dec n))"
proof -
  have "length (show_dec n) \<le> 6" using length_show_dec [of n 6] assms by simp
  then show "length (pad6 (show_dec n)) = 6" by (simp add: pad6_def)
  have "dec_value (replicate k (CHR ''0'')) = 0" for k by (induction k) (simp_all add: dec_value_def digit_value_def)
  then show "dec_value (pad6 (show_dec n)) = n" using assms(1) by (simp add: pad6_def dec_value_append dec_value_show_dec)
  have "is_digit (CHR ''0'')" by (simp add: is_digit_def decimal_digits_def)
  then show "list_all is_digit (pad6 (show_dec n))"
    using show_dec_digits [OF _ assms(1)] by (auto simp: pad6_def list_all_iff)
qed

lemma unsigned_float_decimal:
  assumes "0 \<le> n"
  shows "unsigned_float (decimal n) = Ret (of_int n / 1000000)"
proof -
  let ?a = "show_dec (n div 1000000)" and ?b = "pad6 (show_dec (n mod 1000000))"
  have a: "list_all is_digit ?a" using show_dec_digits assms by (auto simp: list_all_iff)
  moreover have "\<not> is_digit (CHR ''.'')" by (simp add: is_digit_def decimal_digits_def)
  ultimately have "CHR ''.'' \<notin> set ?a" by (auto simp: list_all_iff)
  then have "splitn2 (CHR ''.'') (?a @ ''.'' @ ?b) = [?a, ?b]" by (simp add: splitn2_append)
  moreover have "0 \<le> n div 1000000" "0 \<le> n mod 1000000" using assms by (simp_all add: pos_imp_zdiv_nonneg_iff)
  then have "decimal n = ?a @ ''.'' @ ?b" unfolding decimal_def Itoa_def by (simp only: not_less [symmetric] if_False)
  moreover have "dec_value (?a @ ?b) = n"
    using assms pad6_show_dec [of "n mod 1000000"] by (simp add: dec_value_append dec_value_show_dec)
  ultimately show ?thesis using a pad6_show_dec [of "n mod 1000000"] by (simp add: unsigned_float_def)
qed

lemma ParseFloat_decimals: "parses_decimals (h\<lparr>ho_parse_float := ParseFloat\<rparr>)"
proof -
  have "ParseFloat (decimal n) = Ret (Fin (rnd32 (of_int n / 1000000)))" if n: "0 \<le> n" for n
  proof -
    have "0 \<le> n div 1000000" using n by (simp add: pos_imp_zdiv_nonneg_iff)
    then obtain c cs where c: "Itoa (n div 1000000) = c # cs" "is_digit c"
      using show_dec_digits [of "hd (show_dec (n div 1000000))" "n div 1000000"]
      by (cases "show_dec (n div 1000000)") (auto simp: Itoa_def)
    then have "c \<noteq> CHR ''-''" by (auto simp: is_digit_def decimal_digits_def)
    moreover obtain s where "decimal n = c # s" by (simp add: decimal_def c(1))
    ultimately show ?thesis using unsigned_float_decimal [OF n] by simp
  qed
  then show ?thesis using unsigned_float_decimal by (simp add: parses_decimals_def)
qed

definition sample_relay :: relay_env where
  "sample_relay = \<lparr>rl_host = (\<lambda>ip port. sample_host\<lparr>ho_parse_float := ParseFloat\<rparr>), rl_headers = sample_order, rl_sessions = []\<rparr>"

lemma sample_relay_orders: "visits_headers sample_relay"
  by (auto simp: visits_headers_def sample_relay_def sample_order_def range_order_def)

theorem changes_arrive_in_the_zone_witness:
  "\<exists>out hall' a p v'. run_task (wired sample_relay ''10.0.0.1'' [(''10.0.0.7'', 5000) \<mapsto>
        NewAirplayServer 5000 ''den'' \<lparr>fw_player = Some working_player, fw_tasks = []\<rparr>] sample_net) [''den''] []
      (ForwardVolume (Fin (1 / 2))) \<lparr>fw_player = Some (working_player\<lparr>fp_sessions := [''den'' \<mapsto> den_session]\<rparr>), fw_tasks = []\<rparr> =
      (out, Ret (), \<lparr>fw_player = Some (working_player\<lparr>fp_sessions := [''den'' \<mapsto> den_session]\<rparr>), fw_tasks = []\<rparr>)
    \<and> for_each (deliver sample_relay ''10.0.0.1'') out [(''10.0.0.7'', 5000) \<mapsto>
        NewAirplayServer 5000 ''den'' \<lparr>fw_player = Some working_player, fw_tasks = []\<rparr>] = (Ret (), hall')
    \<and> hall' (''10.0.0.7'', 5000) = Some a \<and> fw_player (ap_player a) = Some p \<and> fp_volume p = Fin v'
    \<and> \<bar>v' - 1 / 2\<bar> \<le> 1 / 20000000"
proof -
  let ?w = "\<lparr>fw_player = Some (working_player\<lparr>fp_sessions := [''den'' \<mapsto> den_session]\<rparr>), fw_tasks = []\<rparr>"
  let ?hall = "[(''10.0.0.7'', 5000 :: int) \<mapsto> NewAirplayServer 5000 ''den'' \<lparr>fw_player = Some working_player, fw_tasks = []\<rparr>]"
  let ?t = "ForwardVolume (Fin (1 / 2))" and ?req = "parameter_request sample_net ''10.0.0.1'' ''text/parameters'' ''volume: -15.000000''"
  have "prepareVolume (Fin (1 / 2)) = Fin (- 15)"
    using rnd_of_int [of 15] rnd_of_int [of "- 15"] by (simp add: prepareVolume_def fsub_def)
  moreover have "format_f (Fin (- 15)) = ''-15.000000''" by code_simp
  ultimately have req: "task_request sample_net [] ?t ''10.0.0.1'' = Ret ?req" by (simp del: format_f.simps)
  have target: "target den_session = (''10.0.0.7'', 5000)" by (simp add: target_def den_session_def)
  let ?p = "working_player\<lparr>fp_sessions := [''den'' \<mapsto> den_session]\<rparr>"
  have parse: "parses_decimals (rl_host sample_relay ip port)" for ip port by (simp add: sample_relay_def ParseFloat_decimals)
  have "fw_player ?w = Some ?p" "range_order [''den''] (fp_sessions ?p)" "sendable [] ?t"
    "int (length (rq_Body ?req)) \<le> max_alloc" "wire_token ''10.0.0.1''" "all_play ?hall"
    by (simp_all add: range_order_def parameter_request_def max_alloc_def all_play_def NewAirplayServer_def)
  from changes_arrive_in_the_zone [OF this(1,2) req this(3-5) sample_relay_orders parse this(6)]
  obtain out hall' where out: "run_task (wired sample_relay ''10.0.0.1'' ?hall sample_net) [''den''] [] ?t ?w = (out, Ret (), ?w)"
    "for_each (deliver sample_relay ''10.0.0.1'') out ?hall = (Ret (), hall')"
    "has_arrived ?t (hall' (''10.0.0.7'', 5000))"
    by (auto simp: target split: if_splits)
  from out(3) obtain a p v' where "hall' (''10.0.0.7'', 5000) = Some a" "fw_player (ap_player a) = Some p" "fp_volume p = Fin v'"
    "\<bar>v' - 1 / 2\<bar> \<le> 1 / 20000000"
    unfolding has_arrived_def arrived.simps by blast
  with out(1,2) show ?thesis by blast
qed

end
