(* ===== verification/Connect.thy ===== *)
theory Connect
  imports Relay
begin

text \<open>
  Both ends of an AirPlay session: the handshake of \<^verbatim>\<open>raop/client.go\<close> against the handlers of
  \<^verbatim>\<open>raop/airplay.go\<close>, over the wire format of \<^verbatim>\<open>rtsp\<close>. This is how the leader of a zone connects to its
  members.
\<close>

section \<open>The connection\<close>

definition speaker_env :: "host \<Rightarrow> string list \<Rightarrow> 'p player_ops \<Rightarrow> int \<Rightarrow> ((string \<rightharpoonup> string) \<Rightarrow> string list) \<Rightarrow>
    int \<Rightarrow> string \<Rightarrow> string \<Rightarrow> 'p airplay env" where
  "speaker_env h ks ops port ord now localAddr remoteAddr =
     \<lparr>ev_ord = ord, ev_peer = server_peer (sv_handlers (airplay_handlers h ks ops port)) ord remoteAddr localAddr,
      ev_now = now, ev_local = localAddr, ev_remote = remoteAddr\<rparr>"

text \<open>The headers and attributes of a handshake, and an iteration order for maps of them.\<close>

definition handshake_keys :: "string list" where
  "handshake_keys = [''CSeq'', ''User-Agent'', ''Content-Type'', ''Transport'', ''Public'', ''Session'',
     ''Audio-Jack-Status'', ''Audio-Latency'', ''rtpmap'']"

definition visits :: "((string \<rightharpoonup> string) \<Rightarrow> string list) \<Rightarrow> bool" where
  "visits ord \<longleftrightarrow> (\<forall>hs. dom hs \<subseteq> set handshake_keys \<longrightarrow> range_order (ord hs) hs)"

section \<open>Fields on the wire\<close>

lemma rune_prefix_hd_0:
  assumes "s \<noteq> []" and "hd s \<notin> set (concat space_runes)"
  shows "rune_prefix space_runes s = 0" and "rune_prefix (map rev space_runes) s = 0"
proof -
  have no: "take (length r) s \<noteq> r" if "r \<noteq> []" "set r \<subseteq> set (concat space_runes)" for r
  proof
    assume "take (length r) s = r"
    then have "hd r = hd s" using that(1) assms(1) by (metis hd_take length_greater_0_conv)
    with that assms(2) show False by (metis hd_in_set subsetD)
  qed
  then show "rune_prefix space_runes s = 0" unfolding rune_prefix_0_iff by fastforce
  show "rune_prefix (map rev space_runes) s = 0"
    unfolding rune_prefix_0_iff
  proof (intro ballI impI)
    fix r assume "r \<in> set (map rev space_runes)" and "r \<noteq> []"
    then show "take (length r) s \<noteq> r" by (intro no) fastforce+
  qed
qed

lemma TrimSpace_ends_id:
  assumes "s \<noteq> []" and "hd s \<notin> set (concat space_runes)" and "last s \<notin> set (concat space_runes)"
  shows "TrimSpace s = s"
  using rune_prefix_hd_0(1) [OF assms(1,2)] rune_prefix_hd_0(2) [of "rev s"] assms
  by (simp add: TrimSpace_def strip_runes_stop hd_rev)

lemma join_ends:
  assumes "ws \<noteq> []" and "\<forall>w\<in>set ws. w \<noteq> []"
  shows "join sep ws \<noteq> []" and "hd (join sep ws) = hd (hd ws)" and "last (join sep ws) = last (last ws)"
    and "set (join sep ws) \<subseteq> set sep \<union> (\<Union>w\<in>set ws. set w)"
  using assms by (induction sep ws rule: join.induct) (auto split: list.splits)

lemma wire_field_Public:
  assumes "set ks \<subseteq> fst ` set method_entries"
  shows "wire_field ''Public'' (join '' '' (GetMethods ks))"
proof (cases ks)
  case Nil
  then show ?thesis by (simp add: GetMethods_def) code_simp
next
  case (Cons k ks')
  have "list_all (\<lambda>w. w \<noteq> [] \<and> hd w \<notin> set (concat space_runes) \<and> last w \<notin> set (concat space_runes) \<and>
      CHR '':'' \<notin> set w \<and> LF \<notin> set w) (map (\<lambda>e. ToUpper (fst e)) method_entries)"
    by code_simp
  moreover have "set (GetMethods ks) \<subseteq> set (map (\<lambda>e. ToUpper (fst e)) method_entries)"
    using assms by (auto simp: GetMethods_def)
  ultimately have words: "\<forall>w\<in>set (GetMethods ks). w \<noteq> [] \<and> hd w \<notin> set (concat space_runes) \<and>
      last w \<notin> set (concat space_runes) \<and> CHR '':'' \<notin> set w \<and> LF \<notin> set w"
    unfolding list_all_iff by blast
  have ws: "GetMethods ks \<noteq> []" using Cons by (simp add: GetMethods_def)
  note ends = join_ends [OF ws, of "'' ''"]
  have "TrimSpace (join '' '' (GetMethods ks)) = join '' '' (GetMethods ks)"
    using words ends ws by (intro TrimSpace_ends_id) auto
  moreover have "CHR '':'' \<notin> set (join '' '' (GetMethods ks))" "LF \<notin> set (join '' '' (GetMethods ks))"
    using words ends(4) by fastforce+
  moreover have "wire_field ''Public'' ''x''" by code_simp
  ultimately show ?thesis by (simp add: wire_field_def)
qed

lemma wire_field_CSeq: "wire_field ''CSeq'' (Itoa n)"
proof -
  have "wire_field ''CSeq'' ''1''" by code_simp
  moreover have "CHR '':'' \<notin> set (Itoa n)" "LF \<notin> set (Itoa n)" using Itoa_chars [of _ n] digit_chars by fastforce+
  ultimately show ?thesis by (simp add: wire_field_def TrimSpace_Itoa)
qed

section \<open>A request that is served\<close>

text \<open>
  A request of the handshake whose handler answers 200 and adds headers: the answer arrives, and the
  handler has seen the request's body and its own headers.
\<close>

definition seen :: "client \<Rightarrow> request \<Rightarrow> request" where
  "seen c q = (stamped c q)\<lparr>rq_Headers := received (rq_Headers (stamped c q)) (rq_Body q)\<rparr>"

definition answered :: "request \<Rightarrow> (string \<rightharpoonup> string) \<Rightarrow> response" where
  "answered r extra = (initial_response r)\<lparr>rs_Status := Ok, rs_Headers := rs_Headers (initial_response r) ++ extra\<rparr>"

lemma seen_simps [simp]:
  "rq_Headers (seen c q) k =
    (if k = ''Content-Length'' \<and> rq_Body q \<noteq> [] then Some (Itoa (int (length (rq_Body q))))
     else if k = ''User-Agent'' then Some ''Bobcaygeon/1.0'' else if k = ''CSeq'' then Some (Itoa (sint (cl_seq c)))
     else rq_Headers q k)"
  "rq_Body (seen c q) = rq_Body q"
  by (simp_all add: seen_def received_def stamped_def)

lemma answered_simps [simp]:
  "rs_Status (answered r extra) = Ok" "k \<noteq> ''CSeq'' \<Longrightarrow> rs_Headers (answered r extra) k = extra k"
  by (simp_all add: answered_def initial_response_def map_add_def split: option.splits)

lemma answered_plain: "answered r Map.empty = (initial_response r)\<lparr>rs_Status := Ok\<rparr>"
  by (simp add: answered_def)

lemma handshake_request_served:
  fixes q :: request and c :: client and extra :: "string \<rightharpoonup> string"
  defines "r \<equiv> seen c q"
  defines "resp \<equiv> answered r extra"
  assumes "visits ord" and "handlers (rq_Method q) = Some h" and "rq_Method q \<in> {0..11} - {Redirect}"
    and "wire_token (rq_URI q)" and "rq_protocol q = ''RTSP/1.0''" and "int (length (rq_Body q)) \<le> max_alloc"
    and "dom (rq_Headers q) \<subseteq> {''Content-Type'', ''Transport''}"
    and "\<And>k. k \<in> dom (rq_Headers q) \<Longrightarrow> wire_field k (the (rq_Headers q k))"
    and "dom extra \<subseteq> {''Public'', ''Transport'', ''Session'', ''Audio-Jack-Status'', ''Audio-Latency''}"
    and "\<And>k. k \<in> dom extra \<Longrightarrow> wire_field k (the (extra k))"
    and "h r (initial_response r) la ra a = (Ret resp, a')"
  shows "Send ord (server_peer handlers ord la ra) q (c, a) = (Ret resp, (c\<lparr>cl_seq := cl_seq c + 1\<rparr>, a'))"
proof -
  let ?q = "stamped c q"
  have hs: "rq_Headers ?q = (rq_Headers q)(''CSeq'' \<mapsto> Itoa (sint (cl_seq c)), ''User-Agent'' \<mapsto> ''Bobcaygeon/1.0'')"
    by (simp add: stamped_def)
  have ua: "wire_field ''User-Agent'' ''Bobcaygeon/1.0''" by code_simp
  have cseq: "get (rq_Headers r) ''CSeq'' = Itoa (sint (cl_seq c))" "rq_protocol r = ''RTSP/1.0''"
    by (simp_all add: r_def get_def) (simp add: seen_def stamped_def assms(7))
  have "dom (rq_Headers ?q) \<subseteq> set handshake_keys" using assms(9) by (auto simp: hs handshake_keys_def)
  then have 1: "range_order (ord (rq_Headers ?q)) (rq_Headers ?q)" using assms(3) by (simp add: visits_def)
  have "\<forall>k\<in>dom (rq_Headers ?q). wire_field k (the (rq_Headers ?q k))"
    using assms(10) ua wire_field_CSeq by (auto simp: hs)
  moreover have "''Content-Length'' \<notin> dom (rq_Headers ?q)" using assms(9) by (auto simp: hs)
  ultimately have 2: "wire_request ?q"
    using assms(5,6,8) unfolding wire_request_def by (simp add: stamped_def assms(7))
  have rs: "rs_Headers resp = [''CSeq'' \<mapsto> Itoa (sint (cl_seq c))] ++ extra" "rs_Body resp = []" "rs_Status resp = Ok"
    "rs_protocol resp = ''RTSP/1.0''"
    by (simp_all add: resp_def answered_def initial_response_def cseq NewResponse_def)
  have keys: "{''Public'', ''Transport'', ''Session'', ''Audio-Jack-Status'', ''Audio-Latency''} \<subseteq> set handshake_keys"
    "''CSeq'' \<in> set handshake_keys"
    by (simp_all add: handshake_keys_def)
  have doms: "dom (rs_Headers resp) = insert ''CSeq'' (dom extra)" by (simp add: rs(1))
  have "dom (rs_Headers resp) \<subseteq> set handshake_keys"
    unfolding doms insert_subset using keys(2) order_trans [OF assms(11) keys(1)] ..
  then have 3: "range_order (ord (rs_Headers resp)) (rs_Headers resp)" using assms(3) by (simp add: visits_def)
  have "\<forall>k\<in>dom (rs_Headers resp). wire_field k (the (rs_Headers resp k))"
  proof
    fix k assume "k \<in> dom (rs_Headers resp)"
    then show "wire_field k (the (rs_Headers resp k))"
      using assms(12) [of k] wire_field_CSeq by (cases "extra k") (simp_all add: rs(1) map_add_def domIff split: if_splits)
  qed
  moreover have "''Content-Length'' \<notin> dom (rs_Headers resp)" unfolding doms using subsetD [OF assms(11), of "''Content-Length''"] by (simp del: domIff) blast
  moreover have "Ok \<in> snd ` set status_consts" by code_simp
  ultimately have 4: "wire_response resp" by (simp add: wire_response_def rs(2-4) max_alloc_def)
  have "resp\<lparr>rs_Headers := received (rs_Headers resp) (rs_Body resp)\<rparr> = resp" by (simp add: rs(2) received_def)
  with Send_served [where ord = ord and ord' = ord and c = c and q = q and handlers = handlers and h = h and r = r
      and la = la and ra = ra and s = a and resp = resp and s' = a', OF 1 2 assms(4) _ assms(13) 3 4]
  show ?thesis by (simp add: r_def seen_def)
qed

lemma airplay_handler_table:
  "sv_handlers (airplay_handlers h ks ops port) Options = Some (handleOptions h)"
  "sv_handlers (airplay_handlers h ks ops port) Announce = Some (handleAnnounce h ks)"
  "sv_handlers (airplay_handlers h ks ops port) Setup = Some handleSetup"
  "sv_handlers (airplay_handlers h ks ops port) Record = Some (handleRecord ops)"
  by (simp_all add: airplay_handlers_def AddHandler_def method_defs)

lemma handshake_methods:
  "0 \<le> Options \<and> Options \<le> 11 \<and> Options \<noteq> Redirect" "0 \<le> Announce \<and> Announce \<le> 11 \<and> Announce \<noteq> Redirect"
  "0 \<le> Setup \<and> Setup \<le> 11 \<and> Setup \<noteq> Redirect" "0 \<le> Record \<and> Record \<le> 11 \<and> Record \<noteq> Redirect"
  by (auto simp: method_defs)

section \<open>The ports in a transport header\<close>

lemma contains_subset: "contains p s \<Longrightarrow> set p \<subseteq> set s"
  unfolding contains_def
proof (induction p s rule: index_of.induct)
  case (2 p x xs)
  then show ?case using set_take_subset [of "length p" "x # xs"] by (auto split: if_splits option.splits)
qed (auto split: if_splits)

lemma transport_answer_ports:
  assumes "int64_range d"
  shows "setup_ports (split_on (CHR '';'') (transport_text d)) (0, 0, 0) = Ret (6001, 6002, d)"
    and "wire_field ''Transport'' (transport_text d)"
proof -
  let ?server = "''server_port='' @ Itoa d"
  have no: "CHR '';'' \<notin> set (Itoa d)" "CHR ''='' \<notin> set (Itoa d)" "CHR ''l'' \<notin> set ?server" "CHR ''m'' \<notin> set ?server"
    "CHR '':'' \<notin> set (Itoa d)" "LF \<notin> set (Itoa d)"
    using Itoa_chars [of _ d] by (auto simp: is_digit_def decimal_digits_def)
  have "transport_text d = ''RTP/AVP/UDP'' @ CHR '';'' # ''unicast'' @ CHR '';'' # ''mode=record'' @ CHR '';'' #
      ?server @ CHR '';'' # ''control_port=6001'' @ CHR '';'' # ''timing_port=6002''"
    by (simp add: transport_text_def localControlPort_def localTimingPort_def Itoa_def show_dec.simps digit_def decimal_digits_def)
  note spelled = this
  have parts: "split_on (CHR '';'') (transport_text d) =
      [''RTP/AVP/UDP'', ''unicast'', ''mode=record'', ?server, ''control_port=6001'', ''timing_port=6002'']"
    unfolding spelled using no(1) split_on_append [of "CHR '';''" ?server "''control_port=6001;timing_port=6002''"] by simp
  have sent: "port_in ''control_port'' ?server x = Ret x" "port_in ''timing_port'' ?server x = Ret x"
    "port_in ''server_port'' ?server x = Ret d" for x
  proof -
    show "port_in ''control_port'' ?server x = Ret x" "port_in ''timing_port'' ?server x = Ret x"
      using no(3,4) contains_subset by (force simp: port_in_def)+
    have "contains ''server_port'' ?server" by (simp add: contains_def)
    moreover have "split_on (CHR ''='') ?server = [''server_port'', Itoa d]"
      using split_on_append [of "CHR ''=''" "''server_port''" "Itoa d"] no(2) by (simp add: split_on_no_sep)
    ultimately show "port_in ''server_port'' ?server x = Ret d"
      using Atoi_Itoa [OF assms] by (simp add: port_in_def index_def)
  qed
  have other: "port_in n ''RTP/AVP/UDP'' x = Ret x" "port_in n ''unicast'' x = Ret x" "port_in n ''mode=record'' x = Ret x"
    if "n \<in> {''control_port'', ''timing_port'', ''server_port''}" for n x
    using that by (auto simp: port_in_def contains_def)
  have known: "port_in ''control_port'' ''control_port=6001'' x = Ret 6001" "port_in ''timing_port'' ''control_port=6001'' x = Ret x"
    "port_in ''server_port'' ''control_port=6001'' x = Ret x" "port_in ''control_port'' ''timing_port=6002'' x = Ret x"
    "port_in ''timing_port'' ''timing_port=6002'' x = Ret 6002" "port_in ''server_port'' ''timing_port=6002'' x = Ret x" for x
    by (simp_all add: port_in_def contains_def index_def Atoi_def is_digit_def decimal_digits_def digit_value_def)
  show "setup_ports (split_on (CHR '';'') (transport_text d)) (0, 0, 0) = Ret (6001, 6002, d)"
    unfolding parts by (simp add: sent other known del: append.simps)
  have "TrimSpace (transport_text d) = transport_text d"
    by (rule TrimSpace_ends_id) (simp_all add: spelled space_runes_def)
  moreover have "CHR '':'' \<notin> set (transport_text d)" "LF \<notin> set (transport_text d)" using no(5,6) by (simp_all add: spelled)
  moreover have "wire_field ''Transport'' ''x''" by code_simp
  ultimately show "wire_field ''Transport'' (transport_text d)" by (simp add: wire_field_def)
qed

section \<open>The four requests\<close>

lemma options_served:
  assumes "visits ord" and "set (ho_methods h) \<subseteq> fst ` set method_entries"
  shows "\<exists>r. Send ord (server_peer (sv_handlers (airplay_handlers h ks ops port)) ord la ra)
      (NewRequest\<lparr>rq_Method := Options, rq_URI := ''*''\<rparr>) (c, a) = (Ret r, (c\<lparr>cl_seq := cl_seq c + 1\<rparr>, a)) \<and> rs_Status r = Ok"
proof -
  let ?q = "NewRequest\<lparr>rq_Method := Options, rq_URI := ''*''\<rparr>" and ?extra = "[''Public'' \<mapsto> join '' '' (GetMethods (ho_methods h))]"
  have "handleOptions h (seen c ?q) (initial_response (seen c ?q)) la ra a = (Ret (answered (seen c ?q) ?extra), a)"
    by (simp add: handleOptions_def answered_def NewRequest_def)
  then have "Send ord (server_peer (sv_handlers (airplay_handlers h ks ops port)) ord la ra) ?q (c, a) =
      (Ret (answered (seen c ?q) ?extra), (c\<lparr>cl_seq := cl_seq c + 1\<rparr>, a))"
    using assms(1) wire_field_Public [OF assms(2)]
    by (intro handshake_request_served [where h = "handleOptions h"])
      (simp_all add: airplay_handler_table handshake_methods NewRequest_def max_alloc_def)
  then show ?thesis by (intro exI [of _ "answered (seen c ?q) ?extra"]) simp
qed

text \<open>What the client announces is what the server gets.\<close>

lemma announced_wire:
  assumes "is_word localAddr" and "length localAddr + length (Itoa now) \<le> 60000" and "ev_local env = localAddr" and "ev_now env = now"
  shows "wire_session [''rtpmap''] (announced env NewSessionDescription)"
proof -
  have "is_word (Itoa now)" by (simp add: is_word_def take_word_Itoa)
  moreover have "list_all is_word [''bcp'', ''0'', ''IN'', ''IP4'', ''audio'', ''RTP/AVP'', ''96'']" by code_simp
  ultimately show ?thesis
    using assms
    by (simp add: wire_session_def announced_def NewSessionDescription_def wire_origin_def wire_connect_def wire_media_def wire_attribute_def
        int64_range_def write_lines_def max_token_def origin_line_def connect_line_def media_line_def attribute_line_def Itoa_def
        show_dec.simps)
qed

text \<open>The session that ANNOUNCE creates, and what SETUP and RECORD make of it.\<close>

definition announced_session :: "session_description \<Rightarrow> int \<Rightarrow> session" where
  "announced_session sd d =
     (NewSession sd None)\<lparr>se_dataConn := True, se_LocalPorts := no_ports\<lparr>ps_Data := d\<rparr>\<rparr>"

definition set_up_session :: "string \<Rightarrow> session \<Rightarrow> session" where
  "set_up_session ra s =
     s\<lparr>se_RemotePorts := (se_RemotePorts s)\<lparr>ps_Address := ra, ps_Control := 8888, ps_Timing := 8889\<rparr>,
       se_LocalPorts := (se_LocalPorts s)\<lparr>ps_Control := 6001, ps_Timing := 6002\<rparr>\<rparr>"

lemma range_order_single:
  assumes "range_order ks [k \<mapsto> v]"
  shows "ks = [k]"
  using assms by (cases ks) (auto simp: range_order_def insert_ident subset_singleton_iff dest: subset_singletonD)

lemma is_word_token:
  assumes "is_word w"
  shows "wire_token w"
proof -
  have "take_word w = w \<Longrightarrow> SP \<notin> set w \<and> LF \<notin> set w \<and> CR \<notin> set w" for w
  proof (induction w)
    case (Cons x w)
    then have "rune_prefix space_runes (x # w) = 0" by (auto split: if_splits)
    then show ?case using Cons rune_prefix_hd [of space_runes "x # w"] ascii_space_runes by (auto split: if_splits)
  qed simp
  with assms show ?thesis by (simp add: is_word_def wire_token_def)
qed

lemma announce_served:
  assumes "visits ord" and "ev_ord env = ord" and "is_word (ev_local env)"
    and "length (ev_local env) + length (Itoa (ev_now env)) \<le> 60000"
    and "DiscoverDacpClient h [] [] = Ret client" and "ho_listen h = Ret listening"
    and "Atoi (last (split_on (CHR '':'') listening)) = (d, None)" and "ap_sessions a = Map.empty"
  shows "\<exists>r. Send ord (server_peer (sv_handlers (airplay_handlers h [] ops port)) ord la ra)
      (announce_request env (announced env NewSessionDescription)) (c, a) =
      (Ret r, (c\<lparr>cl_seq := cl_seq c + 1\<rparr>, a\<lparr>ap_sessions :=
        [ra \<mapsto> \<lparr>as_session = announced_session (announced env NewSessionDescription) d, as_client = client\<rparr>]\<rparr>)) \<and> rs_Status r = Ok"
proof -
  let ?sd = "announced env NewSessionDescription" and ?q = "announce_request env (announced env NewSessionDescription)"
  let ?a = "a\<lparr>ap_sessions := [ra \<mapsto> \<lparr>as_session = announced_session ?sd d, as_client = client\<rparr>]\<rparr>"
  have attrs: "sd_Attributes ?sd = [''rtpmap'' \<mapsto> ''96 AppleLossless'']" by (simp add: announced_def)
  have "range_order (ord (sd_Attributes ?sd)) (sd_Attributes ?sd)"
    using assms(1) by (simp add: visits_def attrs handshake_keys_def)
  then have ks: "ord (sd_Attributes ?sd) = [''rtpmap'']" unfolding attrs by (rule range_order_single)
  have wire: "wire_session [''rtpmap''] ?sd" by (rule announced_wire [OF assms(3,4) refl refl])
  have q: "rq_Body ?q = Write [''rtpmap''] ?sd" "rq_Headers ?q = [''Content-Type'' \<mapsto> ''application/sdp'']" "rq_Method ?q = Announce"
    "rq_URI ?q = ''rtsp://'' @ ev_local env @ ''/'' @ Itoa (ev_now env)" "rq_protocol ?q = ''RTSP/1.0''"
    using ks by (simp_all add: announce_request_def assms(2) NewRequest_def)
  have "Parse (rq_Body ?q) = Ret ?sd"
    unfolding q(1) using wire by (intro Parse_Write) (simp_all add: attrs range_order_def)
  then have "handleAnnounce h [] (seen c ?q) (initial_response (seen c ?q)) la ra a = (Ret (answered (seen c ?q) Map.empty), ?a)"
    using assms(5-8)
    by (simp add: handleAnnounce_def get_def q(2) or_status_def bindP_def closeAllSessions_def as_getSessions_def announced_decrypter_def
        attrs InitReceive_def NewSession_def add_session_eq liftR_def answered_plain announced_session_def)
  moreover have "wire_field ''Content-Type'' ''application/sdp''" by code_simp
  moreover have "int (length (rq_Body ?q)) \<le> max_alloc"
    using assms(4) unfolding q(1)
    by (simp add: Write_def write_lines_def announced_def NewSessionDescription_def origin_line_def connect_line_def media_line_def
        attribute_line_def max_alloc_def crlf_def Itoa_def [of 0] show_dec.simps [of 0])
  moreover have "wire_token (ev_local env)" using assms(3) by (rule is_word_token)
  ultimately have "Send ord (server_peer (sv_handlers (airplay_handlers h [] ops port)) ord la ra) ?q (c, a) =
      (Ret (answered (seen c ?q) Map.empty), (c\<lparr>cl_seq := cl_seq c + 1\<rparr>, ?a))"
    using assms(1)
    by (intro handshake_request_served [where h = "handleAnnounce h []"])
      (simp_all add: airplay_handler_table handshake_methods q(2-5))
  then show ?thesis by (intro exI [of _ "answered (seen c ?q) Map.empty"]) simp
qed

lemma setup_transport:
  "transport_ports (split_on (CHR '';'')
     ''RTP/AVP/UDP;unicast;interleaved=0-1;mode=record;control_port=8888;timing_port=8889'') (0, 0) = Ret (8888, 8889)"
  by code_simp

lemma setup_served:
  assumes "visits ord" and "wire_token (session_uri env s)" and "ap_sessions a ra = Some as"
    and "int64_range (ps_Data (se_LocalPorts (as_session as)))"
  shows "\<exists>r. Send ord (server_peer (sv_handlers (airplay_handlers h ks ops port)) ord la ra) (setup_request env s) (c, a) =
      (Ret r, (c\<lparr>cl_seq := cl_seq c + 1\<rparr>, a\<lparr>ap_sessions := (ap_sessions a)(ra \<mapsto>
        as\<lparr>as_session := set_up_session ra (as_session as)\<rparr>)\<rparr>)) \<and> rs_Status r = Ok
    \<and> setup_ports (split_on (CHR '';'') (get (rs_Headers r) ''Transport'')) (0, 0, 0) =
      Ret (6001, 6002, ps_Data (se_LocalPorts (as_session as)))"
proof -
  let ?q = "setup_request env s" and ?d = "ps_Data (se_LocalPorts (as_session as))"
  let ?a = "a\<lparr>ap_sessions := (ap_sessions a)(ra \<mapsto> as\<lparr>as_session := set_up_session ra (as_session as)\<rparr>)\<rparr>"
  let ?extra = "[''Transport'' \<mapsto> transport_text ?d, ''Session'' \<mapsto> ''1'', ''Audio-Jack-Status'' \<mapsto> ''connected'']"
  have q: "rq_Headers ?q = [''Transport'' \<mapsto> ''RTP/AVP/UDP;unicast;interleaved=0-1;mode=record;control_port=8888;timing_port=8889'']"
    "rq_Method ?q = Setup" "rq_URI ?q = session_uri env s" "rq_protocol ?q = ''RTSP/1.0''" "rq_Body ?q = []"
    by (simp_all add: setup_request_def NewRequest_def)
  have "handleSetup (seen c ?q) (initial_response (seen c ?q)) la ra a = (Ret (answered (seen c ?q) ?extra), ?a)"
    using assms(3)
    by (simp add: handleSetup_def q(1) setup_transport as_getSession_def answered_def set_up_session_def localControlPort_def
        localTimingPort_def Let_def del: split_on.simps transport_ports.simps)
  moreover have "wire_field ''Transport'' (the (rq_Headers ?q ''Transport''))" "wire_field ''Session'' ''1''"
    "wire_field ''Audio-Jack-Status'' ''connected''"
    unfolding q(1) by code_simp+
  moreover note transport_answer_ports(2) [OF assms(4)]
  ultimately have "Send ord (server_peer (sv_handlers (airplay_handlers h ks ops port)) ord la ra) ?q (c, a) =
      (Ret (answered (seen c ?q) ?extra), (c\<lparr>cl_seq := cl_seq c + 1\<rparr>, ?a))"
    using assms(1,2)
    by (intro handshake_request_served [where h = handleSetup])
      (auto simp: airplay_handler_table handshake_methods q max_alloc_def split: if_splits)
  then show ?thesis
    using transport_answer_ports(1) [OF assms(4)]
    by (intro exI [of _ "answered (seen c ?q) ?extra"]) (simp add: get_def)
qed

lemma record_served:
  assumes "visits ord" and "wire_token (session_uri env s)" and "ap_sessions a ra = Some as" and "se_dataConn (as_session as)"
    and "pl_Play ops ((as_session as)\<lparr>se_receivers := se_receivers (as_session as) + 1\<rparr>) (ap_player a) = (Ret (), p)"
  shows "\<exists>r. Send ord (server_peer (sv_handlers (airplay_handlers h ks ops port)) ord la ra) (record_request env s) (c, a) =
      (Ret r, (c\<lparr>cl_seq := cl_seq c + 1\<rparr>, a\<lparr>ap_sessions := (ap_sessions a)(ra \<mapsto>
        as\<lparr>as_session := (as_session as)\<lparr>se_receivers := se_receivers (as_session as) + 1\<rparr>\<rparr>), ap_player := p\<rparr>)) \<and> rs_Status r = Ok"
proof -
  let ?q = "record_request env s" and ?extra = "[''Audio-Latency'' \<mapsto> ''2205'']"
  let ?a = "a\<lparr>ap_sessions := (ap_sessions a)(ra \<mapsto>
        as\<lparr>as_session := (as_session as)\<lparr>se_receivers := se_receivers (as_session as) + 1\<rparr>\<rparr>), ap_player := p\<rparr>"
  have q: "rq_Headers ?q = Map.empty" "rq_Method ?q = Record" "rq_URI ?q = session_uri env s" "rq_protocol ?q = ''RTSP/1.0''" "rq_Body ?q = []"
    by (simp_all add: record_request_def NewRequest_def)
  have "handleRecord ops (seen c ?q) (initial_response (seen c ?q)) la ra a = (Ret (answered (seen c ?q) ?extra), ?a)"
    using assms(3-5)
    by (simp add: handleRecord_def as_getSession_def StartReceiving_def on_player_def bindP_def answered_def)
  moreover have "wire_field ''Audio-Latency'' ''2205''" by code_simp
  ultimately have "Send ord (server_peer (sv_handlers (airplay_handlers h ks ops port)) ord la ra) ?q (c, a) =
      (Ret (answered (seen c ?q) ?extra), (c\<lparr>cl_seq := cl_seq c + 1\<rparr>, ?a))"
    using assms(1,2)
    by (intro handshake_request_served [where h = "handleRecord ops"])
      (simp_all add: airplay_handler_table handshake_methods q max_alloc_def)
  then show ?thesis by (intro exI [of _ "answered (seen c ?q) ?extra"]) simp
qed

section \<open>Properties\<close>

text \<open>
  C29. A speaker connects to another one: \<^verbatim>\<open>EstablishSession\<close> of this program against the AirPlay server of
  this program, over the wire, succeeds with the server as it is before its first session, and both
  ends agree. The client's session has the server's ports: the port of the socket that ANNOUNCE
  opened, 6001 and 6002. The server has exactly one session, that of the client's address, with the
  description that the client announced, no decryption, the client's ports 8888 and 8889, and one
  receiver; and its player has been given that session to play. For an iteration order of maps, a
  local address without white space, a discovery that returns, a socket that opens, and a player
  that takes the session.
\<close>

theorem speaker_connects_to_speaker:
  fixes a :: "'p airplay" and ops :: "'p player_ops" and h :: host and ord :: "(string \<rightharpoonup> string) \<Rightarrow> string list"
    and port now d :: int and localAddr remoteAddr :: string
  defines "env \<equiv> speaker_env h [] ops port ord now localAddr remoteAddr"
  defines "sd \<equiv> announced env NewSessionDescription"
  defines "s \<equiv> set_up_session localAddr (announced_session sd d)"
  assumes "visits ord" and "is_word localAddr" and "length localAddr + length (Itoa now) \<le> 60000"
    and "set (ho_methods h) \<subseteq> fst ` set method_entries"
    and "DiscoverDacpClient h [] [] = Ret client" and "ho_listen h = Ret listening"
    and "Atoi (last (split_on (CHR '':'') listening)) = (d, None)" and "int64_range d"
    and "ap_sessions a = Map.empty" and "pl_Play ops (s\<lparr>se_receivers := 1\<rparr>) (ap_player a) = (Ret (), p)"
  shows "\<exists>session a'. EstablishSession env (Ret ()) a = (Ret session, a')
    \<and> se_Description session = sd
    \<and> se_RemotePorts session = \<lparr>ps_Address = remoteAddr, ps_Control = 6001, ps_Timing = 6002, ps_Data = d\<rparr>
    \<and> ap_sessions a' = [localAddr \<mapsto> \<lparr>as_session = s\<lparr>se_receivers := 1\<rparr>, as_client = client\<rparr>]
    \<and> se_Description s = sd \<and> se_decrypter s = None
    \<and> se_RemotePorts s = \<lparr>ps_Address = localAddr, ps_Control = 8888, ps_Timing = 8889, ps_Data = 0\<rparr>
    \<and> se_LocalPorts s = \<lparr>ps_Address = [], ps_Control = 6001, ps_Timing = 6002, ps_Data = d\<rparr>
    \<and> ap_player a' = p"
proof -
  have env: "ev_ord env = ord" "ev_local env = localAddr" "ev_now env = now" "ev_remote env = remoteAddr"
    "ev_peer env = server_peer (sv_handlers (airplay_handlers h [] ops port)) ord remoteAddr localAddr"
    by (simp_all add: env_def speaker_env_def)
  let ?a1 = "a\<lparr>ap_sessions := [localAddr \<mapsto> \<lparr>as_session = announced_session sd d, as_client = client\<rparr>]\<rparr>"
  let ?a2 = "a\<lparr>ap_sessions := [localAddr \<mapsto> \<lparr>as_session = s, as_client = client\<rparr>]\<rparr>"
  let ?a3 = "a\<lparr>ap_sessions := [localAddr \<mapsto> \<lparr>as_session = s\<lparr>se_receivers := 1\<rparr>, as_client = client\<rparr>], ap_player := p\<rparr>"
  let ?s1 = "NewSession sd None" and ?send = "Send (ev_ord env) (ev_peer env)"
  have s: "ps_Data (se_LocalPorts (announced_session sd d)) = d" "se_dataConn s" "se_receivers s = 0"
    by (simp_all add: announced_session_def s_def set_up_session_def NewSession_def)
  have "or_SessionID (sd_Origin sd) = Itoa now" by (simp add: sd_def announced_def env)
  then have uri: "wire_token (session_uri env ?s1)"
    using is_word_token [OF assms(5)] by (simp add: session_uri_def NewSession_def env)
  obtain r1 where r1: "?send (NewRequest\<lparr>rq_Method := Options, rq_URI := ''*''\<rparr>) (fresh_client, a) = (Ret r1, (fresh_client\<lparr>cl_seq := 2\<rparr>, a))"
    "rs_Status r1 = Ok"
    using options_served [OF assms(4,7), of "[]" ops port remoteAddr localAddr fresh_client a] by (auto simp: env fresh_client_def)
  obtain r2 where r2: "?send (announce_request env sd) (fresh_client\<lparr>cl_seq := 2\<rparr>, a) = (Ret r2, (fresh_client\<lparr>cl_seq := 3\<rparr>, ?a1))"
    "rs_Status r2 = Ok"
    using announce_served [OF assms(4) env(1) _ _ assms(8-10,12), of ops port remoteAddr localAddr "fresh_client\<lparr>cl_seq := 2\<rparr>"] assms(5,6)
    by (auto simp: env sd_def)
  obtain r3 where r3: "?send (setup_request env ?s1) (fresh_client\<lparr>cl_seq := 3\<rparr>, ?a1) = (Ret r3, (fresh_client\<lparr>cl_seq := 4\<rparr>, ?a2))"
    "rs_Status r3 = Ok" "setup_ports (split_on (CHR '';'') (get (rs_Headers r3) ''Transport'')) (0, 0, 0) = Ret (6001, 6002, d)"
    using setup_served [OF assms(4) uri, of ?a1 localAddr _ h "[]" ops port remoteAddr "fresh_client\<lparr>cl_seq := 3\<rparr>"] assms(11)
    by (auto simp: env s s_def)
  obtain r4 where r4: "?send (record_request env ?s1) (fresh_client\<lparr>cl_seq := 4\<rparr>, ?a2) = (Ret r4, (fresh_client\<lparr>cl_seq := 5\<rparr>, ?a3))"
    "rs_Status r4 = Ok"
    using record_served [OF assms(4) uri, of ?a2 localAddr _ ops p h "[]" port remoteAddr "fresh_client\<lparr>cl_seq := 4\<rparr>"] assms(13) s(2,3)
    by (auto simp: env)
  have "EstablishSession env (Ret ()) a = (Ret (?s1\<lparr>se_RemotePorts :=
      \<lparr>ps_Address = remoteAddr, ps_Control = 6001, ps_Timing = 6002, ps_Data = d\<rparr>\<rparr>), ?a3)"
    using r1 r2 r3 r4 unfolding establish_session_iff env(4) [symmetric] sd_def [symmetric] by blast
  then show ?thesis
    by (intro exI conjI) (auto simp: s_def set_up_session_def announced_session_def NewSession_def no_ports_def)
qed

text \<open>The witness: a speaker without sessions, at a socket on port 49152.\<close>

definition key_order :: "(string \<rightharpoonup> string) \<Rightarrow> string list" where
  "key_order hs = filter (\<lambda>k. hs k \<noteq> None) handshake_keys"

lemma key_order_visits: "visits key_order"
proof -
  have "distinct handshake_keys" by code_simp
  then show ?thesis by (auto simp: visits_def range_order_def key_order_def)
qed

theorem speaker_connects_to_speaker_witness:
  "\<exists>session a'. EstablishSession (speaker_env sample_host [] local_player_ops 5000 key_order 77 ''10.0.0.1'' ''10.0.0.7'') (Ret ())
      (NewAirplayServer 5000 ''den'' NewLocalPlayer) = (Ret session, a')
    \<and> se_RemotePorts session = \<lparr>ps_Address = ''10.0.0.7'', ps_Control = 6001, ps_Timing = 6002, ps_Data = 49152\<rparr>
    \<and> dom (ap_sessions a') = {''10.0.0.1''}"
proof -
  have "length ''10.0.0.1'' + length (Itoa 77) = 10" by (simp add: Itoa_def show_dec.simps)
  then have 0: "length ''10.0.0.1'' + length (Itoa 77) \<le> 60000" by simp
  have 1: "is_word ''10.0.0.1''" "Atoi (last (split_on (CHR '':'') ''[::]:49152'')) = (49152, None)" "int64_range 49152"
    by code_simp+
  have 2: "set (ho_methods sample_host) \<subseteq> fst ` set method_entries" "DiscoverDacpClient sample_host [] [] = Ret None"
    "ho_listen sample_host = Ret ''[::]:49152''"
    by (simp_all add: sample_host_def DiscoverDacpClient_def)
  have 3: "pl_Play local_player_ops x p = (Ret (), p)" "ap_sessions (NewAirplayServer 5000 ''den'' p) = Map.empty" for x p
    by (simp_all add: local_player_ops_def NewAirplayServer_def)
  obtain session a' where "EstablishSession (speaker_env sample_host [] local_player_ops 5000 key_order 77 ''10.0.0.1'' ''10.0.0.7'') (Ret ())
      (NewAirplayServer 5000 ''den'' NewLocalPlayer) = (Ret session, a')"
    "se_RemotePorts session = \<lparr>ps_Address = ''10.0.0.7'', ps_Control = 6001, ps_Timing = 6002, ps_Data = 49152\<rparr>"
    "\<exists>x. ap_sessions a' = [''10.0.0.1'' \<mapsto> x]"
    using speaker_connects_to_speaker [OF key_order_visits 1(1) 0 2 1(2,3) 3(2) 3(1)] by blast
  then show ?thesis by (intro exI [of _ session] exI [of _ a']) (auto split: if_splits)
qed

end
