(* ===== verification/Spec2Isabelle.thy ===== *)
theory Spec2Isabelle
  imports Mgmt_Members Mgmt_Follower Startup Rtsp_Connections Replication Connect
begin

text \<open>
  Bobcaygeon: a multi-room AirPlay system.

  \<^bold>\<open>The program.\<close> A speaker (\<^verbatim>\<open>cmd/bcg.go\<close>) is a process with an AirPlay server
  (\<^verbatim>\<open>raop/airplay.go\<close>) on top of an RTSP server (\<^verbatim>\<open>rtsp\<close>), a forwarding player
  (\<^verbatim>\<open>player/forwarding\<close>) that plays what it is sent and passes it on to other speakers through the
  AirPlay client (\<^verbatim>\<open>raop/client.go\<close>), and a gRPC service (\<^verbatim>\<open>api/handler.go\<close>). Speakers and
  management nodes find each other by gossip (\<^verbatim>\<open>cluster\<close>). A management node
  (\<^verbatim>\<open>cmd/mgmt/bcg-mgmt.go\<close>) groups speakers into zones: its service (\<^verbatim>\<open>cmd/mgmt/raft/service.go\<close>)
  keeps zones and display names in a replicated store (\<^verbatim>\<open>cmd/mgmt/raft/store.go\<close>) and imposes them
  on the speakers by remote calls. A frontend node (\<^verbatim>\<open>cmd/frontend\<close>) tells a proxy where the
  management nodes are. Paths below are relative to \<^verbatim>\<open>src/\<close>.

  \<^bold>\<open>How the code is rendered.\<close> A Go function that may fail is a value of \<open>res\<close> (return, error,
  panic, end of the process, blocking for ever), one that changes state a \<open>proc\<close> over that state,
  which is kept on every outcome. Structs are records with the source's field names behind a short
  prefix; a pointer that may be nil is an option. A Go \<^verbatim>\<open>map\<close> is a partial function, and every loop
  over one takes the order of the visit as an argument. Machine integers are words where they may
  wrap around (lengths in DAAP, snapshot versions, samples, the client's sequence number); bytes
  are characters. Libraries are parameters: records of functions for what a component meets
  outside (\<open>host\<close>, \<open>net\<close>, \<open>env\<close>, \<open>raft_lib\<close>, \<open>mgmt_env\<close>), in which an answer may depend on how many calls
  came before, so that failures and changes of leadership fall anywhere.

  \<^bold>\<open>The theories.\<close>
  \<^item> \<open>Prelude\<close>: outcomes, sequencing, preservation of invariants along a \<open>proc\<close>, orders of iteration.
    \<open>Go_Strings\<close>: the functions of \<^verbatim>\<open>strings\<close> and \<^verbatim>\<open>strconv\<close> that the program calls.
  \<^item> \<open>Rtsp_Types\<close> (\<^verbatim>\<open>rtsp/rtsp.go\<close>, \<^verbatim>\<open>methods.go\<close>, \<^verbatim>\<open>status.go\<close>), \<open>Rtsp_Parser\<close> (\<^verbatim>\<open>rtsp/parser.go\<close>),
    \<open>Rtsp_Server\<close> (\<^verbatim>\<open>rtsp/server.go\<close>, \<^verbatim>\<open>client.go\<close>): messages, reading and writing them over a buffered
    connection, the connection loop, \<^verbatim>\<open>Send\<close>. \<open>Rtsp_Connections\<close>: accepting connections, and the step relation
    \<open>srv_step\<close> that interleaves the goroutines that serve them, inside their handlers too: a handler is a tree of
    actions on the shared state (\<open>activity\<close>). The buffered readers refine parsers on plain strings
    (locales \<open>stream_reader\<close> and \<open>stream_codec\<close>, interpreted for requests and for responses); what is
    written is read back; the connection loop answers in order, on each of many interleaved connections,
    and serving comes to an end in every schedule.
  \<^item> \<open>Sdp\<close> (\<^verbatim>\<open>sdp\<close>), \<open>Daap\<close> (\<^verbatim>\<open>raop/daap.go\<close>), \<open>Crypto\<close> (\<^verbatim>\<open>raop/crypto.go\<close>, \<^verbatim>\<open>decrypter.go\<close>), \<open>Volume\<close>
    (volumes and samples in \<^verbatim>\<open>float64\<close> with its rounding): round trips, the exact inputs on which the
    parsers fail, bounds.
  \<^item> \<open>Session\<close> (\<^verbatim>\<open>rtsp/session.go\<close>; closing a session is a step relation on the caller and the receivers), \<open>Player\<close> (\<^verbatim>\<open>player/player.go\<close>, \<^verbatim>\<open>codec.go\<close>), \<open>Cluster\<close>
    (\<^verbatim>\<open>cluster/cluster.go\<close>), \<open>Handshake\<close> (\<^verbatim>\<open>raop/client.go\<close>): the parts of a streaming connection. The
    interface \<^verbatim>\<open>Player\<close> is the record \<open>player_ops\<close>, its contract the locale \<open>player\<close>.
  \<^item> \<open>Forwarding\<close> (\<^verbatim>\<open>player/forwarding/forwardingPlayer.go\<close>): the goroutines of the player as pending
    tasks, and the step relation \<open>fstep\<close> that interleaves them with operations; locale \<open>session_table\<close>.
  \<^item> \<open>Airplay\<close> (\<^verbatim>\<open>raop/airplay.go\<close>, \<^verbatim>\<open>dacp.go\<close>): session table, advertising, the RTSP handlers, and \<^verbatim>\<open>Start\<close> and
    \<^verbatim>\<open>Stop\<close> by their steps.
  \<^item> \<open>Speaker_API\<close> (\<^verbatim>\<open>api/handler.go\<close>): the requests of the management service to a speaker; the locale
    \<open>speaker_contract\<close> says how each changes what can be told about the speaker from outside (\<open>view\<close>).
  \<^item> \<open>Relay\<close>: what a leading speaker forwards, from the goroutine over the RTSP client and the connection
    loop to the handlers and the player of another speaker; \<open>Connect\<close>: the handshake by which it connects
    to that speaker. Both are compositions of the theories above.
  \<^item> \<open>Store\<close> (\<^verbatim>\<open>cmd/mgmt/raft/store.go\<close>): the state machine, its operations and snapshots; locale
    \<open>replicated_map\<close>. \<open>Replication\<close>: a cluster of such stores that share a log, as the step relation
    \<open>cluster_step\<close>: nodes save, fail to save, lag behind, install snapshots and start again.
  \<^item> \<open>Mgmt_API\<close> (\<^verbatim>\<open>cmd/mgmt/api/handler.go\<close>, \<^verbatim>\<open>service/service.go\<close>), \<open>Mgmt_Service\<close>
    (\<^verbatim>\<open>cmd/mgmt/raft/service.go\<close>): the API over a service interface, and the service, with a call
    that reaches a node that does not lead passed on to the leader. \<open>Mgmt_Invariant\<close> proves what holds
    in every environment, \<open>Mgmt_Zones\<close> what the operations do to a healthy cluster, by rules that
    compose along the code (\<open>runs\<close>, \<open>fails\<close>) over the views of the speakers and the configuration, and
    \<open>Mgmt_Members\<close> the same for speakers that are added or come back; \<open>Mgmt_Follower\<close> compares a call to
    a node that does not lead with the same call to its leader.
  \<^item> \<open>Control_Plane\<close> (\<^verbatim>\<open>cmd/frontend/control/control.go\<close>): the Envoy resources, endpoints and snapshots;
    locale \<open>registry\<close>. \<open>Node_Config\<close>: what the three programs share at their start, configuration file,
    node name, search for a cluster. \<open>Frontend\<close> (\<^verbatim>\<open>cmd/frontend/bcg-frontend.go\<close>) and \<open>Startup\<close>
    (\<^verbatim>\<open>cmd/bcg.go\<close>, \<^verbatim>\<open>cmd/mgmt/bcg-mgmt.go\<close>): \<^verbatim>\<open>main\<close> of each program, roles, notifications; the end of a
    speaker's \<^verbatim>\<open>main\<close> next to its server goroutines is the step relation \<open>speaker_step\<close>.

  \<^bold>\<open>What is shown.\<close> Across components: a zone that is created plays together (below), and a change of
  track, artwork or volume on its leader arrives in the players of the others (\<open>Relay\<close>), to which it can
  connect (\<open>Connect\<close>). For the service:
  zones are formed, extended, deleted, taken over by the next speaker and rejoined by one that comes
  back; an operation that reports an error leaves the configuration as it was; every zone stays under
  its own ID through any history; a follower answers as its leader does. For the
  store: a snapshot with the rest of the log equals the log, in every run of a cluster each node holds
  what the entries it has applied make, and what is saved is read on every node that has come as far.
  For the speakers: requests refine the view, forwarding sessions stay open under every interleaving.
  For the operations of the control plane, on one that has a cache: its snapshot stays complete and lists
  the management nodes that are members. For the programs: names are kept, the search of the frontend
  ends exactly when a search finds something or fails, a speaker ends by itself in every schedule. For
  the protocols: round trips, independence from how a stream is cut, order under every interleaving of
  connections, an end of every service, how many receivers a session needs to be closed, and the inputs
  that end in an error, a panic or a blocked goroutine. Several theorems state
  behaviour that the code does not mean to have; their text names the cause.

  \<^bold>\<open>Assumptions and bounds.\<close> Loops follow the length of their input or, for the connection loop, the
  bytes left to read; no definition uses fuel. The loop of the frontend that may not end is a partial
  function (\<open>Node_Config.search_from\<close>). Loops that wait for something are given the list of
  what they observe. The buffer of \<^verbatim>\<open>bufio\<close> has its 4096 bytes, the scanner's its 64 KiB, \<^verbatim>\<open>Atoi\<close> its
  64-bit range. A goroutine of the forwarding player runs in one step, and so do the handlers where the
  server is used as a function (\<open>serve\<close>, which is one schedule of the step relation, \<open>serve_runs\<close>). A
  number that \<^verbatim>\<open>ParseFloat\<close> reads with 32 bits is rounded to them (\<open>Volume.rnd32\<close>). A write to a file that
  fails is taken to leave the file as it was. The constructors are those of the code: \<^verbatim>\<open>NewPlayer\<close>
  returns nil and \<^verbatim>\<open>NewControlPlane\<close> creates no cache, so that theorems about a player or a cache are about
  the methods, under the hypothesis that there is one. The consensus library (\<open>Replication.raft_answers\<close>) gives every node the entries of one log in
  order; a command it reports as failed may be committed all the same. A healthy cluster
  (\<open>Mgmt_Zones.healthy\<close>) is one in which the node asked leads, calls arrive, the consensus library
  applies what it is given, and every music node is reachable at the addresses it announces.

  \<^bold>\<open>Not modelled.\<close> Sockets, the file system beyond reading and writing the configuration, and logging; the gossip, gRPC, consensus, mDNS, TOML, Envoy, audio and cipher libraries
  (parameters); JSON and gob, whose messages are kept decoded; the web assets and the generated gRPC
  stubs; the constants of the RSA key. Time-outs appear only as outcomes.

  \<^bold>\<open>Left to do.\<close> The service on several nodes at once: \<open>Mgmt_Service\<close> runs on one store, and \<open>Replication\<close>
  says how that store relates to the others. The reordering of packets inside the network and by the
  goroutines of one packet for several speakers.
\<close>

section \<open>From a zone to its sound\<close>

text \<open>
  The network is up when the first attempt to establish a session succeeds, its data connection
  opens, and a control request is answered. \<open>run_tasks\<close> runs goroutines of a speaker one after the
  other, until one of them ends the process.
\<close>

definition network_up :: "net \<Rightarrow> bool" where
  "network_up net \<longleftrightarrow> (\<forall>ip port. \<exists>s. nt_establish net ip port 0 = Ret s
     \<and> nt_dial net (ps_Address (se_RemotePorts s)) (ps_Data (se_RemotePorts s)) = Ret ())
   \<and> (\<forall>ip port q. is_ret (nt_send net ip port q))"

definition run_tasks :: "net \<Rightarrow> string list \<Rightarrow> string list \<Rightarrow> task list \<Rightarrow> (fworld, unit) proc" where
  "run_tasks net ks dord = for_each (\<lambda>t w. snd (run_task net ks dord t w))"

definition track_fields :: "string set" where
  "track_fields = {''daap.songalbum'', ''dmap.itemname'', ''daap.songartist''}"

lemma encode_track_items:
  "set ks \<subseteq> track_fields \<Longrightarrow> is_ret (encode_items m ks buf)"
proof (induction ks arbitrary: buf)
  case (Cons k ks)
  then have "k \<in> track_fields" by simp
  then have "ct_cType (getContentTypeForName k) = ''string''"
    unfolding track_fields_def by (elim insertE emptyE) (simp_all, code_simp+)
  then have "\<exists>b. encode_item k (the (m k)) = Ret b" by (simp add: encode_item_def Let_def)
  then show ?case using Cons by auto
qed simp

lemma task_request_ends:
  assumes "set dord \<subseteq> track_fields"
  shows "is_ret (task_request net dord t localAddress) \<or> (\<exists>e. task_request net dord t localAddress = Err e)"
proof (cases t)
  case (ForwardTrack album artist title)
  obtain b where "EncodeDaap dord [''daap.songalbum'' \<mapsto> DString album, ''dmap.itemname'' \<mapsto> DString title,
      ''daap.songartist'' \<mapsto> DString artist] = Ret b"
    unfolding EncodeDaap_def using encode_track_items [OF assms] by (metis is_ret.elims(2))
  with ForwardTrack show ?thesis by simp
qed simp_all

lemma forward_all_ends:
  assumes "\<And>ip port q. is_ret (nt_send net ip port q)"
    and "\<And>l. is_ret (build l) \<or> (\<exists>e. build l = Err e)"
  shows "snd (forward_all net build ss) = Ret ()"
proof (induction ss)
  case (Cons s ss)
  let ?address = "ps_Address (se_RemotePorts (cs_session s))"
  show ?case
  proof (cases "nt_connect net ?address (cs_rtspPort s)")
    case (Some l)
    consider (req) q resp where "build l = Ret q" "nt_send net ?address (cs_rtspPort s) q = Ret resp"
      | (skip) e where "build l = Err e"
      using assms by (metis is_ret.elims(2))
    then show ?thesis by cases (use Some Cons in \<open>simp_all add: Let_def\<close>)
  qed (use Cons in \<open>simp add: Let_def\<close>)
qed simp

lemma run_task_up:
  assumes "network_up net" and "set dord \<subseteq> track_fields" and "fw_player w = Some p"
  shows "\<exists>w' p'. snd (run_task net ks dord t w) = (Ret (), w') \<and> fw_player w' = Some p'
    \<and> dom (fp_sessions p') = dom (fp_sessions p) \<union> session_target t"
proof (cases t)
  case (InitSession name ip port)
  from assms(1) obtain s where "nt_establish net ip port 0 = Ret s"
    "nt_dial net (ps_Address (se_RemotePorts s)) (ps_Data (se_RemotePorts s)) = Ret ()"
    unfolding network_up_def by blast
  with assms(3) InitSession show ?thesis by (simp add: initSession_def StartSending_def addSession_def)
next
  case (ForwardPacket pkt)
  with assms(3) show ?thesis by simp
qed (use assms(1,3) forward_all_ends [of net "task_request net dord t", OF _ task_request_ends [OF assms(2)]]
      in \<open>simp add: network_up_def case_prod_unfold\<close>)+

lemma run_tasks_up:
  assumes "network_up net" and "set dord \<subseteq> track_fields" and "fw_player w = Some p"
  shows "\<exists>w' p'. run_tasks net ks dord ts w = (Ret (), w') \<and> fw_player w' = Some p'
    \<and> dom (fp_sessions p') = dom (fp_sessions p) \<union> \<Union> (session_target ` set ts)"
  using assms(3)
proof (induction ts arbitrary: w p)
  case Nil
  then show ?case by (simp add: run_tasks_def retP_def)
next
  case (Cons t ts)
  obtain w1 p1 where t: "snd (run_task net ks dord t w) = (Ret (), w1)" "fw_player w1 = Some p1"
    "dom (fp_sessions p1) = dom (fp_sessions p) \<union> session_target t"
    using run_task_up [OF assms(1,2) Cons.prems] by blast
  have "run_tasks net ks dord (t # ts) w = run_tasks net ks dord ts w1"
    using t(1) by (simp add: run_tasks_def bindP_def)
  with Cons.IH [OF t(2)] t(3) show ?case by (simp add: Un_assoc)
qed

text \<open>
  C1. A zone plays together. In a healthy cluster whose network is up, for a non-empty list of music
  nodes: after \<^verbatim>\<open>CreateZone\<close> and once the goroutines that its leader has started have run, in
  whatever order and none of them ending the process, the leader holds sessions with exactly the other speakers of the zone (and those
  it was still connecting to before, be they in the zone or not), so every packet and every change it forwards goes to
  the whole zone; the other speakers of the zone hold none, and are not advertised.
\<close>

theorem zone_plays_together:
  assumes "healthy env w" and "set ids \<subseteq> music_names env" and "ids \<noteq> []" and "network_up net"
    and "set dord \<subseteq> track_fields" and "views w (hd ids) = Some before"
  shows "\<exists>w' leader. CreateZone env displayName ids w = (Ret (Itoa (me_random env)), w')
    \<and> mw_speakers w' (hd ids) = Some leader
    \<and> (\<forall>ts. set ts = set (fw_tasks (ap_player (sv_airplay leader))) \<longrightarrow>
        (\<exists>w'' p. run_tasks net ks dord ts (ap_player (sv_airplay leader)) = (Ret (), w'') \<and> fw_player w'' = Some p
          \<and> dom (fp_sessions p) = vw_pending before \<union> (set ids - {hd ids})))
    \<and> (\<forall>n. n \<in> set ids \<and> n \<noteq> hd ids \<longrightarrow> (\<exists>v. views w' n = Some v \<and> vw_sessions v = {} \<and> \<not> vw_advertised v))"
proof -
  let ?l = "hd ids"
  have l: "?l \<in> set ids" "?l \<in> music_names env" using assms(2,3) by auto
  have run: "runs env (views w, config_of w) (CreateZone env displayName ids) (Itoa (me_random env))
      (at_each (zone_formed displayName ids) (music_names env) (views w),
       (config_of w)(Itoa (me_random env) \<mapsto> no_entry\<lparr>ent_Zone := new_zone env displayName ids\<rparr>))"
    if "healthy_env env"
    unfolding CreateZone_def by (intro runs_by_leader runs_createZone that assms(2,3))
  obtain w' where w': "CreateZone env displayName ids w = (Ret (Itoa (me_random env)), w')" "healthy env w'"
    "views w' = at_each (zone_formed displayName ids) (music_names env) (views w)"
    using healthy_runs [OF assms(1) run] by blast
  obtain s where s: "mw_speakers w' ?l = Some s" "speaker_ok (me_hosts env ?l) s"
    using w'(2) l(2) by (auto simp: healthy_def)
  let ?w = "ap_player (sv_airplay s)"
  obtain p where p: "fw_player ?w = Some p" using s(2) by (auto simp: speaker_ok_def)
  have "views w' ?l = Some (zone_formed displayName ids ?l before)"
    using w'(3) l(2) assms(6) by (simp add: at_each_def)
  then have view: "speaker_view s = zone_formed displayName ids ?l before" using s(1) by (simp add: views_def)
  have "vw_sessions (speaker_view s) = {}" "vw_pending (speaker_view s) = vw_pending before \<union> (set ids - {?l})"
    unfolding view using l(1) by (simp_all add: zone_formed_def in_zone_def)
  then have idle: "dom (fp_sessions p) = {}" "pending_targets ?w = vw_pending before \<union> (set ids - {?l})"
    using p by (simp_all add: speaker_view_def player_of_def)
  have "\<exists>w'' p'. run_tasks net ks dord ts ?w = (Ret (), w'') \<and> fw_player w'' = Some p'
      \<and> dom (fp_sessions p') = vw_pending before \<union> (set ids - {?l})"
    if "set ts = set (fw_tasks ?w)" for ts
    using run_tasks_up [OF assms(4,5) p, of ks ts] that idle by (simp add: pending_targets_def)
  moreover have "\<exists>v. views w' n = Some v \<and> vw_sessions v = {} \<and> \<not> vw_advertised v" if "n \<in> set ids" "n \<noteq> ?l" for n
    using healthy_views [OF assms(1), of n] that assms(2) w'(3) by (auto simp: at_each_def zone_formed_def in_zone_def)
  ultimately show ?thesis using w'(1) s(1) by (intro exI [of _ w'] exI [of _ s]) simp
qed

theorem zone_plays_together_witness:
  "\<exists>w' leader w'' p. CreateZone (sample_env [''den'', ''hall'']) ''Up'' [''den'', ''hall''] (sample_world [''den'', ''hall'']) =
      (Ret (Itoa 17), w')
    \<and> mw_speakers w' ''den'' = Some leader
    \<and> run_tasks (sample_net\<lparr>nt_establish := \<lambda>ip port i. Ret (NewSession NewSessionDescription None)\<rparr>) [] []
        (fw_tasks (ap_player (sv_airplay leader))) (ap_player (sv_airplay leader)) = (Ret (), w'')
    \<and> fw_player w'' = Some p \<and> dom (fp_sessions p) = {''hall''}"
proof -
  let ?env = "sample_env [''den'', ''hall'']" and ?w = "sample_world [''den'', ''hall'']"
  let ?net = "sample_net\<lparr>nt_establish := \<lambda>ip port i. Ret (NewSession NewSessionDescription None)\<rparr>"
  have h: "healthy ?env ?w" by (rule sample_healthy) auto
  have names: "music_names ?env = {''den'', ''hall''}" unfolding sample_music_names by simp
  obtain v where v: "views ?w ''den'' = Some v" "vw_pending v = {}"
    by (simp add: views_def sample_world_def NewDistributedMgmtService_def speaker_view_def sample_speaker_def
        NewSpeakerServer_def NewAirplayServer_def pending_targets_def)
  have up: "network_up ?net" by (simp add: network_up_def sample_net_def)
  have r: "me_random ?env = 17" by (simp add: sample_env_def)
  show ?thesis
    using zone_plays_together [OF h _ _ up, of "[''den'', ''hall'']" "[]" v "''Up''" "[]"] v by (auto simp: names r)
qed

end
